(* ===== verification/Prelude.thy ===== *)
theory Prelude
  imports Main "HOL-Library.Word"
begin

text \<open>
  Shared vocabulary of the development: the machine integers the Go sources use, the
  collections of rewrite rules the component proofs draw on, and list facts about
  "keep the newest entries" that the bounded histories of the dashboard need.
\<close>

section \<open>Machine integers\<close>

type_synonym u8 = "8 word"
type_synonym u16 = "16 word"
type_synonym u32 = "32 word"
type_synonym u64 = "64 word"

text \<open>Go byte strings; an Isabelle character is one byte.\<close>

type_synonym bytes = "u8 list"

section \<open>Collections of facts\<close>

named_theorems state_simps
  \<open>projections of the state updates the goroutines perform\<close>
named_theorems keeps_simps
  \<open>how a guarantee passes through the program constructors\<close>
named_theorems inv_intros
  \<open>the primitive state updates preserve the state invariants\<close>

section \<open>The newest entries of a list\<close>

definition lastn :: "nat \<Rightarrow> 'a list \<Rightarrow> 'a list" where
  "lastn k xs = drop (length xs - k) xs"

lemma length_lastn [simp]: "length (lastn k xs) = min k (length xs)"
  by (simp add: lastn_def)

lemma lastn_short [simp]: "length xs \<le> k \<Longrightarrow> lastn k xs = xs"
  by (simp add: lastn_def)

lemma set_lastn: "set (lastn k xs) \<subseteq> set xs"
  by (simp add: lastn_def set_drop_subset)

lemma in_set_lastnD: "x \<in> set (lastn k xs) \<Longrightarrow> x \<in> set xs"
  using set_lastn by fast

lemma lastn_snoc: "0 < k \<Longrightarrow> lastn k (xs @ [x]) = lastn (k - 1) xs @ [x]"
  by (cases k) (simp_all add: lastn_def)

lemma lastn_append_lastn: "lastn k (lastn k xs @ ys) = lastn k (xs @ ys)"
proof (cases "k \<le> length xs")
  case True
  then have "length ys + (length xs - k) = length xs + length ys - k" by simp
  with True show ?thesis by (simp add: lastn_def)
next
  case False
  then show ?thesis by simp
qed

lemma sorted_wrt_lastn: "sorted_wrt R xs \<Longrightarrow> sorted_wrt R (lastn k xs)"
  by (simp add: lastn_def sorted_wrt_drop)

lemma filter_drop_suffix: "\<exists>n. filter P (drop k xs) = drop n (filter P xs)"
proof -
  have "filter P xs = filter P (take k xs) @ filter P (drop k xs)"
    by (metis append_take_drop_id filter_append)
  then have "drop (length (filter P (take k xs))) (filter P xs) = filter P (drop k xs)"
    by simp
  then show ?thesis by metis
qed

lemma sorted_wrt_map_filter_lastn:
  "sorted_wrt R (map f (filter P xs)) \<Longrightarrow> sorted_wrt R (map f (filter P (lastn k xs)))"
  by (metis drop_map filter_drop_suffix lastn_def sorted_wrt_drop)

section \<open>Counters at their width\<close>

lemma u64_suc_no_wrap:
  fixes x :: u64
  assumes "unat x \<le> n" and "Suc n < 2 ^ 64"
  shows "unat (x + 1) = Suc (unat x)"
  using assms by (simp add: unat_word_ariths)

lemma nth_update: "j < length xs \<Longrightarrow> (xs[i := x]) ! j = (if i = j then x else xs ! j)"
  by (cases "i < length xs") (auto simp: nth_list_update)

end
