(* ===== verification/Goroutine.thy ===== *)
theory Goroutine
  imports Prelude
begin

text \<open>
  Goroutines that share a state.  A goroutine is a tree of atomic actions: an \<open>Act\<close> is
  one section of the source that runs under a mutex (or one call of outside code), and a
  \<open>Go\<close> is a \<^verbatim>\<open>go\<close> statement.  An action whose function returns \<open>None\<close> is blocked: the
  goroutine waits (for a mutex, for a message) until another one has changed the state.
  A program interleaves its goroutines in any order; \<open>exec\<close> is the run of one of them
  that nobody interrupts.
\<close>

section \<open>Programs\<close>

datatype ('s, 't, 'r) prog =
    Ret 'r
  | Act "'s \<Rightarrow> ('s \<times> ('s, 't, 'r) prog) option"
  | Go 't "('s, 't, 'r) prog"

text \<open>Sequential composition: the caller continues with the callee's result.\<close>

primrec bindp :: "('s, 't, 'a) prog \<Rightarrow> ('a \<Rightarrow> ('s, 't, 'b) prog) \<Rightarrow> ('s, 't, 'b) prog" where
  "bindp (Ret r) k = k r"
| "bindp (Act f) k = Act (\<lambda>s. map_option (map_prod id (\<lambda>p. bindp p k)) (f s))"
| "bindp (Go t p) k = Go t (bindp p k)"

text \<open>An action that always runs, and one that waits for a condition.\<close>

definition atomic :: "('s \<Rightarrow> 'a \<times> 's) \<Rightarrow> ('a \<Rightarrow> ('s, 't, 'r) prog) \<Rightarrow> ('s, 't, 'r) prog" where
  "atomic f k = Act (\<lambda>s. case f s of (a, s') \<Rightarrow> Some (s', k a))"

definition await :: "('s \<Rightarrow> ('a \<times> 's) option) \<Rightarrow> ('a \<Rightarrow> ('s, 't, 'r) prog) \<Rightarrow> ('s, 't, 'r) prog" where
  "await f k = Act (\<lambda>s. case f s of None \<Rightarrow> None | Some (a, s') \<Rightarrow> Some (s', k a))"

primrec exec :: "('s, 't, 'r) prog \<Rightarrow> 's \<Rightarrow> ('s \<times> 't list \<times> 'r) option" where
  "exec (Ret r) = (\<lambda>s. Some (s, [], r))"
| "exec (Act f) = (\<lambda>s. case map_option (map_prod id exec) (f s) of
     None \<Rightarrow> None | Some (s', run) \<Rightarrow> run s')"
| "exec (Go t p) = (\<lambda>s. map_option (\<lambda>(s', ts, r). (s', t # ts, r)) (exec p s))"

lemma exec_Act: "exec (Act f) s = (case f s of None \<Rightarrow> None | Some (s', p) \<Rightarrow> exec p s')"
  by (simp split: option.split prod.split)

lemma exec_atomic [simp]: "exec (atomic f k) s = (case f s of (a, s') \<Rightarrow> exec (k a) s')"
  by (simp add: atomic_def exec_Act split: prod.split)

lemma exec_await [simp]:
  "exec (await f k) s = (case f s of None \<Rightarrow> None | Some (a, s') \<Rightarrow> exec (k a) s')"
  by (simp add: await_def exec_Act split: prod.split option.split)

lemma prog_induct [case_names Ret Act Go, induct type: prog]:
  fixes P :: "('s, 't, 'r) prog \<Rightarrow> bool"
  assumes "\<And>r. P (Ret r)"
    and act: "\<And>f. (\<And>s s' p. f s = Some (s', p) \<Longrightarrow> P p) \<Longrightarrow> P (Act f)"
    and "\<And>t p. P p \<Longrightarrow> P (Go t p)"
  shows "P p"
proof (rule prog.induct)
  fix f :: "'s \<Rightarrow> ('s \<times> ('s, 't, 'r) prog) option"
  assume IH: "\<And>x y z. x \<in> range f \<Longrightarrow> y \<in> set_option x \<Longrightarrow> z \<in> Basic_BNFs.snds y \<Longrightarrow> P z"
  show "P (Act f)"
  proof (rule act)
    fix s s' p
    assume "f s = Some (s', p)"
    then have "Some (s', p) \<in> range f" by (metis rangeI)
    then show "P p" by (rule IH [of _ "(s', p)"]) (simp, simp add: Basic_BNFs.snds.simps)
  qed
qed (use assms in auto)

lemma exec_bindp:
  "exec (bindp p k) s =
    (case exec p s of None \<Rightarrow> None
     | Some (s1, ts, a) \<Rightarrow> map_option (\<lambda>(s2, us, r). (s2, ts @ us, r)) (exec (k a) s1))"
proof (induction p arbitrary: s)
  case (Ret r)
  show ?case by (simp add: option.map_ident case_prod_unfold)
next
  case (Act f)
  then show ?case
    by (cases "f s") (auto simp: exec_Act)
next
  case (Go t p)
  then show ?case
    by (cases "exec p s") (auto simp: option.map_comp comp_def case_prod_unfold)
qed

section \<open>Interleaving\<close>

type_synonym ('s, 't) pool = "'s \<times> ('s, 't, 't option) prog list"

text \<open>
  The steps of a program whose goroutines have the bodies \<open>body\<close>.  A goroutine that
  returns \<open>Some t\<close> goes round its loop with \<open>t\<close>.  The outside can start a goroutine
  (an HTTP request arrives) and can change the state on its own (\<open>env\<close>).
\<close>

inductive pool_step ::
  "('t \<Rightarrow> ('s, 't, 't option) prog) \<Rightarrow> ('t \<Rightarrow> bool) \<Rightarrow> ('s \<Rightarrow> 's \<Rightarrow> bool)
     \<Rightarrow> ('s, 't) pool \<Rightarrow> ('s, 't) pool \<Rightarrow> bool"
  for body arrives env where
  act: "i < length ps \<Longrightarrow> ps ! i = Act f \<Longrightarrow> f s = Some (s', p) \<Longrightarrow>
     pool_step body arrives env (s, ps) (s', ps[i := p])"
| spawn: "i < length ps \<Longrightarrow> ps ! i = Go t p \<Longrightarrow>
     pool_step body arrives env (s, ps) (s, ps[i := p] @ [body t])"
| loop: "i < length ps \<Longrightarrow> ps ! i = Ret (Some t) \<Longrightarrow>
     pool_step body arrives env (s, ps) (s, ps[i := body t])"
| arrive: "arrives t \<Longrightarrow> pool_step body arrives env (s, ps) (s, ps @ [body t])"
| world: "env s s' \<Longrightarrow> pool_step body arrives env (s, ps) (s', ps)"

inductive_cases pool_stepE: "pool_step body arrives env (s, ps) c"

inductive pool_run ::
  "('t \<Rightarrow> ('s, 't, 't option) prog) \<Rightarrow> ('t \<Rightarrow> bool) \<Rightarrow> ('s \<Rightarrow> 's \<Rightarrow> bool)
     \<Rightarrow> nat \<Rightarrow> ('s, 't) pool \<Rightarrow> ('s, 't) pool \<Rightarrow> bool"
  for body arrives env where
  run_refl: "pool_run body arrives env 0 c c"
| run_step: "pool_run body arrives env n c d \<Longrightarrow> pool_step body arrives env d e \<Longrightarrow>
     pool_run body arrives env (Suc n) c e"


section \<open>Invariants and guarantees\<close>

text \<open>
  \<open>keeps J G p\<close>: every action of \<open>p\<close>, started in a state where \<open>J\<close> holds, ends in a
  state where \<open>J\<close> holds, and changes the state only as \<open>G\<close> allows.  \<open>J\<close> may depend on the
  number of steps taken so far, which bounds the counters the actions increment.
\<close>

primrec keeps ::
  "(nat \<Rightarrow> 's \<Rightarrow> bool) \<Rightarrow> ('s \<Rightarrow> 's \<Rightarrow> bool) \<Rightarrow> ('s, 't, 'r) prog \<Rightarrow> bool" where
  "keeps J G (Ret r) = True"
| "keeps J G (Act f) = (\<forall>n s. J n s \<longrightarrow>
     (case map_option (map_prod id (keeps J G)) (f s) of
        None \<Rightarrow> True | Some (s', ok) \<Rightarrow> J (Suc n) s' \<and> G s s' \<and> ok))"
| "keeps J G (Go t p) = keeps J G p"

lemma keeps_Act: "keeps J G (Act f) \<longleftrightarrow>
    (\<forall>n s s' p. J n s \<longrightarrow> f s = Some (s', p) \<longrightarrow> J (Suc n) s' \<and> G s s' \<and> keeps J G p)"
  by (auto split: option.splits)

declare keeps.simps(2) [simp del]

lemma keeps_Ret [keeps_simps]: "keeps J G (Ret r)"
  and keeps_Go [keeps_simps]: "keeps J G (Go t p) = keeps J G p"
  by simp_all

lemma keeps_atomic:
  assumes "\<And>n s a s'. J n s \<Longrightarrow> f s = (a, s') \<Longrightarrow> J (Suc n) s' \<and> G s s' \<and> keeps J G (k a)"
  shows "keeps J G (atomic f k)"
  using assms by (auto simp: atomic_def keeps_Act split: prod.splits)

lemma keeps_await:
  assumes "\<And>n s a s'. J n s \<Longrightarrow> f s = Some (a, s') \<Longrightarrow> J (Suc n) s' \<and> G s s' \<and> keeps J G (k a)"
  shows "keeps J G (await f k)"
  using assms by (auto simp: await_def keeps_Act split: option.splits)

lemma keeps_bindp:
  assumes "keeps J G p" and "\<And>a. keeps J G (k a)"
  shows "keeps J G (bindp p k)"
  using assms(1)
proof (induction p)
  case (Act f)
  then show ?case by (fastforce simp: keeps_Act)
qed (simp_all add: assms(2))

locale goroutines =
  fixes body :: "'t \<Rightarrow> ('s, 't, 't option) prog"
    and arrives :: "'t \<Rightarrow> bool"
    and env :: "'s \<Rightarrow> 's \<Rightarrow> bool"
    and J :: "nat \<Rightarrow> 's \<Rightarrow> bool"
    and G :: "'s \<Rightarrow> 's \<Rightarrow> bool"
  assumes body_keeps: "keeps J G (body t)"
    and env_keeps: "J n s \<Longrightarrow> env s s' \<Longrightarrow> J (Suc n) s' \<and> G s s'"
    and idle_keeps: "J n s \<Longrightarrow> J (Suc n) s"
    and guar_refl: "G s s"
begin

lemma step_keeps:
  assumes "pool_step body arrives env (s, ps) (s', ps')"
    and "J n s" and "\<forall>p \<in> set ps. keeps J G p"
  shows "J (Suc n) s' \<and> G s s' \<and> (\<forall>p \<in> set ps'. keeps J G p)"
  using assms(1)
proof cases
  case (act i f p)
  then have "keeps J G (Act f)" using assms(3) by (metis nth_mem)
  with act assms(2,3) show ?thesis
    by (auto simp: keeps_Act dest!: set_update_subset_insert [THEN subsetD])
next
  case (spawn i t p)
  then have "keeps J G (Go t p)" using assms(3) by (metis nth_mem)
  with spawn assms(2,3) show ?thesis
    by (auto simp: idle_keeps guar_refl body_keeps dest!: set_update_subset_insert [THEN subsetD])
next
  case (loop i t)
  with assms(2,3) show ?thesis
    by (auto simp: idle_keeps guar_refl body_keeps dest!: set_update_subset_insert [THEN subsetD])
next
  case (arrive t)
  with assms(2,3) show ?thesis by (auto simp: idle_keeps guar_refl body_keeps)
next
  case world
  with assms(2,3) show ?thesis by (auto dest: env_keeps)
qed

lemma run_keeps:
  assumes "pool_run body arrives env n c d"
    and "J m (fst c)" and "\<forall>p \<in> set (snd c). keeps J G p"
  shows "J (m + n) (fst d) \<and> G\<^sup>*\<^sup>* (fst c) (fst d) \<and> (\<forall>p \<in> set (snd d). keeps J G p)"
  using assms
proof (induction rule: pool_run.induct)
  case (run_refl c)
  then show ?case by simp
next
  case (run_step n c d e)
  from run_step.IH [OF run_step.prems] have d: "J (m + n) (fst d)" "G\<^sup>*\<^sup>* (fst c) (fst d)"
    "\<forall>p \<in> set (snd d). keeps J G p" by simp_all
  from run_step.hyps(2) have "pool_step body arrives env (fst d, snd d) (fst e, snd e)" by simp
  from step_keeps [OF this d(1,3)] d(2) show ?case
    by (auto intro: rtranclp.rtrancl_into_rtrancl)
qed

text \<open>What holds at the start of the program holds in every interleaving of it.\<close>

lemma run_invariant:
  assumes "pool_run body arrives env n (s, map body ts) (s', ps)" and "J 0 s"
  shows "J n s'"
  using run_keeps [OF assms(1), of 0] assms(2) by (auto simp: body_keeps)

text \<open>From any point a run has reached, the state moves on only in \<open>G\<close> steps.\<close>

lemma run_guarantee:
  assumes "pool_run body arrives env n (s, map body ts) (s1, ps)" and "J 0 s"
    and "pool_run body arrives env m (s1, ps) (s2, qs)"
  shows "G\<^sup>*\<^sup>* s1 s2"
proof -
  from run_keeps [OF assms(1), of 0] assms(2) have "J n s1" "\<forall>p \<in> set ps. keeps J G p"
    by (auto simp: body_keeps)
  with run_keeps [OF assms(3), of n] show ?thesis by simp
qed

end

section \<open>Uninterrupted runs\<close>

text \<open>An uninterrupted run of a goroutine is one of the interleavings.\<close>

lemma pool_run_Suc:
  assumes "pool_step body arrives env c d" and "pool_run body arrives env n d e"
  shows "pool_run body arrives env (Suc n) c e"
  using assms(2,1)
proof (induction rule: pool_run.induct)
  case (run_refl c')
  show ?case by (rule pool_run.run_step [OF pool_run.run_refl run_refl.prems])
next
  case (run_step n c' d e)
  show ?case by (rule pool_run.run_step [OF run_step.IH [OF run_step.prems] run_step.hyps(2)])
qed

text \<open>The number of steps of an uninterrupted run.\<close>

primrec run_length :: "('s, 't, 'r) prog \<Rightarrow> 's \<Rightarrow> nat" where
  "run_length (Ret r) = (\<lambda>s. 0)"
| "run_length (Act f) = (\<lambda>s. case map_option (map_prod id run_length) (f s) of
     None \<Rightarrow> 0 | Some (s', run) \<Rightarrow> Suc (run s'))"
| "run_length (Go t p) = (\<lambda>s. Suc (run_length p s))"

lemma run_length_Act: "run_length (Act f) s = (case f s of None \<Rightarrow> 0 | Some (s', p) \<Rightarrow> Suc (run_length p s'))"
  by (simp split: option.split prod.split)

lemma run_length_atomic [simp]: "run_length (atomic f k) s = (case f s of (a, s') \<Rightarrow> Suc (run_length (k a) s'))"
  by (simp add: atomic_def run_length_Act split: prod.split)

lemma exec_is_pool_run:
  assumes "exec p s = Some (s', ts, r)"
  shows "pool_run body arrives env (run_length p s) (s, us @ p # qs) (s', us @ Ret r # qs @ map body ts)"
  using assms
proof (induction p arbitrary: s qs ts)
  case (Ret r')
  then show ?case by (auto intro: pool_run.run_refl)
next
  case (Act f)
  then obtain s1 p where f: "f s = Some (s1, p)" and p: "exec p s1 = Some (s', ts, r)"
    by (auto simp: exec_Act simp del: exec.simps split: option.splits)
  have "pool_step body arrives env (s, us @ Act f # qs) (s1, us @ p # qs)"
    using pool_step.act [of "length us" "us @ Act f # qs" f s s1 p] f by simp
  from pool_run_Suc [OF this Act.IH [OF f p]] show ?case
    by (simp add: run_length_Act f del: run_length.simps)
next
  case (Go t p)
  then obtain ts' where p: "exec p s = Some (s', ts', r)" and ts: "ts = t # ts'" by auto
  have "pool_step body arrives env (s, us @ Go t p # qs) (s, us @ p # qs @ [body t])"
    using pool_step.spawn [of "length us" "us @ Go t p # qs" t p body arrives env s] by simp
  from pool_run_Suc [OF this Go.IH [OF p]] show ?case by (simp add: ts)
qed

lemma pool_run_trans:
  assumes "pool_run body arrives env m d e" and "pool_run body arrives env n c d"
  shows "pool_run body arrives env (n + m) c e"
  using assms
proof (induction rule: pool_run.induct)
  case (run_step m d e e')
  then show ?case using pool_run.run_step [of body arrives env "n + m" c e e'] by simp
qed simp

text \<open>A goroutine that arrives and then runs undisturbed extends any run.\<close>

lemma pool_run_arrival:
  assumes "pool_run body arrives env n c (s, ps)" and "arrives t" and "exec (body t) s = Some (s', ts, r)"
  shows "\<exists>m. pool_run body arrives env m c (s', ps @ Ret r # map body ts)"
proof -
  have "pool_step body arrives env (s, ps) (s, ps @ [body t])" using assms(2) by (rule pool_step.arrive)
  with assms(1) have "pool_run body arrives env (Suc n) c (s, ps @ [body t])" by (rule pool_run.run_step)
  moreover have "pool_run body arrives env (run_length (body t) s) (s, ps @ [body t])
      (s', ps @ Ret r # map body ts)"
    using exec_is_pool_run [where us = ps and qs = "[]" and body = body and arrives = arrives
      and env = env, OF assms(3)] by simp
  ultimately show ?thesis by (blast intro: pool_run_trans)
qed

text \<open>One action of a composed goroutine, as a step of the pool.\<close>

lemma pool_act_atomic:
  assumes "i < length ps" and "ps ! i = bindp (atomic f k) K" and "f s = (a, s')"
  shows "pool_step body arrives env (s, ps) (s', ps[i := bindp (k a) K])"
  using assms pool_step.act [of i ps _ s s' "bindp (k a) K" body arrives env] by (simp add: atomic_def)

lemma pool_act_await:
  assumes "i < length ps" and "ps ! i = bindp (await f k) K" and "f s = Some (a, s')"
  shows "pool_step body arrives env (s, ps) (s', ps[i := bindp (k a) K])"
  using assms pool_step.act [of i ps _ s s' "bindp (k a) K" body arrives env] by (simp add: await_def)

text \<open>A goroutine without waiting actions runs to its end from every state.\<close>

primrec never_blocks :: "('s, 't, 'r) prog \<Rightarrow> bool" where
  "never_blocks (Ret r) = True"
| "never_blocks (Act f) = (\<forall>s. case map_option (map_prod id never_blocks) (f s) of
     None \<Rightarrow> False | Some (s', ok) \<Rightarrow> ok)"
| "never_blocks (Go t p) = never_blocks p"

lemma never_blocks_Act:
  fixes f :: "'s \<Rightarrow> ('s \<times> ('s, 't, 'r) prog) option"
  shows "never_blocks (Act f) \<longleftrightarrow> (\<forall>s. \<exists>s' p. f s = Some (s', p) \<and> never_blocks p)"
proof -
  have "(case map_option (map_prod id never_blocks) x of None \<Rightarrow> False | Some (s', ok) \<Rightarrow> ok)
      \<longleftrightarrow> (\<exists>s' p. x = Some (s', p) \<and> never_blocks p)" for x :: "('s \<times> ('s, 't, 'r) prog) option"
    by (cases x) auto
  then show ?thesis by (simp only: never_blocks.simps)
qed

lemma never_blocks_atomic [simp]:
  "never_blocks (atomic f k) \<longleftrightarrow> (\<forall>s. never_blocks (k (fst (f s))))"
  by (simp add: atomic_def split: prod.splits) (metis fst_conv prod.collapse)

lemma never_blocks_exec: "never_blocks p \<Longrightarrow> exec p s \<noteq> None"
proof (induction p arbitrary: s)
  case (Act f)
  from Act.prems have "case map_option (map_prod id never_blocks) (f s) of
     None \<Rightarrow> False | Some (s', ok) \<Rightarrow> ok" by (simp only: never_blocks.simps)
  then obtain s1 p where "f s = Some (s1, p)" and "never_blocks p"
    by (auto split: option.splits)
  with Act.IH show ?case by (auto simp: exec_Act simp del: exec.simps)
qed auto

end
