(* ===== verification/Go_Text.thy ===== *)
theory Go_Text
  imports Prelude
begin

text \<open>
  Go strings.  A Go string is a sequence of bytes, modelled as an Isabelle \<open>string\<close> whose
  characters are the bytes; ranging over it decodes UTF-8 into runes, an ill-formed byte
  being the replacement rune of width one.  The functions of the packages \<open>strings\<close>,
  \<open>unicode/utf8\<close> and \<open>strconv\<close> that the program calls are defined here.
\<close>

section \<open>Runes\<close>

definition rune_error :: nat where
  "rune_error = 0xFFFD"

definition byte_at :: "string \<Rightarrow> nat \<Rightarrow> nat" where
  "byte_at s i = (if i < length s then of_char (s ! i) else 0)"

definition in_range :: "nat \<Rightarrow> nat \<Rightarrow> nat \<Rightarrow> bool" where
  "in_range lo hi b \<longleftrightarrow> lo \<le> b \<and> b \<le> hi"

text \<open>The first rune of a non-empty string and its width (\<open>utf8.DecodeRuneInString\<close>).\<close>

definition decode_rune :: "string \<Rightarrow> nat \<times> nat" where
  "decode_rune s =
    (let b0 = byte_at s 0; b1 = byte_at s 1; b2 = byte_at s 2; b3 = byte_at s 3;
         cont = in_range 0x80 0xBF in
     if b0 < 0x80 then (b0, 1)
     else if in_range 0xC2 0xDF b0 \<and> cont b1
       then ((b0 - 0xC0) * 0x40 + (b1 - 0x80), 2)
     else if in_range 0xE0 0xEF b0
         \<and> in_range (if b0 = 0xE0 then 0xA0 else 0x80) (if b0 = 0xED then 0x9F else 0xBF) b1 \<and> cont b2
       then ((b0 - 0xE0) * 0x1000 + (b1 - 0x80) * 0x40 + (b2 - 0x80), 3)
     else if in_range 0xF0 0xF4 b0
         \<and> in_range (if b0 = 0xF0 then 0x90 else 0x80) (if b0 = 0xF4 then 0x8F else 0xBF) b1
         \<and> cont b2 \<and> cont b3
       then ((b0 - 0xF0) * 0x40000 + (b1 - 0x80) * 0x1000 + (b2 - 0x80) * 0x40 + (b3 - 0x80), 4)
     else (rune_error, 1))"

lemma decode_rune_width: "1 \<le> snd (decode_rune s)"
  by (simp add: decode_rune_def Let_def)

text \<open>The runes of a string, each with the bytes it was decoded from.\<close>

function runes :: "string \<Rightarrow> (nat \<times> string) list" where
  "runes s = (if s = [] then []
     else (case decode_rune s of (r, w) \<Rightarrow> (r, take w s) # runes (drop w s)))"
  by pat_completeness auto
termination
proof (relation "measure length", simp, clarsimp)
  fix s :: string and r w
  assume "s \<noteq> []" and d: "(r, w) = decode_rune s"
  from decode_rune_width [of s] have "1 \<le> w" by (simp flip: d)
  with \<open>s \<noteq> []\<close> show "length s - w < length s" by (cases s) auto
qed

declare runes.simps [simp del]

lemma runes_Nil [simp]: "runes [] = []"
  by (simp add: runes.simps)

lemma runes_concat: "concat (map snd (runes s)) = s"
proof (induction s rule: runes.induct)
  case (1 s)
  show ?case
  proof (cases "s = []")
    case False
    obtain r w where d: "decode_rune s = (r, w)" by force
    with "1.IH" [OF False d [symmetric]] False show ?thesis
      by (subst runes.simps) simp
  qed simp
qed

text \<open>\<open>len([]rune(s))\<close>.\<close>

definition rune_count :: "string \<Rightarrow> nat" where
  "rune_count s = length (runes s)"

lemma decode_rune_ascii: "of_char c < (0x80::nat) \<Longrightarrow> decode_rune (c # s) = (of_char c, 1)"
  by (simp add: decode_rune_def byte_at_def)

lemma runes_ascii_Cons:
  "of_char c < (0x80::nat) \<Longrightarrow> runes (c # s) = (of_char c, [c]) # runes s"
  by (subst runes.simps) (simp add: decode_rune_ascii)

lemma runes_ascii:
  "\<forall>c \<in> set s. of_char c < (0x80::nat) \<Longrightarrow> runes s = map (\<lambda>c. (of_char c, [c])) s"
  by (induction s) (simp_all add: runes_ascii_Cons)

text \<open>A rune below 0x80 is a single byte, so a test for ASCII runes is a test for bytes.\<close>

lemma decode_rune_lt_ascii:
  assumes "fst (decode_rune s) < 0x80" and "s \<noteq> []"
  shows "of_char (hd s) < (0x80::nat)"
proof (rule ccontr)
  assume hi: "\<not> of_char (hd s) < (0x80::nat)"
  have b0: "byte_at s 0 = of_char (hd s)" using assms(2) by (cases s) (simp_all add: byte_at_def)
  show False
    using assms(1) hi unfolding decode_rune_def Let_def b0
    by (auto simp: rune_error_def in_range_def split: if_splits)
qed

lemma runes_all_ascii:
  assumes "\<forall>(r, bs) \<in> set (runes s). r < 0x80"
  shows "\<forall>c \<in> set s. of_char c < (0x80::nat)"
  using assms
proof (induction s rule: runes.induct)
  case (1 s)
  show ?case
  proof (cases s)
    case (Cons c cs)
    obtain r w where d: "decode_rune s = (r, w)" by force
    with "1.prems" Cons have "r < 0x80" by (subst (asm) runes.simps) auto
    with decode_rune_lt_ascii [of s] d Cons have c: "of_char c < (0x80::nat)" by simp
    then have w: "w = 1" using d Cons by (simp add: decode_rune_ascii)
    from "1.prems" have "\<forall>(r, bs) \<in> set (runes cs). r < 0x80"
      by (simp add: Cons runes_ascii_Cons [OF c])
    with "1.IH" [OF _ d [symmetric]] w Cons have "\<forall>c \<in> set cs. of_char c < (0x80::nat)" by simp
    with c Cons show ?thesis by simp
  qed simp
qed

section \<open>White space\<close>

definition is_space :: "nat \<Rightarrow> bool" where
  "is_space r \<longleftrightarrow> in_range 9 13 r \<or> r = 0x20 \<or> r = 0x85 \<or> r = 0xA0 \<or> r = 0x1680
     \<or> in_range 0x2000 0x200A r \<or> r = 0x2028 \<or> r = 0x2029 \<or> r = 0x202F \<or> r = 0x205F \<or> r = 0x3000"

text \<open>\<open>strings.TrimSpace\<close> and \<open>strings.Fields\<close>.\<close>

definition trim_space :: "string \<Rightarrow> string" where
  "trim_space s = concat (map snd
     (rev (dropWhile (is_space \<circ> fst) (rev (dropWhile (is_space \<circ> fst) (runes s))))))"

fun fields_from :: "string \<Rightarrow> (nat \<times> string) list \<Rightarrow> string list" where
  "fields_from acc [] = (if acc = [] then [] else [acc])"
| "fields_from acc ((r, bs) # rs) =
    (if is_space r then (if acc = [] then [] else [acc]) @ fields_from [] rs
     else fields_from (acc @ bs) rs)"

definition words :: "string \<Rightarrow> string list" where
  "words s = fields_from [] (runes s)"

section \<open>Searching, cutting and joining\<close>

definition has_prefix :: "string \<Rightarrow> string \<Rightarrow> bool" where
  "has_prefix s p \<longleftrightarrow> take (length p) s = p"

fun contains :: "string \<Rightarrow> string \<Rightarrow> bool" where
  "contains [] sub = (sub = [])"
| "contains (c # s) sub = (has_prefix (c # s) sub \<or> contains s sub)"

text \<open>\<open>strings.Cut\<close> at the first separator byte, and at the last one.\<close>

definition cut_at :: "char \<Rightarrow> string \<Rightarrow> string \<times> string \<times> bool" where
  "cut_at c s = (takeWhile (\<lambda>x. x \<noteq> c) s, drop 1 (dropWhile (\<lambda>x. x \<noteq> c) s), c \<in> set s)"

definition last_index :: "char \<Rightarrow> string \<Rightarrow> nat option" where
  "last_index c s = (if c \<in> set s then Some (length s - 1 - length (takeWhile (\<lambda>x. x \<noteq> c) (rev s))) else None)"

fun split_on :: "char \<Rightarrow> string \<Rightarrow> string list" where
  "split_on c [] = [[]]"
| "split_on c (x # s) = (if x = c then [] # split_on c s
     else (case split_on c s of [] \<Rightarrow> [[x]] | w # ws \<Rightarrow> (x # w) # ws))"

fun join :: "string \<Rightarrow> string list \<Rightarrow> string" where
  "join sep [] = []"
| "join sep [w] = w"
| "join sep (w # ws) = w @ sep @ join sep ws"

definition lower_char :: "char \<Rightarrow> char" where
  "lower_char c = (if in_range 65 90 (of_char c) then char_of (of_char c + 32 :: nat) else c)"

definition upper_char :: "char \<Rightarrow> char" where
  "upper_char c = (if in_range 97 122 (of_char c) then char_of (of_char c - 32 :: nat) else c)"

text \<open>\<open>strconv.Itoa\<close> on a natural number.\<close>

fun itoa :: "nat \<Rightarrow> string" where
  "itoa n = (if n < 10 then [char_of (48 + n)] else itoa (n div 10) @ [char_of (48 + n mod 10)])"

declare itoa.simps [simp del]

end
