(* ===== verification/Phone_State.thy ===== *)
theory Phone_State
  imports Goroutine Go_Text
begin

text \<open>
  The data of the phone dashboard (\<^verbatim>\<open>server.go\<close>): messages, events, a phone, the
  dashboard, and the bounded histories.  A mutex that is held across blocking calls
  (\<open>op\<close>, \<open>webMu\<close>) is a bit of the phone; the mutexes \<open>mu\<close> only delimit the atomic
  actions of the goroutines and have no field.  Handles of outside objects (a UE, an IMS
  client, a call) are numbers.
\<close>

section \<open>Records\<close>

record phone_message =
  m_id :: u64
  m_direction :: string
  m_peer :: string
  m_text :: string
  m_status :: string
  m_at :: int

record phone_event =
  e_at :: int
  e_phone :: string
  e_text :: string

text \<open>\<open>scenarios.IMSEndpoint\<close>: the subscriber, and the local address of its IMS session.\<close>

record ims_endpoint =
  ep_imsi :: string
  ep_msisdn :: string
  ep_local :: string

text \<open>A PDU session: its addresses and tunnel endpoint identifiers.\<close>

record pdu_session =
  ses_ue_ipv4 :: string
  ses_upf_address :: string
  ses_ulteid :: u32
  ses_dlteid :: u32
  ses_qfi :: u8

record dashboard_phone =
  p_op_locked :: bool
  p_id :: string
  p_name :: string
  p_endpoint :: ims_endpoint
  p_access :: nat
  p_leg_session :: pdu_session
  p_ims :: "nat option"
  p_call :: "nat option"
  p_peer :: string
  p_incoming :: bool
  p_messages :: "phone_message list"
  p_tx :: u64
  p_rx_base :: int
  p_rx :: int
  p_error_text :: string
  p_web_locked :: bool
  p_internet_ip :: string
  p_internet_session :: pdu_session

abbreviation p_imsi :: "dashboard_phone \<Rightarrow> string" where
  "p_imsi p \<equiv> ep_imsi (p_endpoint p)"

abbreviation p_msisdn :: "dashboard_phone \<Rightarrow> string" where
  "p_msisdn p \<equiv> ep_msisdn (p_endpoint p)"

record phone_dashboard =
  d_phones :: "dashboard_phone list"
  d_events :: "phone_event list"
  d_ready :: bool
  d_problem :: string
  d_next :: u64

text \<open>The state the goroutines share: the dashboard and the world outside the program.\<close>

record 'w sys =
  dash :: phone_dashboard
  world :: 'w

section \<open>Direction and status of a message\<close>

abbreviation "sent \<equiv> ''sent''"
abbreviation "received \<equiv> ''received''"
abbreviation "submitting \<equiv> ''submitting''"
abbreviation "accepted \<equiv> ''accepted by SMSC''"
abbreviation "failed \<equiv> ''failed''"
abbreviation "delivered \<equiv> ''delivered to UE''"

section \<open>Bounded histories\<close>

definition trim :: "dashboard_phone \<Rightarrow> dashboard_phone" where
  "trim p = (if 100 < length (p_messages p)
     then p\<lparr>p_messages := drop (length (p_messages p) - 100) (p_messages p)\<rparr> else p)"

definition add_message :: "phone_message \<Rightarrow> dashboard_phone \<Rightarrow> dashboard_phone" where
  "add_message m p = trim (p\<lparr>p_messages := p_messages p @ [m]\<rparr>)"

text \<open>The body of \<open>event\<close>, at the time it reads from the clock.\<close>

definition log_event :: "phone_event \<Rightarrow> phone_dashboard \<Rightarrow> phone_dashboard" where
  "log_event e d =
    (let d1 = d\<lparr>d_events := d_events d @ [e]\<rparr> in
     if 100 < length (d_events d1)
     then d1\<lparr>d_events := drop (length (d_events d1) - 100) (d_events d1)\<rparr> else d1)"

text \<open>
  The contract both histories implement: what they hold is the newest \<open>cap\<close> entries of all
  that was ever added.
\<close>

locale history =
  fixes add :: "'e \<Rightarrow> 'h \<Rightarrow> 'h"
    and entries :: "'h \<Rightarrow> 'e list"
    and cap :: nat
  assumes entries_add: "entries (add e h) = lastn cap (entries h @ [e])"
begin

lemma entries_add_all:
  "length (entries h) \<le> cap \<Longrightarrow> entries (fold add es h) = lastn cap (entries h @ es)"
proof (induction es rule: rev_induct)
  case (snoc e es)
  then show ?case by (simp add: entries_add lastn_append_lastn)
qed simp

lemma entries_bounded: "length (entries (add e h)) \<le> cap"
  by (simp add: entries_add)

lemma newest_kept: "0 < cap \<Longrightarrow> last (entries (add e h)) = e \<and> entries (add e h) \<noteq> []"
  by (simp add: entries_add lastn_snoc)

lemma entries_add_set: "set (entries (add e h)) \<subseteq> insert e (set (entries h))"
  using set_lastn [of cap "entries h @ [e]"] by (auto simp: entries_add)

end

lemma add_message_sel [state_simps]:
  "p_messages (add_message m p) = lastn 100 (p_messages p @ [m])"
  "p_id (add_message m p) = p_id p" "p_name (add_message m p) = p_name p"
  "p_endpoint (add_message m p) = p_endpoint p"
  "p_op_locked (add_message m p) = p_op_locked p" "p_call (add_message m p) = p_call p"
  "p_access (add_message m p) = p_access p"
  by (auto simp: add_message_def trim_def lastn_def)

lemma add_message_lastn: "add_message m p = p\<lparr>p_messages := lastn 100 (p_messages p @ [m])\<rparr>"
  by (simp add: add_message_def trim_def lastn_def)

lemma log_event_sel [state_simps]:
  "d_events (log_event e d) = lastn 100 (d_events d @ [e])"
  "d_phones (log_event e d) = d_phones d" "d_ready (log_event e d) = d_ready d"
  "d_problem (log_event e d) = d_problem d" "d_next (log_event e d) = d_next d"
  by (auto simp: log_event_def Let_def lastn_def)

interpretation message_box: history add_message p_messages 100
  by unfold_locales (simp add: state_simps)

interpretation event_log: history log_event d_events 100
  by unfold_locales (simp add: state_simps)

section \<open>Updates of one phone\<close>

definition upd_phone :: "nat \<Rightarrow> (dashboard_phone \<Rightarrow> dashboard_phone) \<Rightarrow> phone_dashboard \<Rightarrow> phone_dashboard" where
  "upd_phone i f d = d\<lparr>d_phones := (d_phones d)[i := f (d_phones d ! i)]\<rparr>"

lemma upd_phone_sel [state_simps]:
  "d_phones (upd_phone i f d) = (d_phones d)[i := f (d_phones d ! i)]"
  "d_events (upd_phone i f d) = d_events d" "d_ready (upd_phone i f d) = d_ready d"
  "d_problem (upd_phone i f d) = d_problem d" "d_next (upd_phone i f d) = d_next d"
  by (simp_all add: upd_phone_def)

text \<open>\<open>d.next.Add(1)\<close>.\<close>

definition next_id :: "phone_dashboard \<Rightarrow> u64 \<times> phone_dashboard" where
  "next_id d = (d_next d + 1, d\<lparr>d_next := d_next d + 1\<rparr>)"

text \<open>The lookup loop of the handlers: it does not stop at a match, so the last one wins.\<close>

fun find_phone :: "nat \<Rightarrow> dashboard_phone list \<Rightarrow> string \<Rightarrow> nat option \<Rightarrow> nat option" where
  "find_phone i [] phone found = found"
| "find_phone i (p # ps) phone found =
    find_phone (Suc i) ps phone (if p_id p = phone then Some i else found)"


lemma find_phone_append:
  "find_phone k (ps @ [p]) phone found =
    (if p_id p = phone then Some (k + length ps) else find_phone k ps phone found)"
  by (induction k ps phone found rule: find_phone.induct) simp_all

text \<open>A found phone has the identifier asked for, and no later phone has it.\<close>

lemma find_phone_Some:
  "find_phone 0 ps phone None = Some i \<longleftrightarrow>
    i < length ps \<and> p_id (ps ! i) = phone \<and> (\<forall>j. i < j \<longrightarrow> j < length ps \<longrightarrow> p_id (ps ! j) \<noteq> phone)"
proof (induction ps rule: rev_induct)
  case (snoc p ps)
  show ?case
  proof (cases "p_id p = phone")
    case True
    have "(\<forall>j. i < j \<longrightarrow> j < length (ps @ [p]) \<longrightarrow> p_id ((ps @ [p]) ! j) \<noteq> phone) \<longrightarrow>
        i < length (ps @ [p]) \<longrightarrow> i = length ps"
      using True by (auto dest: spec [of _ "length ps"])
    moreover have "\<forall>j. length ps < j \<longrightarrow> \<not> j < length (ps @ [p])" by simp
    ultimately show ?thesis using True by (auto simp: find_phone_append)
  next
    case False
    then have "p_id ((ps @ [p]) ! j) \<noteq> phone" if "length ps \<le> j" "j < length (ps @ [p])" for j
      using that by (simp add: nth_append)
    with snoc False show ?thesis
      by (simp add: find_phone_append nth_append) (metis less_Suc_eq)
  qed
qed simp

lemma find_phone_None:
  "find_phone 0 ps phone None = None \<longleftrightarrow> phone \<notin> p_id ` set ps"
  by (induction ps rule: rev_induct) (auto simp: find_phone_append)

end
