(* ===== verification/Phone_Config.thy ===== *)
theory Phone_Config
  imports Go_Text
begin

text \<open>
  The configuration of the dashboard process: its mode (\<^verbatim>\<open>mode.go\<close>), the phones its page
  shows (\<^verbatim>\<open>phone_gnb.go\<close>), the checks before it serves, and the test of a phone number
  (\<^verbatim>\<open>server.go\<close>).  The environment is a function from variable names to values, with the
  empty string for a variable that is not set, as \<open>os.Getenv\<close> reports it.
\<close>

type_synonym environment = "string \<Rightarrow> string"

section \<open>Modes\<close>

definition phone_mode :: "environment \<Rightarrow> string" where
  "phone_mode env = (if env ''UE_MODE'' \<noteq> [] then env ''UE_MODE'' else ''internet-ims-sms'')"

definition services_enabled :: "environment \<Rightarrow> bool" where
  "services_enabled env \<longleftrightarrow> phone_mode env = ''internet-ims-sms''"

definition phone_ids :: "environment \<Rightarrow> string" where
  "phone_ids env =
    (let q = [CHR 0x27] in
     if env ''PHONE_ID'' = ''1'' then ''['' @ q @ ''1'' @ q @ '']''
     else if env ''PHONE_ID'' = ''2'' then ''['' @ q @ ''2'' @ q @ '']''
     else ''['' @ q @ ''1'' @ q @ '','' @ q @ ''2'' @ q @ '']'')"

text \<open>The checks of \<open>ServePhones\<close>; the result is the address to listen on.\<close>

definition serve_address :: "environment \<Rightarrow> string \<Rightarrow> string + string" where
  "serve_address env address =
    (let addr = (if address = [] then '':8080'' else address) in
     if env ''CORE_N2'' = [] \<or> env ''N3_ADDRESS'' = [] \<or> env ''N2N3_ADDRESS'' = []
     then Inl ''CORE_N2, N3_ADDRESS and N2N3_ADDRESS are required''
     else if phone_mode env \<noteq> ''internet'' \<and> phone_mode env \<noteq> ''internet-ims-sms''
     then Inl (''invalid UE_MODE: '' @ phone_mode env)
     else Inr addr)"

text \<open>The subscribers a deployment attaches, as indices of the fixed pair.\<close>

definition selected_subscribers :: "environment \<Rightarrow> 'a list \<Rightarrow> 'a list" where
  "selected_subscribers env subs =
    (if env ''PHONE_ID'' = ''1'' then take 1 subs
     else if env ''PHONE_ID'' = ''2'' then drop 1 subs
     else subs)"

section \<open>Phone numbers\<close>

definition valid_phone_number :: "string \<Rightarrow> bool" where
  "valid_phone_number s =
    (if length s < 3 \<or> 16 < length s \<or> hd s \<noteq> CHR ''+'' then False
     else list_all (\<lambda>(c, bytes). \<not> (c < 48 \<or> 57 < c)) (runes (tl s)))"

text \<open>Ranging over runes decides the same as looking at the bytes.\<close>

lemma digit_runes:
  "list_all (\<lambda>(c, bytes). \<not> (c < 48 \<or> 57 < c)) (runes s) \<longleftrightarrow> list_all (\<lambda>c. in_range 48 57 (of_char c)) s"
  (is "?l \<longleftrightarrow> ?r")
proof
  assume l: ?l
  then have "\<forall>(r, bs) \<in> set (runes s). r < 0x80" by (auto simp: list_all_iff)
  then have "runes s = map (\<lambda>c. (of_char c, [c])) s" by (intro runes_ascii runes_all_ascii)
  with l show ?r by (auto simp: list_all_iff in_range_def)
next
  assume r: ?r
  then have "runes s = map (\<lambda>c. (of_char c, [c])) s"
    by (intro runes_ascii) (auto simp: list_all_iff in_range_def)
  with r show ?l by (auto simp: list_all_iff in_range_def)
qed

lemma valid_phone_number_digits:
  "valid_phone_number s \<longleftrightarrow>
    (\<exists>ds. s = ''+'' @ ds \<and> 2 \<le> length ds \<and> length ds \<le> 15 \<and> list_all (\<lambda>c. in_range 48 57 (of_char c)) ds)"
  unfolding valid_phone_number_def digit_runes by (cases s) auto

end
