(* ===== verification/Go_Url.thy ===== *)
theory Go_Url
  imports Go_Text
begin

text \<open>
  The part of Go's package \<open>net/url\<close> that the program relies on: parsing a reference,
  the host and port of an authority, printing a URL and resolving a reference against a
  base.  Parse errors only matter as errors to the program, so a failed parse is \<open>None\<close>.
  Two later checks of the parser (several colons in a host, brackets around something other
  than an IPv6 address) are not included: this parser accepts a few hosts more.
\<close>

section \<open>URLs\<close>

record url =
  u_scheme :: string
  u_opaque :: string
  u_user :: "(string \<times> string option) option"
  u_host :: string
  u_path :: string
  u_raw_path :: string
  u_omit_host :: bool
  u_force_query :: bool
  u_raw_query :: string
  u_fragment :: string
  u_raw_fragment :: string

definition empty_url :: url where
  "empty_url = \<lparr>u_scheme = [], u_opaque = [], u_user = None, u_host = [], u_path = [],
     u_raw_path = [], u_omit_host = False, u_force_query = False, u_raw_query = [],
     u_fragment = [], u_raw_fragment = []\<rparr>"

datatype encoding = EncodePath | EncodeHost | EncodeZone | EncodeUserPassword | EncodeFragment

section \<open>Percent encoding\<close>

definition is_alpha :: "char \<Rightarrow> bool" where
  "is_alpha c \<longleftrightarrow> in_range 65 90 (of_char c) \<or> in_range 97 122 (of_char c)"

definition is_digit :: "char \<Rightarrow> bool" where
  "is_digit c \<longleftrightarrow> in_range 48 57 (of_char c)"

definition is_hex :: "char \<Rightarrow> bool" where
  "is_hex c \<longleftrightarrow> is_digit c \<or> in_range 97 102 (of_char c) \<or> in_range 65 70 (of_char c)"

definition unhex :: "char \<Rightarrow> nat" where
  "unhex c = (if is_digit c then of_char c - 48
     else if in_range 97 102 (of_char c) then of_char c - 87
     else if in_range 65 70 (of_char c) then of_char c - 55 else 0)"

definition upper_hex :: "nat \<Rightarrow> char" where
  "upper_hex n = ''0123456789ABCDEF'' ! n"

definition should_escape :: "char \<Rightarrow> encoding \<Rightarrow> bool" where
  "should_escape c mode =
    (if is_alpha c \<or> is_digit c then False
     else if (mode = EncodeHost \<or> mode = EncodeZone)
         \<and> c \<in> set (''!$&'' @ [CHR 0x27] @ ''()*+,;=:[]<>'' @ [CHR 0x22]) then False
     else if c \<in> set ''-_.~'' then False
     else if c \<in> set ''$&+,/:;=?@'' \<and> mode = EncodePath then c = CHR ''?''
     else if c \<in> set ''$&+,/:;=?@'' \<and> mode = EncodeUserPassword then c \<in> set ''@/?:''
     else if c \<in> set ''$&+,/:;=?@'' \<and> mode = EncodeFragment then False
     else if mode = EncodeFragment \<and> c \<in> set ''!()*'' then False
     else True)"

fun escape :: "encoding \<Rightarrow> string \<Rightarrow> string" where
  "escape mode [] = []"
| "escape mode (c # s) =
    (if should_escape c mode
     then CHR ''%'' # upper_hex (of_char c div 16) # upper_hex (of_char c mod 16) # escape mode s
     else c # escape mode s)"

text \<open>
  A percent sign must begin two hexadecimal digits.  In a host only bytes from 0x80 and
  the percent sign itself may be written that way, and other bytes must be host bytes.
\<close>

definition bad_escape :: "encoding \<Rightarrow> char \<Rightarrow> char \<Rightarrow> bool" where
  "bad_escape mode a b =
    (let percent = (a = CHR ''2'' \<and> b = CHR ''5''); v = 16 * unhex a + unhex b in
     (mode = EncodeHost \<and> unhex a < 8 \<and> \<not> percent)
     \<or> (mode = EncodeZone \<and> \<not> percent \<and> v \<noteq> 0x20 \<and> should_escape (char_of v) EncodeHost))"

fun unescape :: "encoding \<Rightarrow> string \<Rightarrow> string option" where
  "unescape mode [] = Some []"
| "unescape mode (c # s) =
    (if c = CHR ''%'' then
       (case s of
          a # b # t \<Rightarrow>
            (if is_hex a \<and> is_hex b \<and> \<not> bad_escape mode a b
             then map_option ((#) (char_of (16 * unhex a + unhex b))) (unescape mode t)
             else None)
        | _ \<Rightarrow> None)
     else if (mode = EncodeHost \<or> mode = EncodeZone) \<and> of_char c < (0x80::nat) \<and> should_escape c mode
       then None
     else map_option ((#) c) (unescape mode s))"

definition valid_encoded :: "encoding \<Rightarrow> string \<Rightarrow> bool" where
  "valid_encoded mode s = list_all (\<lambda>c.
     c \<in> set (''!$&'' @ [CHR 0x27] @ ''()*+,;=:@[]%'') \<or> \<not> should_escape c mode) s"

section \<open>Parsing\<close>

text \<open>\<open>getScheme\<close>: \<open>None\<close> is the error for an empty scheme.\<close>

fun scheme_from :: "string \<Rightarrow> string \<Rightarrow> string \<Rightarrow> (string \<times> string) option" where
  "scheme_from raw acc [] = Some ([], raw)"
| "scheme_from raw acc (c # s) =
    (if is_alpha c then scheme_from raw (acc @ [c]) s
     else if is_digit c \<or> c \<in> set ''+-.''
       then (if acc = [] then Some ([], raw) else scheme_from raw (acc @ [c]) s)
     else if c = CHR '':'' then (if acc = [] then None else Some (acc, s))
     else Some ([], raw))"

definition get_scheme :: "string \<Rightarrow> (string \<times> string) option" where
  "get_scheme raw = scheme_from raw [] raw"

definition valid_optional_port :: "string \<Rightarrow> bool" where
  "valid_optional_port port = (port = [] \<or> (hd port = CHR '':'' \<and> list_all is_digit (tl port)))"

definition valid_userinfo :: "string \<Rightarrow> bool" where
  "valid_userinfo s = list_all (\<lambda>c. is_alpha c \<or> is_digit c
     \<or> c \<in> set (''-._:~!$&'' @ [CHR 0x27] @ ''()*+,;=%@'')) s"

text \<open>The first position of the zone separator \<^verbatim>\<open>%25\<close>.\<close>

fun index_zone :: "string \<Rightarrow> nat option" where
  "index_zone [] = None"
| "index_zone (c # s) = (if has_prefix (c # s) ''%25'' then Some 0 else map_option Suc (index_zone s))"

definition parse_host :: "string \<Rightarrow> string option" where
  "parse_host host =
    (if has_prefix host ''['' then
       (case last_index (CHR '']'') host of
          None \<Rightarrow> None
        | Some i \<Rightarrow>
            if \<not> valid_optional_port (drop (i + 1) host) then None
            else (case index_zone (take i host) of
               None \<Rightarrow> unescape EncodeHost host
             | Some z \<Rightarrow>
                 (case (unescape EncodeHost (take z host), unescape EncodeZone (drop z (take i host)),
                        unescape EncodeHost (drop i host)) of
                    (Some a, Some b, Some c) \<Rightarrow> Some (a @ b @ c)
                  | _ \<Rightarrow> None)))
     else (case last_index (CHR '':'') host of
             None \<Rightarrow> unescape EncodeHost host
           | Some i \<Rightarrow> if valid_optional_port (drop i host) then unescape EncodeHost host else None))"

definition parse_userinfo :: "string \<Rightarrow> (string \<times> string option) option" where
  "parse_userinfo s =
    (if \<not> valid_userinfo s then None
     else (case cut_at (CHR '':'') s of (name, pass, colon) \<Rightarrow>
       if \<not> colon then map_option (\<lambda>n. (n, None)) (unescape EncodeUserPassword s)
       else (case (unescape EncodeUserPassword name, unescape EncodeUserPassword pass) of
          (Some n, Some p) \<Rightarrow> Some (n, Some p)
        | _ \<Rightarrow> None)))"

definition parse_authority ::
  "string \<Rightarrow> ((string \<times> string option) option \<times> string) option" where
  "parse_authority auth =
    (case last_index (CHR ''@'') auth of
       None \<Rightarrow> map_option (Pair None) (parse_host auth)
     | Some i \<Rightarrow>
         (case (parse_host (drop (i + 1) auth), parse_userinfo (take i auth)) of
            (Some h, Some u) \<Rightarrow> Some (Some u, h)
          | _ \<Rightarrow> None))"

definition set_path :: "string \<Rightarrow> url \<Rightarrow> url option" where
  "set_path p u = map_option
     (\<lambda>path. u\<lparr>u_path := path, u_raw_path := (if p = escape EncodePath path then [] else p)\<rparr>)
     (unescape EncodePath p)"

definition set_fragment :: "string \<Rightarrow> url \<Rightarrow> url option" where
  "set_fragment f u = map_option
     (\<lambda>frag. u\<lparr>u_fragment := frag, u_raw_fragment := (if f = escape EncodeFragment frag then [] else f)\<rparr>)
     (unescape EncodeFragment f)"

definition has_ctl_byte :: "string \<Rightarrow> bool" where
  "has_ctl_byte s = list_ex (\<lambda>c. of_char c < (0x20::nat) \<or> of_char c = (0x7F::nat)) s"

text \<open>The query: a lone trailing question mark is remembered as \<open>ForceQuery\<close>.\<close>

definition split_query :: "string \<Rightarrow> string \<times> string \<times> bool" where
  "split_query rest =
    (if rest \<noteq> [] \<and> last rest = CHR ''?'' \<and> count_list rest (CHR ''?'') = 1
     then (butlast rest, [], True)
     else (case cut_at (CHR ''?'') rest of (r, q, _) \<Rightarrow> (r, q, False)))"

text \<open>What follows scheme and query: opaque data, or an authority and a path.\<close>

definition parse_hier :: "url \<Rightarrow> string \<Rightarrow> url option" where
  "parse_hier u rest =
    (if \<not> has_prefix rest ''/'' \<and> u_scheme u \<noteq> [] then Some (u\<lparr>u_opaque := rest\<rparr>)
     else if \<not> has_prefix rest ''/'' \<and> CHR '':'' \<in> set (fst (cut_at (CHR ''/'') rest)) then None
     else if (u_scheme u \<noteq> [] \<or> \<not> has_prefix rest ''///'') \<and> has_prefix rest ''//'' then
       (let auth = takeWhile (\<lambda>c. c \<noteq> CHR ''/'') (drop 2 rest);
            path = dropWhile (\<lambda>c. c \<noteq> CHR ''/'') (drop 2 rest) in
        case parse_authority auth of
          None \<Rightarrow> None
        | Some (user, host) \<Rightarrow> set_path path (u\<lparr>u_user := user, u_host := host\<rparr>))
     else set_path rest (u\<lparr>u_omit_host := (u_scheme u \<noteq> [] \<and> has_prefix rest ''/'')\<rparr>))"

definition parse_no_fragment :: "string \<Rightarrow> url option" where
  "parse_no_fragment raw =
    (if has_ctl_byte raw then None
     else if raw = ''*'' then Some (empty_url\<lparr>u_path := ''*''\<rparr>)
     else (case get_scheme raw of
        None \<Rightarrow> None
      | Some (scheme, rest) \<Rightarrow>
          (case split_query rest of (rest', query, force) \<Rightarrow>
             parse_hier (empty_url\<lparr>u_scheme := map lower_char scheme, u_raw_query := query,
               u_force_query := force\<rparr>) rest')))"

text \<open>\<open>url.Parse\<close>.\<close>

definition url_parse :: "string \<Rightarrow> url option" where
  "url_parse raw =
    (case cut_at (CHR ''#'') raw of (u, frag, _) \<Rightarrow>
       (case parse_no_fragment u of
          None \<Rightarrow> None
        | Some url \<Rightarrow> if frag = [] then Some url else set_fragment frag url))"

section \<open>Host and port\<close>

definition split_host_port :: "string \<Rightarrow> string \<times> string" where
  "split_host_port hostport =
    (let (host, port) =
       (case last_index (CHR '':'') hostport of
          None \<Rightarrow> (hostport, [])
        | Some i \<Rightarrow> if valid_optional_port (drop i hostport)
            then (take i hostport, drop (i + 1) hostport) else (hostport, [])) in
     (if host \<noteq> [] \<and> hd host = CHR ''['' \<and> last host = CHR '']''
      then butlast (tl host) else host, port))"

definition url_hostname :: "url \<Rightarrow> string" where
  "url_hostname u = fst (split_host_port (u_host u))"

definition url_port :: "url \<Rightarrow> string" where
  "url_port u = snd (split_host_port (u_host u))"

section \<open>Printing\<close>

definition escaped_path :: "url \<Rightarrow> string" where
  "escaped_path u =
    (if u_raw_path u \<noteq> [] \<and> valid_encoded EncodePath (u_raw_path u)
        \<and> unescape EncodePath (u_raw_path u) = Some (u_path u) then u_raw_path u
     else if u_path u = ''*'' then ''*''
     else escape EncodePath (u_path u))"

definition escaped_fragment :: "url \<Rightarrow> string" where
  "escaped_fragment u =
    (if u_raw_fragment u \<noteq> [] \<and> valid_encoded EncodeFragment (u_raw_fragment u)
        \<and> unescape EncodeFragment (u_raw_fragment u) = Some (u_fragment u) then u_raw_fragment u
     else escape EncodeFragment (u_fragment u))"

definition userinfo_string :: "string \<times> string option \<Rightarrow> string" where
  "userinfo_string ui = (case ui of
     (name, None) \<Rightarrow> escape EncodeUserPassword name
   | (name, Some pass) \<Rightarrow> escape EncodeUserPassword name @ '':'' @ escape EncodeUserPassword pass)"

definition url_authority :: "url \<Rightarrow> string" where
  "url_authority u =
    (if u_scheme u = [] \<and> u_host u = [] \<and> u_user u = None then []
     else if u_omit_host u \<and> u_host u = [] \<and> u_user u = None then []
     else (if u_host u \<noteq> [] \<or> u_path u \<noteq> [] \<or> u_user u \<noteq> None then ''//'' else [])
       @ (case u_user u of None \<Rightarrow> [] | Some ui \<Rightarrow> userinfo_string ui @ ''@'')
       @ escape EncodeHost (u_host u))"

definition url_string :: "url \<Rightarrow> string" where
  "url_string u =
    (let scheme = (if u_scheme u \<noteq> [] then u_scheme u @ '':'' else []);
         path = escaped_path u;
         pre = scheme @ url_authority u
           @ (if path \<noteq> [] \<and> hd path \<noteq> CHR ''/'' \<and> u_host u \<noteq> [] then ''/'' else []);
         dot = (if pre = [] \<and> CHR '':'' \<in> set (fst (cut_at (CHR ''/'') path)) then ''./'' else []) in
     (if u_opaque u \<noteq> [] then scheme @ u_opaque u else pre @ dot @ path)
       @ (if u_force_query u \<or> u_raw_query u \<noteq> [] then ''?'' @ u_raw_query u else [])
       @ (if u_fragment u \<noteq> [] then ''#'' @ escaped_fragment u else []))"

section \<open>Resolving a reference\<close>

text \<open>
  \<open>resolvePath\<close> removes dot segments.  The state of its loop is the text written after
  the leading slash, and whether the next element is the first.
\<close>

fun resolve_elems :: "string list \<Rightarrow> string \<Rightarrow> bool \<Rightarrow> string" where
  "resolve_elems [] dst first = dst"
| "resolve_elems (e # es) dst first =
    (if e = ''.'' then resolve_elems es dst False
     else if e = ''..'' then
       (case last_index (CHR ''/'') dst of
          None \<Rightarrow> resolve_elems es [] True
        | Some i \<Rightarrow> resolve_elems es (take i dst) first)
     else resolve_elems es (dst @ (if first then [] else ''/'') @ e) False)"

definition resolve_path :: "string \<Rightarrow> string \<Rightarrow> string" where
  "resolve_path base ref =
    (let full = (if ref = [] then base
                 else if hd ref \<noteq> CHR ''/'' then
                   (case last_index (CHR ''/'') base of None \<Rightarrow> ref | Some i \<Rightarrow> take (i + 1) base @ ref)
                 else ref) in
     if full = [] then []
     else
       (let elems = split_on (CHR ''/'') full;
            r = ''/'' @ resolve_elems elems [] True
                @ (if last elems = ''.'' \<or> last elems = ''..'' then ''/'' else []) in
        if 1 < length r \<and> r ! 1 = CHR ''/'' then tl r else r))"

text \<open>A failed \<open>setPath\<close> leaves the URL as it was; \<open>ResolveReference\<close> ignores its error.\<close>

definition put_path :: "string \<Rightarrow> url \<Rightarrow> url" where
  "put_path p u = (case set_path p u of None \<Rightarrow> u | Some u' \<Rightarrow> u')"

definition resolve_reference :: "url \<Rightarrow> url \<Rightarrow> url" where
  "resolve_reference base ref =
    (let url = (if u_scheme ref = [] then ref\<lparr>u_scheme := u_scheme base\<rparr> else ref) in
     if u_scheme ref \<noteq> [] \<or> u_host ref \<noteq> [] \<or> u_user ref \<noteq> None
     then put_path (resolve_path (escaped_path ref) []) url
     else if u_opaque ref \<noteq> [] then url\<lparr>u_user := None, u_host := [], u_path := []\<rparr>
     else
       (let same_doc = (u_path ref = [] \<and> \<not> u_force_query ref \<and> u_raw_query ref = []);
            url1 = (if same_doc then url\<lparr>u_raw_query := u_raw_query base\<rparr> else url);
            url2 = (if same_doc \<and> u_fragment ref = []
              then url1\<lparr>u_fragment := u_fragment base, u_raw_fragment := u_raw_fragment base\<rparr>
              else url1) in
        if u_path ref = [] \<and> u_opaque base \<noteq> []
        then url2\<lparr>u_opaque := u_opaque base, u_user := None, u_host := [], u_path := []\<rparr>
        else put_path (resolve_path (escaped_path base) (escaped_path ref))
               (url2\<lparr>u_host := u_host base, u_user := u_user base\<rparr>)))"

section \<open>What a parsed URL says of its text\<close>

lemma cut_fst_prefix: "\<exists>rest. s = fst (cut_at c s) @ rest"
  by (simp add: cut_at_def) (metis takeWhile_dropWhile_id)

lemma scheme_from_text:
  assumes "scheme_from raw acc s = Some (sch, rest)" and "sch \<noteq> []" and "raw = acc @ s"
  shows "raw = sch @ '':'' @ rest"
  using assms
  by (induction raw acc s arbitrary: sch rest rule: scheme_from.induct) (auto split: if_splits)

lemma get_scheme_text:
  "get_scheme raw = Some (sch, rest) \<Longrightarrow> sch \<noteq> [] \<Longrightarrow> raw = sch @ '':'' @ rest"
  using scheme_from_text [of raw "[]" raw sch rest] by (simp add: get_scheme_def)

lemma set_path_frame:
  assumes "set_path p u = Some v"
  shows "u_scheme v = u_scheme u" "u_host v = u_host u" "u_user v = u_user u"
    "u_opaque v = u_opaque u"
  using assms by (auto simp: set_path_def)

lemma parse_hier_scheme: "parse_hier u rest = Some v \<Longrightarrow> u_scheme v = u_scheme u"
  by (auto simp: parse_hier_def Let_def dest: set_path_frame split: if_splits option.splits prod.splits)

text \<open>A host comes with the two slashes that introduce an authority.\<close>

lemma parse_hier_host:
  assumes "parse_hier u rest = Some v" and "u_host v \<noteq> []" and "u_host u = []"
  shows "has_prefix rest ''//''"
  using assms
  by (auto simp: parse_hier_def Let_def dest!: set_path_frame(2) split: if_splits option.splits prod.splits)

lemma split_query_prefix: "split_query rest = (r, q, f) \<Longrightarrow> \<exists>t. rest = r @ t"
  using cut_fst_prefix [of rest "CHR ''?''"]
  by (auto simp: split_query_def split: if_splits prod.splits) (metis append_butlast_last_id)

lemma parse_no_fragment_cases:
  assumes "parse_no_fragment t = Some v" and "u_scheme v \<noteq> []"
  obtains sch rest r q f u0 where "t = sch @ '':'' @ rest" "map lower_char sch = u_scheme v"
    "split_query rest = (r, q, f)" "parse_hier u0 r = Some v" "u_host u0 = []"
proof -
  have "u_scheme (empty_url\<lparr>u_path := ''*''\<rparr>) = []" by (simp add: empty_url_def)
  with assms obtain sch rest r q f where g: "get_scheme t = Some (sch, rest)"
    and s: "split_query rest = (r, q, f)"
    and p: "parse_hier (empty_url\<lparr>u_scheme := map lower_char sch, u_raw_query := q, u_force_query := f\<rparr>) r
      = Some v"
    by (auto simp: parse_no_fragment_def split: if_splits option.splits prod.splits)
  from parse_hier_scheme [OF p] have sch: "map lower_char sch = u_scheme v" by simp
  with assms(2) have "sch \<noteq> []" by auto
  with g have "t = sch @ '':'' @ rest" by (rule get_scheme_text)
  from this sch s p show ?thesis by (rule that) (simp add: empty_url_def)
qed

text \<open>A scheme is read off the beginning of the text, and a host follows \<^verbatim>\<open>://\<close>.\<close>

lemma url_parse_authority:
  assumes "url_parse raw = Some u" and "u_scheme u \<noteq> []" and "u_host u \<noteq> []"
  shows "\<exists>sch rest. raw = sch @ ''://'' @ rest \<and> map lower_char sch = u_scheme u"
proof -
  let ?t = "fst (cut_at (CHR ''#'') raw)"
  from assms(1) obtain v where v: "parse_no_fragment ?t = Some v"
    and uv: "u_scheme u = u_scheme v" "u_host u = u_host v"
    by (auto simp: url_parse_def set_fragment_def split: prod.splits option.splits if_splits)
  from v uv assms(2) obtain sch rest r q f u0 where t: "?t = sch @ '':'' @ rest"
    and sch: "map lower_char sch = u_scheme v" and r: "split_query rest = (r, q, f)"
    and p: "parse_hier u0 r = Some v" "u_host u0 = []"
    by (auto elim: parse_no_fragment_cases)
  from parse_hier_host [OF p(1) _ p(2)] uv assms(3) have "has_prefix r ''//''" by simp
  then have r2: "r = ''//'' @ drop 2 r"
    using append_take_drop_id [of "length ''//''" r] unfolding has_prefix_def by (simp add: numeral_2_eq_2)
  from split_query_prefix [OF r] obtain z where "rest = r @ z" ..
  moreover from cut_fst_prefix [of raw "CHR ''#''"] obtain y where "raw = ?t @ y" ..
  ultimately have "raw = sch @ '':'' @ r @ z @ y" using t by simp
  also have "\<dots> = sch @ ''://'' @ drop 2 r @ z @ y" by (subst r2) simp
  finally show ?thesis using sch uv by auto
qed

end
