(* ===== verification/Go_Http.thy ===== *)
theory Go_Http
  imports Go_Url
begin

text \<open>
  What the handlers use of \<open>net/http\<close> and \<open>encoding/json\<close>: header lookup, the request
  and response of a handler, \<open>http.Error\<close>, and the decoding of a JSON object into a struct
  of string fields with unknown fields refused.  The scanner that turns bytes into a JSON
  value is a parameter of the handlers; values are the datatype below.
\<close>

section \<open>Headers\<close>

text \<open>\<open>textproto.CanonicalMIMEHeaderKey\<close>: a key with a byte that no token allows is kept.\<close>

definition token_char :: "char \<Rightarrow> bool" where
  "token_char c \<longleftrightarrow> is_alpha c \<or> is_digit c \<or> c \<in> set (''!#$%&'' @ [CHR 0x27] @ ''*+-.^_|~'' @ [CHR 0x60])"

fun canonical_from :: "bool \<Rightarrow> string \<Rightarrow> string" where
  "canonical_from up [] = []"
| "canonical_from up (c # s) =
    (if up then upper_char c else lower_char c) # canonical_from (c = CHR ''-'') s"

definition canonical_key :: "string \<Rightarrow> string" where
  "canonical_key k = (if list_all token_char k then canonical_from True k else k)"

type_synonym header = "string \<rightharpoonup> string list"

definition header_get :: "header \<Rightarrow> string \<Rightarrow> string" where
  "header_get h k = (case h (canonical_key k) of Some (v # vs) \<Rightarrow> v | _ \<Rightarrow> [])"

definition header_set :: "header \<Rightarrow> string \<Rightarrow> string \<Rightarrow> header" where
  "header_set h k v = h(canonical_key k \<mapsto> [v])"

definition header_add :: "header \<Rightarrow> string \<Rightarrow> string \<Rightarrow> header" where
  "header_add h k v = h(canonical_key k \<mapsto> (case h (canonical_key k) of None \<Rightarrow> [v] | Some vs \<Rightarrow> vs @ [v]))"

definition header_del :: "header \<Rightarrow> string \<Rightarrow> header" where
  "header_del h k = h(canonical_key k := None)"

section \<open>Requests and responses\<close>

record http_request =
  rq_method :: string
  rq_path :: string
  rq_host :: string
  rq_header :: header
  rq_body :: string

datatype json =
    JNull
  | JBool bool
  | JNum int
  | JStr string
  | JArr "json list"
  | JObj "(string \<times> json) list"

datatype http_body = Plain string | Json json

record http_response =
  rs_code :: nat
  rs_content_type :: string
  rs_body :: http_body

text \<open>\<open>http.Error\<close> replaces the content type and ends the body with a newline.\<close>

definition http_error :: "string \<Rightarrow> nat \<Rightarrow> http_response" where
  "http_error msg code = \<lparr>rs_code = code, rs_content_type = ''text/plain; charset=utf-8'',
     rs_body = Plain (msg @ [CHR 0x0A])\<rparr>"

definition json_reply :: "nat \<Rightarrow> json \<Rightarrow> http_response" where
  "json_reply code v = \<lparr>rs_code = code, rs_content_type = ''application/json'', rs_body = Json v\<rparr>"

definition json_error :: "nat \<Rightarrow> string \<Rightarrow> http_response" where
  "json_error code msg = json_reply code (JObj [(''error'', JStr msg)])"

text \<open>The guard of every mutating handler: a request that names an origin names this host.\<close>

definition same_origin :: "http_request \<Rightarrow> bool" where
  "same_origin r =
    (let origin = header_get (rq_header r) ''Origin'' in
     origin = [] \<or> (case url_parse origin of None \<Rightarrow> False | Some u \<Rightarrow> u_host u = rq_host r))"

section \<open>Decoding an object into string fields\<close>

text \<open>
  The decoder matches a key exactly or, failing that, up to case; a null leaves the field
  alone; a value of another type is an error that is reported when the object has been
  read, and so is an unknown key if the decoder is \<open>strict\<close> (\<open>DisallowUnknownFields\<close>).
  The state is the fields set so far and whether an error occurred.
\<close>

definition field_of :: "string list \<Rightarrow> string \<Rightarrow> string option" where
  "field_of names key =
    (if key \<in> set names then Some key
     else find (\<lambda>n. map lower_char n = map lower_char key) names)"

fun decode_members ::
  "bool \<Rightarrow> string list \<Rightarrow> (string \<times> json) list \<Rightarrow> (string \<rightharpoonup> string) \<times> bool \<Rightarrow> (string \<rightharpoonup> string) \<times> bool" where
  "decode_members strict names [] st = st"
| "decode_members strict names ((key, v) # ms) (m, bad) =
    decode_members strict names ms
      (case field_of names key of
         None \<Rightarrow> (m, bad \<or> strict)
       | Some n \<Rightarrow> (case v of JStr s \<Rightarrow> (m(n \<mapsto> s), bad) | JNull \<Rightarrow> (m, bad) | _ \<Rightarrow> (m, True)))"

definition decode_object :: "bool \<Rightarrow> string list \<Rightarrow> json \<Rightarrow> (string \<rightharpoonup> string) option" where
  "decode_object strict names v = (case v of
     JObj ms \<Rightarrow> (case decode_members strict names ms (Map.empty, False) of (m, bad) \<Rightarrow> if bad then None else Some m)
   | JNull \<Rightarrow> Some Map.empty
   | _ \<Rightarrow> None)"

definition field :: "(string \<rightharpoonup> string) \<Rightarrow> string \<Rightarrow> string" where
  "field m n = (case m n of None \<Rightarrow> [] | Some s \<Rightarrow> s)"

end
