(* ===== verification/Public_Web.thy ===== *)
theory Public_Web
  imports Go_Url
begin

text \<open>
  Which web destinations a phone may reach: \<open>publicWebURL\<close> and \<open>publicIP\<close> of
  \<^verbatim>\<open>browse.go\<close>.  The address tests of \<open>net/netip\<close> are modelled on words, bit by bit as
  the package computes them; the lemmas turn them into address ranges.
\<close>

unbundle bit_operations_syntax

section \<open>URLs\<close>

definition err_long :: string where
  "err_long = ''URL is too long''"

definition err_url :: string where
  "err_url = ''enter a public http:// or https:// URL without credentials''"

definition err_port :: string where
  "err_port = ''only public HTTP/HTTPS ports are supported''"

definition public_web_url :: "string \<Rightarrow> string + url" where
  "public_web_url raw =
    (if 2048 < length raw then Inl err_long
     else (case url_parse raw of
        None \<Rightarrow> Inl err_url
      | Some u \<Rightarrow>
          if url_hostname u = [] \<or> u_user u \<noteq> None \<or> (u_scheme u \<noteq> ''http'' \<and> u_scheme u \<noteq> ''https'')
          then Inl err_url
          else if url_port u \<noteq> [] \<and> url_port u \<noteq> ''80'' \<and> url_port u \<noteq> ''443'' then Inl err_port
          else Inr u))"

section \<open>Addresses\<close>

text \<open>\<open>netip.Addr\<close>: the zero value, an IPv4 address, an IPv6 address with its zone.\<close>

datatype ip_addr = NoAddr | IPv4 u32 | IPv6 "128 word" string

definition ipv4 :: "nat \<Rightarrow> nat \<Rightarrow> nat \<Rightarrow> nat \<Rightarrow> u32" where
  "ipv4 a b c d = word_of_nat (a * 2 ^ 24 + b * 2 ^ 16 + c * 2 ^ 8 + d)"

text \<open>Byte \<open>i\<close> of an IPv4 address, from the left.\<close>

definition v4 :: "u32 \<Rightarrow> nat \<Rightarrow> u32" where
  "v4 a i = drop_bit (24 - 8 * i) a AND 0xFF"

fun addr_unmap :: "ip_addr \<Rightarrow> ip_addr" where
  "addr_unmap (IPv6 a z) = (if drop_bit 32 a = 0xFFFF then IPv4 (ucast a) else IPv6 a z)"
| "addr_unmap ip = ip"

fun is_loopback :: "ip_addr \<Rightarrow> bool" where
  "is_loopback NoAddr = False"
| "is_loopback (IPv4 a) = (v4 a 0 = 127)"
| "is_loopback (IPv6 a z) = (a = 1)"

fun is_multicast :: "ip_addr \<Rightarrow> bool" where
  "is_multicast NoAddr = False"
| "is_multicast (IPv4 a) = (v4 a 0 AND 0xF0 = 0xE0)"
| "is_multicast (IPv6 a z) = (drop_bit 120 a = 0xFF)"

fun is_link_local_unicast :: "ip_addr \<Rightarrow> bool" where
  "is_link_local_unicast NoAddr = False"
| "is_link_local_unicast (IPv4 a) = (v4 a 0 = 169 \<and> v4 a 1 = 254)"
| "is_link_local_unicast (IPv6 a z) = (drop_bit 112 a AND 0xFFC0 = 0xFE80)"

fun is_private :: "ip_addr \<Rightarrow> bool" where
  "is_private NoAddr = False"
| "is_private (IPv4 a) = (v4 a 0 = 10 \<or> (v4 a 0 = 172 \<and> v4 a 1 AND 0xF0 = 16)
     \<or> (v4 a 0 = 192 \<and> v4 a 1 = 168))"
| "is_private (IPv6 a z) = (drop_bit 120 a AND 0xFE = 0xFC)"

definition is_global_unicast :: "ip_addr \<Rightarrow> bool" where
  "is_global_unicast ip =
    (if ip = NoAddr then False
     else if ip = IPv4 0 \<or> ip = IPv4 (ipv4 255 255 255 255) then False
     else ip \<noteq> IPv6 0 [] \<and> \<not> is_loopback ip \<and> \<not> is_multicast ip \<and> \<not> is_link_local_unicast ip)"

text \<open>\<open>Prefix.Contains\<close> of an IPv4 prefix; an address of the other family is outside.\<close>

fun prefix_contains :: "u32 \<times> nat \<Rightarrow> ip_addr \<Rightarrow> bool" where
  "prefix_contains (p, bits) (IPv4 a) = (drop_bit (32 - bits) (a XOR p) = 0)"
| "prefix_contains (p, bits) _ = False"

definition blocked_prefixes :: "(u32 \<times> nat) list" where
  "blocked_prefixes =
    [(ipv4 0 0 0 0, 8), (ipv4 100 64 0 0, 10), (ipv4 192 0 0 0, 24), (ipv4 198 18 0 0, 15),
     (ipv4 240 0 0 0, 4)]"

definition public_ip :: "ip_addr \<Rightarrow> bool" where
  "public_ip addr0 =
    (let addr = addr_unmap addr0 in
     if \<not> is_global_unicast addr \<or> is_private addr \<or> is_loopback addr \<or> is_link_local_unicast addr
     then False
     else list_all (\<lambda>prefix. \<not> prefix_contains prefix addr) blocked_prefixes)"

section \<open>Address ranges\<close>

text \<open>The IPv4 ranges that are refused, as first and last address.\<close>

definition refused_ranges :: "(u32 \<times> u32) list" where
  "refused_ranges =
    [(ipv4 0 0 0 0, ipv4 0 255 255 255), (ipv4 10 0 0 0, ipv4 10 255 255 255),
     (ipv4 100 64 0 0, ipv4 100 127 255 255), (ipv4 127 0 0 0, ipv4 127 255 255 255),
     (ipv4 169 254 0 0, ipv4 169 254 255 255), (ipv4 172 16 0 0, ipv4 172 31 255 255),
     (ipv4 192 0 0 0, ipv4 192 0 0 255), (ipv4 192 168 0 0, ipv4 192 168 255 255),
     (ipv4 198 18 0 0, ipv4 198 19 255 255), (ipv4 224 0 0 0, ipv4 255 255 255 255)]"

lemma unat_drop_bit_u32: "unat (drop_bit n (a :: u32)) = unat a div 2 ^ n"
proof -
  have "unat (drop_bit n a) = drop_bit n (unat a)" by (rule unat_drop_bit_eq)
  then show ?thesis by (simp only: drop_bit_eq_div)
qed

lemma unat_and_ff: "unat ((x :: u32) AND 0xFF) = unat x mod 256"
proof -
  have "(0xFF :: u32) = mask 8" by (simp add: mask_eq_exp_minus_1)
  then have "x AND 0xFF = take_bit 8 x" by (simp only: take_bit_eq_mask)
  then have "unat (x AND 0xFF) = take_bit 8 (unat x)" by (simp only: unsigned_take_bit_eq)
  then show ?thesis by (simp add: take_bit_eq_mod)
qed

lemma unat_and_f0: "unat ((x :: u32) AND 0xF0) = 16 * (unat x div 16 mod 16)"
proof -
  have "(0xF0 :: u32) = push_bit 4 (mask 4)"
    by (simp add: mask_eq_exp_minus_1 push_bit_eq_mult)
  moreover have "x AND push_bit 4 (mask 4) = push_bit 4 (take_bit 4 (drop_bit 4 x))"
    by (rule bit_word_eqI) (auto simp: bit_simps)
  ultimately have "unat (x AND 0xF0) = take_bit 32 (push_bit 4 (take_bit 4 (drop_bit 4 (unat x))))"
    by (simp only: unsigned_push_bit_eq unsigned_take_bit_eq unat_drop_bit_eq) simp
  moreover have "16 * (unat x div 16 mod 16) < 2 ^ 32"
    by (rule le_less_trans [of _ "16 * 16"]) simp_all
  ultimately show ?thesis
    by (simp only: push_bit_eq_mult take_bit_eq_mod drop_bit_eq_div) (simp add: mult.commute)
qed

lemma unat_v4: "i \<le> 3 \<Longrightarrow> unat (v4 a i) = unat a div 2 ^ (24 - 8 * i) mod 256"
  by (simp only: v4_def unat_and_ff unat_drop_bit_u32)

lemma word_eq_unat: "(a :: u32) = b \<longleftrightarrow> unat a = unat b"
  by (rule word_unat_eq_iff)

lemma word_xor_eq_0: "(a :: u32) XOR b = 0 \<longleftrightarrow> a = b"
  by (simp add: bit_eq_iff bit_xor_iff)

lemma prefix_contains_div:
  "prefix_contains (p, bits) (IPv4 a) \<longleftrightarrow> unat a div 2 ^ (32 - bits) = unat p div 2 ^ (32 - bits)"
proof -
  have "drop_bit (32 - bits) (a XOR p) = 0 \<longleftrightarrow> drop_bit (32 - bits) a = drop_bit (32 - bits) p"
    by (simp add: drop_bit_xor word_xor_eq_0)
  then show ?thesis by (simp only: prefix_contains.simps word_eq_unat unat_drop_bit_u32)
qed

lemma unat_ipv4:
  assumes "a < 256" "b < 256" "c < 256" "d < 256"
  shows "unat (ipv4 a b c d) = a * 2 ^ 24 + b * 2 ^ 16 + c * 2 ^ 8 + d"
proof -
  have "a * 2 ^ 24 + b * 2 ^ 16 + c * 2 ^ 8 + d < 2 ^ 32" using assms by simp
  then show ?thesis unfolding ipv4_def by (simp only: unat_of_nat mod_less) simp
qed


lemma unat_less_32: "unat (a :: u32) < 2 ^ 32"
proof -
  have "unat a < 2 ^ LENGTH(32)" by (rule unsigned_less)
  then show ?thesis by simp
qed

lemma nibble_of_byte: "(x :: nat) mod 256 div 16 mod 16 = x div 16 mod 16"
  using mod_mult2_eq [of x 16 16] by simp

text \<open>Every test of \<open>publicIP\<close> as a division of the address.\<close>

lemma v4_0_eq: "v4 a 0 = k \<longleftrightarrow> unat a div 2 ^ 24 = unat k"
proof -
  have "unat a div 2 ^ 24 < 256" using unat_less_32 [of a] by (simp add: less_mult_imp_div_less)
  then show ?thesis by (simp add: word_eq_unat unat_v4)
qed

lemma v4_1_eq: "v4 a 1 = k \<longleftrightarrow> unat a div 2 ^ 16 mod 256 = unat k"
  by (simp add: word_eq_unat unat_v4)

lemma v4_0_f0: "v4 a 0 AND 0xF0 = k \<longleftrightarrow> 16 * (unat a div 2 ^ 28) = unat k"
proof -
  have "unat a div 2 ^ 28 < 16" using unat_less_32 [of a] by (simp add: less_mult_imp_div_less)
  moreover have "unat (v4 a 0 AND 0xF0) = 16 * (unat a div 2 ^ 24 mod 256 div 16 mod 16)"
    by (simp only: unat_and_f0 unat_v4) simp
  moreover have "unat a div 2 ^ 24 mod 256 div 16 mod 16 = unat a div 2 ^ 28 mod 16"
  proof -
    have "unat a div 2 ^ 24 div 16 = unat a div 2 ^ 28" by (simp flip: div_mult2_eq)
    then show ?thesis by (simp only: nibble_of_byte)
  qed
  ultimately show ?thesis by (simp add: word_eq_unat)
qed

lemma v4_1_f0: "v4 a 1 AND 0xF0 = k \<longleftrightarrow> 16 * (unat a div 2 ^ 20 mod 16) = unat k"
proof -
  have "unat (v4 a 1 AND 0xF0) = 16 * (unat a div 2 ^ 16 mod 256 div 16 mod 16)"
    by (simp only: unat_and_f0 unat_v4) simp
  moreover have "unat a div 2 ^ 16 mod 256 div 16 mod 16 = unat a div 2 ^ 20 mod 16"
  proof -
    have "unat a div 2 ^ 16 div 16 = unat a div 2 ^ 20" by (simp flip: div_mult2_eq)
    then show ?thesis by (simp only: nibble_of_byte)
  qed
  ultimately show ?thesis by (simp add: word_eq_unat)
qed

text \<open>A quotient is a range.\<close>

lemma div_range: "0 < d \<Longrightarrow> (x :: nat) div d = k \<longleftrightarrow> k * d \<le> x \<and> x < Suc k * d"
  by (metis div_nat_eqI div_times_less_eq_dividend dividend_less_times_div mult.commute mult_Suc_right add.commute)

lemma two_bytes: "(x :: nat) div 2 ^ 24 = i \<and> x div 2 ^ 16 mod 256 = j \<longleftrightarrow> x div 2 ^ 16 = i * 256 + j \<and> j < 256"
proof -
  have "x div 2 ^ 24 = x div 2 ^ 16 div 256" by (simp flip: div_mult2_eq)
  moreover have "y div 256 = i \<and> y mod 256 = j \<longleftrightarrow> y = i * 256 + j \<and> j < 256" for y :: nat by auto
  ultimately show ?thesis by simp
qed

lemma byte_nibble: "(x :: nat) div 2 ^ 24 = i \<and> x div 2 ^ 20 mod 16 = j \<longleftrightarrow> x div 2 ^ 20 = i * 16 + j \<and> j < 16"
proof -
  have "x div 2 ^ 24 = x div 2 ^ 20 div 16" by (simp flip: div_mult2_eq)
  moreover have "y div 16 = i \<and> y mod 16 = j \<longleftrightarrow> y = i * 16 + j \<and> j < 16" for y :: nat by auto
  ultimately show ?thesis by simp
qed

lemma loopback_range: "is_loopback (IPv4 a) \<longleftrightarrow> 2130706432 \<le> unat a \<and> unat a < 2147483648"
  by (simp add: v4_0_eq div_range)

lemma multicast_range: "is_multicast (IPv4 a) \<longleftrightarrow> 3758096384 \<le> unat a \<and> unat a < 4026531840"
proof -
  have "is_multicast (IPv4 a) \<longleftrightarrow> unat a div 2 ^ 28 = 14" by (simp add: v4_0_f0)
  then show ?thesis by (simp add: div_range)
qed

lemma link_local_range: "is_link_local_unicast (IPv4 a) \<longleftrightarrow> 2851995648 \<le> unat a \<and> unat a < 2852061184"
proof -
  have "is_link_local_unicast (IPv4 a) \<longleftrightarrow> unat a div 2 ^ 16 = 169 * 256 + 254"
    using two_bytes [of "unat a" 169 254] by (simp add: v4_0_eq v4_1_eq [simplified])
  then show ?thesis by (simp add: div_range)
qed

lemma private_range: "is_private (IPv4 a) \<longleftrightarrow>
    (167772160 \<le> unat a \<and> unat a < 184549376) \<or> (2886729728 \<le> unat a \<and> unat a < 2887778304)
    \<or> (3232235520 \<le> unat a \<and> unat a < 3232301056)"
proof -
  have "v4 a 0 = 172 \<and> v4 a 1 AND 0xF0 = 16 \<longleftrightarrow> unat a div 2 ^ 20 = 172 * 16 + 1"
    using byte_nibble [of "unat a" 172 1] by (simp add: v4_0_eq v4_1_f0 [simplified])
  moreover have "v4 a 0 = 192 \<and> v4 a 1 = 168 \<longleftrightarrow> unat a div 2 ^ 16 = 192 * 256 + 168"
    using two_bytes [of "unat a" 192 168] by (simp add: v4_0_eq v4_1_eq [simplified])
  moreover have "v4 a 0 = 10 \<longleftrightarrow> unat a div 2 ^ 24 = 10" by (simp add: v4_0_eq)
  ultimately have "is_private (IPv4 a) \<longleftrightarrow> unat a div 2 ^ 24 = 10 \<or>
      unat a div 2 ^ 20 = 2753 \<or> unat a div 2 ^ 16 = 49320" by simp
  then show ?thesis by (simp add: div_range)
qed

lemma blocked_range: "list_all (\<lambda>p. \<not> prefix_contains p (IPv4 a)) blocked_prefixes \<longleftrightarrow>
    \<not> unat a < 16777216 \<and> \<not> (1681915904 \<le> unat a \<and> unat a < 1686110208)
    \<and> \<not> (3221225472 \<le> unat a \<and> unat a < 3221225728) \<and> \<not> (3323068416 \<le> unat a \<and> unat a < 3323199488)
    \<and> \<not> (4026531840 \<le> unat a \<and> unat a < 4294967296)"
  by (simp add: blocked_prefixes_def prefix_contains_div unat_ipv4 div_range del: prefix_contains.simps)

lemma broadcast_word: "unat (ipv4 255 255 255 255) = 4294967295"
  by (simp add: unat_ipv4)

lemma public_ipv4_tests:
  "public_ip (IPv4 a) \<longleftrightarrow> is_global_unicast (IPv4 a) \<and> \<not> is_private (IPv4 a)
      \<and> \<not> is_loopback (IPv4 a) \<and> \<not> is_link_local_unicast (IPv4 a)
      \<and> list_all (\<lambda>p. \<not> prefix_contains p (IPv4 a)) blocked_prefixes"
  unfolding public_ip_def addr_unmap.simps Let_def by (simp only: if_bool_eq_conj) blast

lemma global_unicast_range:
  "is_global_unicast (IPv4 a) \<longleftrightarrow> unat a \<noteq> 0 \<and> unat a \<noteq> 4294967295 \<and> \<not> is_loopback (IPv4 a)
      \<and> \<not> is_multicast (IPv4 a) \<and> \<not> is_link_local_unicast (IPv4 a)"
proof -
  have "a = ipv4 255 255 255 255 \<longleftrightarrow> unat a = 4294967295" by (metis broadcast_word word_eq_unat)
  moreover have "a = 0 \<longleftrightarrow> unat a = 0" by (simp add: word_eq_unat)
  ultimately show ?thesis
    unfolding is_global_unicast_def by simp
qed

text \<open>Multicast, the reserved block and the broadcast address make one range.\<close>

lemma top_ranges:
  assumes "(x :: nat) < 4294967296"
  shows "x \<noteq> 0 \<and> x \<noteq> 4294967295 \<and> \<not> (3758096384 \<le> x \<and> x < 4026531840) \<and> \<not> x < 16777216
      \<and> \<not> (4026531840 \<le> x \<and> x < 4294967296) \<longleftrightarrow> \<not> x < 16777216 \<and> x < 3758096384"
  using assms by linarith

lemma refused_ranges_nat:
  "list_all (\<lambda>(lo, hi). x < unat lo \<or> unat hi < x) refused_ranges \<longleftrightarrow>
    \<not> x < 16777216
    \<and> \<not> ((167772160 \<le> x \<and> x < 184549376) \<or> (2886729728 \<le> x \<and> x < 2887778304)
         \<or> (3232235520 \<le> x \<and> x < 3232301056))
    \<and> \<not> (2130706432 \<le> x \<and> x < 2147483648) \<and> \<not> (2851995648 \<le> x \<and> x < 2852061184)
    \<and> \<not> (1681915904 \<le> x \<and> x < 1686110208) \<and> \<not> (3221225472 \<le> x \<and> x < 3221225728)
    \<and> \<not> (3323068416 \<le> x \<and> x < 3323199488) \<and> (x < 3758096384 \<or> 4294967295 < x)"
proof -
  have h: "184549375 < x \<longleftrightarrow> 184549376 \<le> x" "2887778303 < x \<longleftrightarrow> 2887778304 \<le> x"
    "3232301055 < x \<longleftrightarrow> 3232301056 \<le> x" "2147483647 < x \<longleftrightarrow> 2147483648 \<le> x"
    "2852061183 < x \<longleftrightarrow> 2852061184 \<le> x" "1686110207 < x \<longleftrightarrow> 1686110208 \<le> x"
    "3221225727 < x \<longleftrightarrow> 3221225728 \<le> x" "3323199487 < x \<longleftrightarrow> 3323199488 \<le> x"
    "16777215 < x \<longleftrightarrow> 16777216 \<le> x" by linarith+
  show ?thesis
    by (simp add: refused_ranges_def unat_ipv4 h not_less) (simp only: imp_conv_disj not_le, blast)
qed

lemma merge_tests:
  assumes "(n0 \<and> n1 \<and> m \<and> b \<and> b4) = (b \<and> t)"
  shows "((n0 \<and> n1 \<and> l \<and> m \<and> k) \<and> p \<and> l \<and> k \<and> b \<and> b1 \<and> b2 \<and> b3 \<and> b4)
    = (b \<and> p \<and> l \<and> k \<and> b1 \<and> b2 \<and> b3 \<and> t)"
  using assms by blast

lemma public_ipv4_ranges:
  "public_ip (IPv4 a) \<longleftrightarrow> list_all (\<lambda>(lo, hi). a < lo \<or> hi < a) refused_ranges"
proof -
  let ?x = "unat a"
  have x: "?x < 4294967296" using unat_less_32 [of a] by simp
  then have top: "?x < 3758096384 \<or> 4294967295 < ?x \<longleftrightarrow> ?x < 3758096384" by linarith
  have "public_ip (IPv4 a) \<longleftrightarrow> list_all (\<lambda>(lo, hi). ?x < unat lo \<or> unat hi < ?x) refused_ranges"
    unfolding public_ipv4_tests global_unicast_range refused_ranges_nat top loopback_range
      multicast_range link_local_range private_range blocked_range
    by (rule merge_tests [OF top_ranges [OF x]])
  then show ?thesis by (simp only: word_less_nat_alt)
qed

section \<open>The contract of an admission test\<close>

text \<open>
  The readers, the redirect check and the request handlers only rely on these laws of the
  URL test: what it lets through is an absolute web URL without credentials on a web port.
\<close>

locale web_guard =
  fixes admit :: "string \<Rightarrow> 'e + url"
  assumes admit_parsed: "admit raw = Inr u \<Longrightarrow> url_parse raw = Some u"
    and admit_scheme: "admit raw = Inr u \<Longrightarrow> u_scheme u = ''http'' \<or> u_scheme u = ''https''"
    and admit_host: "admit raw = Inr u \<Longrightarrow> url_hostname u \<noteq> []"
    and admit_user: "admit raw = Inr u \<Longrightarrow> u_user u = None"
    and admit_port: "admit raw = Inr u \<Longrightarrow> url_port u = [] \<or> url_port u = ''80'' \<or> url_port u = ''443''"
begin

text \<open>The text of an admitted URL starts with one of the two schemes and two slashes.\<close>

lemma admitted_text:
  assumes "admit raw = Inr u"
  shows "\<exists>sch rest. raw = sch @ ''://'' @ rest \<and> (map lower_char sch = ''http'' \<or> map lower_char sch = ''https'')"
proof -
  from admit_scheme [OF assms] have "u_scheme u \<noteq> []" by auto
  moreover have "u_host u \<noteq> []"
    using admit_host [OF assms]
    by (auto simp: url_hostname_def split_host_port_def last_index_def Let_def)
  ultimately obtain sch rest where "raw = sch @ ''://'' @ rest" "map lower_char sch = u_scheme u"
    using url_parse_authority [OF admit_parsed [OF assms]] by blast
  with admit_scheme [OF assms] show ?thesis by auto
qed

text \<open>The port the transport connects to: the URL's, or the default of its scheme.\<close>

lemma admitted_connect_port:
  assumes "admit raw = Inr u"
  shows "(if url_port u = [] then (if u_scheme u = ''http'' then ''80'' else ''443'') else url_port u)
    \<in> {''80'', ''443''}"
  using admit_port [OF assms] by auto

end

interpretation public_web: web_guard public_web_url
  by unfold_locales (auto simp: public_web_url_def simp del: not_None_eq split: if_splits option.splits)

end
