(* ===== verification/Web_Client.thy ===== *)
theory Web_Client
  imports Public_Web
begin

text \<open>
  The HTTP client of one phone, \<open>ueWebClient\<close> of \<^verbatim>\<open>browse.go\<close>: its resolver, the
  dialling of a checked address from the phone's own address, and the redirect check.
  The network itself (lookups, TCP connections, an HTTP exchange over a connection) is a
  parameter \<open>net_api\<close> over a world of arbitrary type; the stand-alone helpers of package
  \<open>net\<close> on \<^verbatim>\<open>host:port\<close> strings are defined here.
\<close>

section \<open>Host and port strings\<close>

definition join_host_port :: "string \<Rightarrow> string \<Rightarrow> string" where
  "join_host_port host port =
    (if CHR '':'' \<in> set host then ''['' @ host @ '']:'' @ port else host @ '':'' @ port)"

definition index_of :: "char \<Rightarrow> string \<Rightarrow> nat option" where
  "index_of c s = (if c \<in> set s then Some (length (takeWhile (\<lambda>x. x \<noteq> c) s)) else None)"

text \<open>\<open>net.SplitHostPort\<close>; \<open>None\<close> is its error.\<close>

definition net_split_host_port :: "string \<Rightarrow> (string \<times> string) option" where
  "net_split_host_port hp =
    (case last_index (CHR '':'') hp of
       None \<Rightarrow> None
     | Some i \<Rightarrow>
         (if hd hp = CHR ''['' then
            (case index_of (CHR '']'') hp of
               None \<Rightarrow> None
             | Some e \<Rightarrow>
                 if e + 1 \<noteq> i then None
                 else if CHR ''['' \<in> set (drop 1 hp) \<or> CHR '']'' \<in> set (drop (e + 1) hp) then None
                 else Some (take (e - 1) (drop 1 hp), drop (i + 1) hp))
          else if CHR '':'' \<in> set (take i hp) \<or> CHR ''['' \<in> set hp \<or> CHR '']'' \<in> set hp then None
          else Some (take i hp, drop (i + 1) hp)))"

section \<open>The network\<close>

datatype transport_kind = UDP | TCP

text \<open>\<open>net.Dialer\<close>: the local address it binds and its timeout in seconds.\<close>

record dialer =
  d_bind :: "transport_kind \<times> ip_addr option"
  d_timeout :: nat

text \<open>\<open>net.Resolver\<close>: how it reaches a name server for a network and server address.\<close>

record dns_resolver =
  r_prefer_go :: bool
  r_dial :: "string \<Rightarrow> string \<Rightarrow> dialer \<times> string \<times> string"

record web_response =
  wr_status :: nat
  wr_location :: string
  wr_content_type :: string
  wr_body :: "string option"

type_synonym conn = nat

type_synonym 'w dial_fun = "string \<Rightarrow> 'w \<Rightarrow> (string + conn) \<times> 'w"

text \<open>
  What outside code does: parse an address string, look up a name, open a TCP connection,
  and exchange one request over connections made with a dial function (the transport).
\<close>

record 'w net_api =
  parse_ip :: "string \<Rightarrow> ip_addr option"
  lookup_netip :: "dns_resolver \<Rightarrow> string \<Rightarrow> string \<Rightarrow> 'w \<Rightarrow> (string + ip_addr list) \<times> 'w"
  dial_tcp :: "dialer \<Rightarrow> string \<Rightarrow> ip_addr \<times> string \<Rightarrow> 'w \<Rightarrow> (string + conn) \<times> 'w"
  round_trip :: "'w dial_fun \<Rightarrow> url \<Rightarrow> 'w \<Rightarrow> (string + web_response) \<times> 'w"

section \<open>Dialling\<close>

text \<open>Every DNS exchange goes to one public server, from the phone's address.\<close>

definition ue_resolver :: "'w net_api \<Rightarrow> string \<Rightarrow> dns_resolver" where
  "ue_resolver api source = \<lparr>r_prefer_go = True,
     r_dial = (\<lambda>network address.
       (\<lparr>d_bind = (if has_prefix network ''tcp'' then TCP else UDP, parse_ip api source), d_timeout = 5\<rparr>,
        network, ''8.8.8.8:53''))\<rparr>"

definition ue_dialer :: "'w net_api \<Rightarrow> string \<Rightarrow> dialer" where
  "ue_dialer api source = \<lparr>d_bind = (TCP, parse_ip api source), d_timeout = 8\<rparr>"

text \<open>The first address that answers wins; otherwise the last error is reported.\<close>

fun dial_each ::
  "'w net_api \<Rightarrow> dialer \<Rightarrow> string \<Rightarrow> ip_addr list \<Rightarrow> string \<Rightarrow> 'w \<Rightarrow> (string + conn) \<times> 'w" where
  "dial_each api d port [] e w = (Inl e, w)"
| "dial_each api d port (ip # ips) e0 w =
    (case dial_tcp api d ''tcp4'' (ip, port) w of
       (Inr c, w') \<Rightarrow> (Inr c, w')
     | (Inl e, w') \<Rightarrow> dial_each api d port ips e w')"

definition err_private :: string where
  "err_private = ''private and special-use destinations are not supported''"

definition dial_context :: "'w net_api \<Rightarrow> string \<Rightarrow> 'w dial_fun" where
  "dial_context api source address w =
    (case net_split_host_port address of
       None \<Rightarrow> (Inl ''address error'', w)
     | Some (host, port) \<Rightarrow>
         (case lookup_netip api (ue_resolver api source) ''ip4'' host w of
            (Inl e, w1) \<Rightarrow> (Inl (''UE DNS: '' @ e), w1)
          | (Inr ips, w1) \<Rightarrow>
              if ips = [] then (Inl ''no IPv4 address found'', w1)
              else if list_ex (\<lambda>ip. \<not> public_ip ip) ips then (Inl err_private, w1)
              else dial_each api (ue_dialer api source) port ips [] w1))"

section \<open>Redirects\<close>

definition check_redirect :: "url \<Rightarrow> nat \<Rightarrow> string option" where
  "check_redirect u via =
    (if 5 \<le> via then Some ''too many redirects''
     else (case public_web_url (url_string u) of Inl e \<Rightarrow> Some e | Inr _ \<Rightarrow> None))"

definition redirect_status :: "nat \<Rightarrow> bool" where
  "redirect_status code \<longleftrightarrow> code \<in> {301, 302, 303, 307, 308}"

text \<open>
  \<open>http.Client.Do\<close> for a GET request with this redirect check: \<open>via\<close> requests have been
  made, \<open>u\<close> is the next.  A redirect without a Location ends the exchange.
\<close>

function client_do ::
  "'w net_api \<Rightarrow> string \<Rightarrow> nat \<Rightarrow> url \<Rightarrow> 'w \<Rightarrow> (string + url \<times> web_response) \<times> 'w" where
  "client_do api source via u w =
    (case round_trip api (dial_context api source) u w of
       (Inl e, w1) \<Rightarrow> (Inl e, w1)
     | (Inr r, w1) \<Rightarrow>
         if \<not> redirect_status (wr_status r) \<or> wr_location r = [] then (Inr (u, r), w1)
         else (case url_parse (wr_location r) of
            None \<Rightarrow> (Inl ''failed to parse Location header'', w1)
          | Some ref \<Rightarrow>
              (case check_redirect (resolve_reference u ref) (Suc via) of
                 Some e \<Rightarrow> (Inl e, w1)
               | None \<Rightarrow> client_do api source (Suc via) (resolve_reference u ref) w1)))"
  by pat_completeness auto
termination
  by (relation "measure (\<lambda>(api, source, via, u, w). 5 - via)")
     (auto simp: check_redirect_def split: if_splits)

declare client_do.simps [simp del]

text \<open>
  \<open>http.NewRequest\<close> parses the URL again and drops an empty port.
\<close>

definition remove_empty_port :: "string \<Rightarrow> string" where
  "remove_empty_port host =
    (case last_index (CHR '':'') host of
       None \<Rightarrow> host
     | Some i \<Rightarrow>
         if (case last_index (CHR '']'') host of None \<Rightarrow> True | Some j \<Rightarrow> j < i) \<and> drop i host = '':''
         then butlast host else host)"

definition request_url :: "string \<Rightarrow> url option" where
  "request_url raw = map_option (\<lambda>u. u\<lparr>u_host := remove_empty_port (u_host u)\<rparr>) (url_parse raw)"

section \<open>Watching the network\<close>

text \<open>
  To state which addresses are dialled and which URLs are requested, whatever the network
  answers, its dial and request calls are recorded in a log beside the world.
\<close>

datatype net_event = Dialled dialer ip_addr string | Requested url

definition watch_dials :: "'w net_api \<Rightarrow> ('w \<times> net_event list) net_api" where
  "watch_dials api = \<lparr>
     parse_ip = parse_ip api,
     lookup_netip = (\<lambda>r net host (w, l). case lookup_netip api r net host w of (x, w') \<Rightarrow> (x, (w', l))),
     dial_tcp = (\<lambda>d net (ip, port) (w, l).
       case dial_tcp api d net (ip, port) w of (x, w') \<Rightarrow> (x, (w', l @ [Dialled d ip port]))),
     round_trip = (\<lambda>dial u (w, l).
       case round_trip api (\<lambda>a w. case dial a (w, []) of (c, (w', _)) \<Rightarrow> (c, w')) u w of
         (x, w') \<Rightarrow> (x, (w', l @ [Requested u])))\<rparr>"

lemma watch_dials_sel:
  "parse_ip (watch_dials api) = parse_ip api"
  "lookup_netip (watch_dials api) r net host (w, l) =
     (case lookup_netip api r net host w of (x, w') \<Rightarrow> (x, (w', l)))"
  "dial_tcp (watch_dials api) d net (ip, port) (w, l) =
     (case dial_tcp api d net (ip, port) w of (x, w') \<Rightarrow> (x, (w', l @ [Dialled d ip port])))"
  by (simp_all add: watch_dials_def)

lemma watch_round_trip:
  "\<exists>x w'. round_trip (watch_dials api) dial u (w, l) = (x, (w', l @ [Requested u]))"
proof -
  let ?dial = "\<lambda>a w. case dial a (w, []) of (c, (w', _)) \<Rightarrow> (c, w')"
  obtain x w' where "round_trip api ?dial u w = (x, w')" by force
  then show ?thesis by (intro exI [of _ x] exI [of _ w']) (simp add: watch_dials_def)
qed

lemma ue_dialer_watch: "ue_dialer (watch_dials api) source = ue_dialer api source"
  by (simp add: ue_dialer_def watch_dials_sel)

lemma dial_each_log:
  "\<exists>k. snd (snd (dial_each (watch_dials api) d port ips e (w, l))) =
     l @ map (\<lambda>ip. Dialled d ip port) (take k ips)"
proof (induction ips arbitrary: e w l)
  case Nil
  show ?case by simp
next
  case (Cons ip ips)
  obtain x w' where x: "dial_tcp api d ''tcp4'' (ip, port) w = (x, w')" by force
  show ?case
  proof (cases x)
    case (Inl e')
    from Cons.IH [of e' w' "l @ [Dialled d ip port]"] obtain k where
      "snd (snd (dial_each (watch_dials api) d port ips e' (w', l @ [Dialled d ip port]))) =
         (l @ [Dialled d ip port]) @ map (\<lambda>ip. Dialled d ip port) (take k ips)" ..
    with x Inl show ?thesis by (intro exI [of _ "Suc k"]) (simp add: watch_dials_sel)
  next
    case (Inr c)
    with x show ?thesis by (intro exI [of _ 1]) (simp add: watch_dials_sel)
  qed
qed

text \<open>
  Whatever the name server answers: the log of a dial is a run of connection attempts from
  the phone's dialer to public addresses.
\<close>

lemma dial_context_log:
  "\<exists>host port ips. snd (snd (dial_context (watch_dials api) source address (w, l))) =
       l @ map (\<lambda>ip. Dialled (ue_dialer api source) ip port) ips
     \<and> (\<forall>ip \<in> set ips. public_ip ip)
     \<and> (ips \<noteq> [] \<longrightarrow> net_split_host_port address = Some (host, port))"
proof (cases "net_split_host_port address")
  case None
  then show ?thesis by (intro exI [of _ "[]"]) (simp add: dial_context_def)
next
  case (Some hp)
  obtain host port where hp: "hp = (host, port)" by force
  obtain x w1 where x: "lookup_netip api (ue_resolver (watch_dials api) source) ''ip4'' host w = (x, w1)"
    by force
  show ?thesis
  proof (cases "\<exists>ips. x = Inr ips \<and> ips \<noteq> [] \<and> (\<forall>ip \<in> set ips. public_ip ip)")
    case True
    then obtain ips where ips: "x = Inr ips" "ips \<noteq> []" "\<forall>ip \<in> set ips. public_ip ip" by blast
    from dial_each_log [of api "ue_dialer api source" port ips "[]" w1 l] obtain k where
      "snd (snd (dial_each (watch_dials api) (ue_dialer api source) port ips [] (w1, l))) =
         l @ map (\<lambda>ip. Dialled (ue_dialer api source) ip port) (take k ips)" ..
    with Some hp x ips show ?thesis
      by (intro exI [of _ host] exI [of _ port] exI [of _ "take k ips"])
        (auto simp: dial_context_def watch_dials_sel ue_dialer_watch Bex_set [symmetric] dest: in_set_takeD)
  next
    case False
    with Some hp x show ?thesis
      by (intro exI [of _ host] exI [of _ port] exI [of _ "[]"])
        (auto simp: dial_context_def watch_dials_sel list_ex_iff split: sum.split)
  qed
qed

text \<open>The requests of one exchange: the first URL, then admitted redirect targets.\<close>

definition admitted_request :: "net_event \<Rightarrow> bool" where
  "admitted_request e = (case e of
     Requested u \<Rightarrow> (case public_web_url (url_string u) of Inl _ \<Rightarrow> False | Inr _ \<Rightarrow> True)
   | Dialled d ip port \<Rightarrow> False)"

lemma check_redirect_None:
  "check_redirect u via = None \<longleftrightarrow> via < 5 \<and> admitted_request (Requested u)"
  by (auto simp: check_redirect_def admitted_request_def split: sum.splits)

lemma client_do_log:
  "\<exists>es. snd (snd (client_do (watch_dials api) source via u (w, l))) = l @ Requested u # es
     \<and> list_all admitted_request es \<and> (via < 5 \<longrightarrow> via + length es < 5) \<and> (5 \<le> via \<longrightarrow> es = [])"
proof (induction "5 - via" arbitrary: via u w l rule: less_induct)
  case less
  obtain x w1 where x: "round_trip (watch_dials api) (dial_context (watch_dials api) source) u (w, l)
      = (x, (w1, l @ [Requested u]))"
    using watch_round_trip [of api "dial_context (watch_dials api) source" u w l] by auto
  show ?case
  proof (cases "\<exists>r ref. x = Inr r \<and> redirect_status (wr_status r) \<and> wr_location r \<noteq> []
      \<and> url_parse (wr_location r) = Some ref \<and> check_redirect (resolve_reference u ref) (Suc via) = None")
    case True
    then obtain r ref where r: "x = Inr r" "redirect_status (wr_status r)" "wr_location r \<noteq> []"
      "url_parse (wr_location r) = Some ref" and c: "check_redirect (resolve_reference u ref) (Suc via) = None"
      by blast
    let ?u = "resolve_reference u ref"
    from c have via: "Suc via < 5" and adm: "admitted_request (Requested ?u)"
      by (simp_all add: check_redirect_None)
    then have "5 - Suc via < 5 - via" by simp
    from less [OF this, of ?u w1 "l @ [Requested u]"] obtain es where
      "snd (snd (client_do (watch_dials api) source (Suc via) ?u (w1, l @ [Requested u])))
        = (l @ [Requested u]) @ Requested ?u # es"
      "list_all admitted_request es" "Suc via + length es < 5" using via by auto
    with x r c adm show ?thesis
      by (intro exI [of _ "Requested ?u # es"]) (subst client_do.simps, simp)
  next
    case False
    with x show ?thesis
      by (intro exI [of _ "[]"]) (subst client_do.simps, auto split: sum.split option.split)
  qed
qed

end
