(* ===== verification/Web_Reader.thy ===== *)
theory Web_Reader
  imports Public_Web
begin

text \<open>
  The two renderings of a fetched page (\<^verbatim>\<open>browse.go\<close>): \<open>mobileReader\<close> rebuilds it from an
  allow list of tags, \<open>reader\<close> extracts its title, text and links.  The HTML parser and
  \<open>html.EscapeString\<close> of package \<^verbatim>\<open>golang.org/x/net/html\<close> are parameters; the tree they
  share with the code is the datatype below.
\<close>

datatype node_type = ErrorNode | TextNode | DocumentNode | ElementNode | CommentNode | DoctypeNode | RawNode

datatype html = Node (n_type: node_type) (n_data: string) (n_attr: "(string \<times> string) list") (n_children: "html list")

record html_api =
  parse_html :: "string \<Rightarrow> html option"
  escape_html :: "string \<Rightarrow> string"

section \<open>The rebuilt page\<close>

definition dropped_tags :: "string list" where
  "dropped_tags = [''head'', ''script'', ''style'', ''noscript'', ''svg'', ''iframe'', ''form'', ''nav'',
     ''footer'', ''template'', ''object'', ''embed'']"

definition kept_tags :: "string list" where
  "kept_tags = [''h1'', ''h2'', ''h3'', ''h4'', ''h5'', ''h6'', ''p'', ''ul'', ''ol'', ''li'',
     ''blockquote'', ''pre'', ''code'', ''strong'', ''em'', ''b'', ''i'', ''br'', ''hr'', ''table'',
     ''thead'', ''tbody'', ''tr'', ''th'', ''td'', ''article'', ''section'', ''div'', ''figure'', ''figcaption'']"

text \<open>The target of a link, resolved against the page, if it is a public web URL.\<close>

definition link_target :: "url \<Rightarrow> string \<Rightarrow> string option" where
  "link_target base val =
    (case url_parse val of
       None \<Rightarrow> None
     | Some ref \<Rightarrow>
         (let u = url_string (resolve_reference base ref) in
          case public_web_url u of Inl e \<Rightarrow> None | Inr _ \<Rightarrow> Some u))"

text \<open>The first \<open>href\<close> decides.\<close>

fun first_href :: "(string \<times> string) list \<Rightarrow> string option" where
  "first_href [] = None"
| "first_href ((key, val) # as) = (if key = ''href'' then Some val else first_href as)"

text \<open>What an element writes before its children, and the tag it closes after them.\<close>

definition quote :: char where
  "quote = CHR 0x22"

definition link_open :: "html_api \<Rightarrow> string \<Rightarrow> string" where
  "link_open api u = ''<a href='' @ [quote] @ ''#'' @ [quote] @ '' data-web-link='' @ [quote]
     @ escape_html api u @ [quote] @ ''>''"

definition open_element :: "html_api \<Rightarrow> url \<Rightarrow> string \<Rightarrow> (string \<times> string) list \<Rightarrow> string \<times> string" where
  "open_element api base tag attrs =
    (if tag \<in> set kept_tags then (''<'' @ tag @ ''>'', tag)
     else if tag = ''a'' then
       (case first_href attrs of
          None \<Rightarrow> ([], [])
        | Some val \<Rightarrow>
            (case link_target base val of None \<Rightarrow> ([], []) | Some u \<Rightarrow> (link_open api u, ''a'')))
     else ([], []))"

definition close_element :: "string \<Rightarrow> string" where
  "close_element tag = (if tag \<noteq> [] \<and> tag \<noteq> ''br'' \<and> tag \<noteq> ''hr'' then ''</'' @ tag @ ''>'' else [])"

fun rebuild :: "html_api \<Rightarrow> url \<Rightarrow> html \<Rightarrow> string \<Rightarrow> string"
  and rebuild_all :: "html_api \<Rightarrow> url \<Rightarrow> html list \<Rightarrow> string \<Rightarrow> string" where
  "rebuild api base (Node ty data attrs cs) out =
    (if 128000 < length out then out
     else if ty = TextNode then out @ escape_html api data
     else if ty = ElementNode \<and> data \<in> set dropped_tags then out
     else
       (case (if ty = ElementNode then open_element api base data attrs else ([], [])) of
          (start, tag) \<Rightarrow> rebuild_all api base cs (out @ start) @ close_element tag))"
| "rebuild_all api base [] out = out"
| "rebuild_all api base (c # cs) out = rebuild_all api base cs (rebuild api base c out)"

definition mobile_reader :: "html_api \<Rightarrow> string \<Rightarrow> url \<Rightarrow> string" where
  "mobile_reader api body base =
    (case parse_html api body of None \<Rightarrow> [] | Some root \<Rightarrow> rebuild api base root [])"

section \<open>Title, text and links\<close>

record web_link =
  wl_text :: string
  wl_url :: string

text \<open>The state of the walk: the text written, the title, the links and the URLs seen.\<close>

record reader_state =
  r_text :: string
  r_title :: string
  r_links :: "web_link list"
  r_seen :: "string list"

fun contents :: "html \<Rightarrow> string" and contents_all :: "html list \<Rightarrow> string" where
  "contents (Node ty data attrs cs) =
    (if ty = TextNode then data else join '' '' (words (contents_all cs)))"
| "contents_all [] = []"
| "contents_all (c # cs) = contents c @ '' '' @ contents_all cs"

definition skipped_tags :: "string list" where
  "skipped_tags = [''script'', ''style'', ''noscript'', ''svg'', ''iframe'', ''form'', ''nav'', ''footer'']"

definition line_tags :: "string list" where
  "line_tags = [''p'', ''div'', ''h1'', ''h2'', ''h3'', ''li'', ''br'', ''article'']"

text \<open>One attribute, and the attribute loop, of a link; the bound on the links is checked before it.\<close>

definition add_link :: "url \<Rightarrow> string \<Rightarrow> string \<Rightarrow> reader_state \<Rightarrow> reader_state" where
  "add_link base label val st =
    (case link_target base val of
       None \<Rightarrow> st
     | Some u \<Rightarrow>
         if u \<in> set (r_seen st) \<or> label = [] then st
         else st\<lparr>r_links := r_links st @ [\<lparr>wl_text = label, wl_url = u\<rparr>], r_seen := u # r_seen st\<rparr>)"

fun add_links :: "url \<Rightarrow> string \<Rightarrow> (string \<times> string) list \<Rightarrow> reader_state \<Rightarrow> reader_state" where
  "add_links base label [] st = st"
| "add_links base label ((key, val) # as) st =
    add_links base label as (if key = ''href'' then add_link base label val st else st)"

definition read_element :: "url \<Rightarrow> html \<Rightarrow> reader_state \<Rightarrow> reader_state" where
  "read_element base n st =
    (let st1 = (if n_data n = ''a'' \<and> length (r_links st) < 30
                then add_links base (contents n) (n_attr n) st else st) in
     if n_data n \<in> set line_tags then st1\<lparr>r_text := r_text st1 @ [CHR 0x0A]\<rparr> else st1)"

definition read_text :: "string \<Rightarrow> reader_state \<Rightarrow> reader_state" where
  "read_text data st =
    (let clean = join '' '' (words data) in
     if clean = [] then st else st\<lparr>r_text := r_text st @ clean @ '' ''\<rparr>)"

fun read_node :: "url \<Rightarrow> html \<Rightarrow> reader_state \<Rightarrow> reader_state"
  and read_all :: "url \<Rightarrow> html list \<Rightarrow> reader_state \<Rightarrow> reader_state" where
  "read_node base (Node ty data attrs cs) st =
    (if 32000 < length (r_text st) then st
     else if ty = ElementNode \<and> data \<in> set skipped_tags then st
     else if ty = ElementNode \<and> data = ''title'' then st\<lparr>r_title := contents (Node ty data attrs cs)\<rparr>
     else
       (let st1 = (if ty = ElementNode then read_element base (Node ty data attrs cs) st else st);
            st2 = (if ty = TextNode then read_text data st1 else st1) in
        read_all base cs st2))"
| "read_all base [] st = st"
| "read_all base (c # cs) st = read_all base cs (read_node base c st)"

text \<open>The lines that are not blank; the links are a nil slice when the page does not parse.\<close>

definition text_lines :: "string \<Rightarrow> string list" where
  "text_lines s = filter (\<lambda>l. l \<noteq> []) (map trim_space (split_on (CHR 0x0A) s))"

definition reader :: "html_api \<Rightarrow> string \<Rightarrow> url \<Rightarrow> string \<times> string \<times> web_link list option" where
  "reader api body base =
    (case parse_html api body of
       None \<Rightarrow> ([], body, None)
     | Some root \<Rightarrow>
         (let st = read_node base root \<lparr>r_text = [], r_title = [], r_links = [], r_seen = []\<rparr> in
          (r_title st, join [CHR 0x0A, CHR 0x0A] (text_lines (r_text st)), Some (r_links st))))"

end
