(* ===== verification/Phone_Api.thy ===== *)
theory Phone_Api
  imports Phone_State Phone_Config Go_Http Web_Client Web_Reader
begin

text \<open>
  What the dashboard calls outside its own sources, as a record of functions over a world
  of arbitrary type: the clock, the SMS entity of a UE, its IMS client, its calls, the radio
  leg, the peer's state page.  Nothing is assumed about them.  The combinators below are
  the ways a goroutine touches the shared state; each is one atomic action.
\<close>

section \<open>Outside calls\<close>

datatype rp_report = RPError string | OtherReport

datatype call_state = CallTerminated | CallConfirmed | CallOther nat

datatype poll = PollFailed | PollUndecodable | PollState "(string \<times> phone_message list) list"

record media_stream =
  ms_local :: "string \<times> nat"
  ms_remote :: "string \<times> nat"
  ms_remote_valid :: bool

text \<open>
  The radio side of a UE: its handle, its gNB, the identifier of its NGAP association and
  its session; and the calls that bring it up.
\<close>

record ue_leg =
  leg_ue :: nat
  leg_gnb :: nat
  leg_ran_id :: int
  leg_session :: pdu_session

record subscriber_spec =
  sp_imsi :: string
  sp_msisdn :: string
  sp_key :: string
  sp_opc :: string
  sp_sequence_number :: string
  sp_profile_name :: string

record subscriber =
  su_imsi :: string
  su_key :: string
  su_opc :: string
  su_sequence_number :: string
  su_profile_name :: string

record gnb_env =
  env_core_n2 :: "string list"
  env_name :: string
  env_n2 :: string
  env_n3 :: string

record gnb_opts =
  go_id :: string
  go_name :: string
  go_core_n2 :: "string list"
  go_n2 :: string
  go_n3 :: string

text \<open>A policy rule for the /32 of a source address, a tunnel and a default route.\<close>

record policy_rule =
  rule_table :: nat
  rule_priority :: nat
  rule_src :: string

record tunnel =
  tun_ue_ipv4 :: string
  tun_upf_address :: string
  tun_ulteid :: u32
  tun_dlteid :: u32
  tun_qfi :: u8
  tun_name :: string

datatype route = ViaLink nat nat | Unreachable nat

datatype host_call =
    RuleDel policy_rule
  | RuleAdd policy_rule
  | LinkByName string
  | LinkDel nat
  | AddTunnel nat tunnel
  | RouteReplace route
  | WatchTEID nat u32

text \<open>
  \<open>kernel\<close> is a call of the netlink library or the gNB's data plane: its error, or the index
  of the link found (and nothing of interest for the others).
\<close>

record 'w radio_api =
  ims_subscriber :: "string \<Rightarrow> string \<Rightarrow> subscriber_spec"
  default_ran_id :: int
  start_gnb :: "gnb_env \<Rightarrow> 'w \<Rightarrow> (string + nat) \<times> 'w"
  radio_start :: "gnb_opts \<Rightarrow> 'w \<Rightarrow> (string + nat) \<times> 'w"
  wait_setup :: "nat \<Rightarrow> 'w \<Rightarrow> string option \<times> 'w"
  gnb_close :: "nat \<Rightarrow> 'w \<Rightarrow> 'w"
  new_subscriber_ue :: "nat \<Rightarrow> subscriber \<Rightarrow> 'w \<Rightarrow> (string + nat) \<times> 'w"
  add_ue :: "nat \<Rightarrow> int \<Rightarrow> nat \<Rightarrow> 'w \<Rightarrow> 'w"
  register_ue :: "nat \<Rightarrow> nat \<Rightarrow> int \<Rightarrow> 'w \<Rightarrow> (string + pdu_session) \<times> 'w"
  attach_ims_ues :: "gnb_env \<Rightarrow> nat \<Rightarrow> subscriber_spec list \<Rightarrow> 'w \<Rightarrow> (string + (ims_endpoint \<times> ue_leg) list) \<times> 'w"
  dashboard_ims :: "ims_endpoint \<Rightarrow> 'w \<Rightarrow> (string + nat) \<times> 'w"
  internet_session :: "nat \<Rightarrow> nat \<Rightarrow> int \<Rightarrow> 'w \<Rightarrow> (string + pdu_session) \<times> 'w"
  kernel :: "host_call \<Rightarrow> 'w \<Rightarrow> (string + nat) \<times> 'w"
  run_command :: "string \<Rightarrow> string list \<Rightarrow> 'w \<Rightarrow> (string \<times> string option) \<times> 'w"
  listen_tcp :: "string \<Rightarrow> 'w \<Rightarrow> (string + nat) \<times> 'w"

text \<open>
  Accepted connections.  \<open>read_full\<close> is \<open>io.ReadFull\<close>, which waits for the bytes or yields
  \<open>None\<close> for its error; \<open>relay\<close> copies between two connections until both have ended.
\<close>

record 'w conn_api =
  accept_conn :: "nat \<Rightarrow> 'w \<Rightarrow> (nat option \<times> 'w) option"
  read_full :: "nat \<Rightarrow> nat \<Rightarrow> 'w \<Rightarrow> (bytes option \<times> 'w) option"
  write_conn :: "nat \<Rightarrow> bytes \<Rightarrow> 'w \<Rightarrow> 'w"
  close_conn :: "nat \<Rightarrow> 'w \<Rightarrow> 'w"
  relay :: "nat \<Rightarrow> nat \<Rightarrow> 'w \<Rightarrow> (unit \<times> 'w) option"

text \<open>What the state page shows of a phone and of the dashboard.\<close>

record phone_view =
  v_id :: string
  v_name :: string
  v_imsi :: string
  v_number :: string
  v_ip :: string
  v_internet_ip :: string
  v_nas :: bool
  v_registered :: bool
  v_call :: string
  v_ended :: string
  v_incoming :: bool
  v_peer :: string
  v_messages :: "phone_message list"
  v_tx :: u64
  v_rx :: int
  v_qfi :: "int list"
  v_error :: string

record dashboard_view =
  v_mode :: string
  v_ready :: bool
  v_problem :: string
  v_phones :: "phone_view list"
  v_events :: "phone_event list"
  v_time :: int

text \<open>A page of the remote browser, and what its debugging protocol is asked and answers.\<close>

record browser_tab =
  tab_type :: string
  tab_debugger_url :: string

record 'w chromium_api =
  list_tabs :: "'w \<Rightarrow> browser_tab list option \<times> 'w"
  ws_dial :: "string \<Rightarrow> 'w \<Rightarrow> (string + nat) \<times> 'w"
  ws_send :: "nat \<Rightarrow> json \<Rightarrow> 'w \<Rightarrow> string option \<times> 'w"
  ws_receive :: "nat \<Rightarrow> 'w \<Rightarrow> (string + (string \<rightharpoonup> json)) \<times> 'w"
  ws_close :: "nat \<Rightarrow> 'w \<Rightarrow> 'w"
  sprint :: "json \<Rightarrow> string"

text \<open>
  Errors are their texts.  An IMS client is a pointer that may be nil.  A blocking receive returns \<open>None\<close> while there is nothing to
  receive: \<open>sms_receive\<close> yields an error or a sender and a text, \<open>next_call\<close> the end of the
  channel or a call, \<open>media_select\<close> whether the call is done or the ticker fired.
\<close>

record 'w phone_api =
  now :: "'w \<Rightarrow> int \<times> 'w"
  sleep :: "nat \<Rightarrow> 'w \<Rightarrow> 'w"
  json_value :: "string \<Rightarrow> json option"
  sms_submit :: "nat \<Rightarrow> string \<Rightarrow> string \<Rightarrow> string \<Rightarrow> 'w \<Rightarrow> (rp_report option \<times> string option) \<times> 'w"
  sms_receive :: "nat \<Rightarrow> 'w \<Rightarrow> ((string + string \<times> string) \<times> 'w) option"
  sms_allowed :: "nat \<Rightarrow> 'w \<Rightarrow> bool"
  ims_register :: "nat option \<Rightarrow> 'w \<Rightarrow> string option \<times> 'w"
  ims_deregister :: "nat option \<Rightarrow> 'w \<Rightarrow> string option \<times> 'w"
  ims_registered :: "nat option \<Rightarrow> 'w \<Rightarrow> bool"
  ims_invite :: "nat option \<Rightarrow> string \<Rightarrow> 'w \<Rightarrow> (string + nat) \<times> 'w"
  next_call :: "nat option \<Rightarrow> 'w \<Rightarrow> (nat option \<times> 'w) option"
  call_status :: "nat \<Rightarrow> 'w \<Rightarrow> call_state"
  state_text :: "call_state \<Rightarrow> string"
  call_end :: "nat \<Rightarrow> 'w \<Rightarrow> string"
  call_incoming :: "nat \<Rightarrow> 'w \<Rightarrow> bool"
  call_ring :: "nat \<Rightarrow> 'w \<Rightarrow> string option \<times> 'w"
  call_answer :: "nat \<Rightarrow> 'w \<Rightarrow> string option \<times> 'w"
  call_bye :: "nat \<Rightarrow> 'w \<Rightarrow> string option \<times> 'w"
  call_cancel :: "nat \<Rightarrow> 'w \<Rightarrow> string option \<times> 'w"
  call_reject :: "nat \<Rightarrow> nat \<Rightarrow> 'w \<Rightarrow> string option \<times> 'w"
  media_select :: "nat \<Rightarrow> 'w \<Rightarrow> (bool \<times> 'w) option"
  audio_stream :: "nat \<Rightarrow> 'w \<Rightarrow> media_stream option"
  leg_flows :: "nat \<Rightarrow> 'w \<Rightarrow> u8 list"
  downlink_count :: "nat \<Rightarrow> u32 \<Rightarrow> u8 \<Rightarrow> 'w \<Rightarrow> int"
  upf_parses :: "string \<Rightarrow> bool"
  udp_packet :: "string \<times> nat \<Rightarrow> string \<times> nat \<Rightarrow> bytes \<Rightarrow> bytes"
  send_gpdu :: "nat \<Rightarrow> u32 \<Rightarrow> string \<Rightarrow> u8 \<Rightarrow> bytes \<Rightarrow> 'w \<Rightarrow> string option \<times> 'w"
  peer_state :: "string \<Rightarrow> 'w \<Rightarrow> poll \<times> 'w"
  radio :: "'w radio_api"
  conns :: "'w conn_api"
  net :: "'w net_api"
  html :: html_api
  chromium :: "'w chromium_api"
  respond_state :: "nat \<Rightarrow> dashboard_view \<Rightarrow> 'w \<Rightarrow> 'w"
  respond :: "nat \<Rightarrow> http_response \<Rightarrow> 'w \<Rightarrow> 'w"

section \<open>Goroutines of the dashboard\<close>

text \<open>
  The goroutines: the attachment of the phones, the handlers of the HTTP routes, the acceptor of proxy
  connections and one such connection, the receivers of a phone, the media loop of a call (with
  its sequence number, timestamp and last flow), the tracker of a message (with the number
  of polls made).
\<close>

datatype task =
    TInit
  | TState nat
  | TAction nat http_request
  | TBrowse nat http_request
  | TNavigate nat http_request
  | TAccept nat nat
  | TSocks nat nat
  | TSms nat
  | TCalls nat
  | TMedia nat nat u16 u32 u8
  | TTrack nat u64 string string nat

type_synonym ('w, 'r) goroutine = "('w sys, task, 'r) prog"

section \<open>Atomic actions\<close>

text \<open>Call outside code that changes the world, or ask it something.\<close>

definition call_world :: "('w \<Rightarrow> 'a \<times> 'w) \<Rightarrow> ('a \<Rightarrow> ('w, 'r) goroutine) \<Rightarrow> ('w, 'r) goroutine" where
  "call_world f k = atomic (\<lambda>s. case f (world s) of (a, w) \<Rightarrow> (a, s\<lparr>world := w\<rparr>)) k"

definition ask_world :: "('w \<Rightarrow> 'a) \<Rightarrow> ('a \<Rightarrow> ('w, 'r) goroutine) \<Rightarrow> ('w, 'r) goroutine" where
  "ask_world f k = atomic (\<lambda>s. (f (world s), s)) k"

text \<open>Call outside code that may fail, and handle its error.\<close>

definition try_world ::
  "('w \<Rightarrow> (string + 'a) \<times> 'w) \<Rightarrow> (string \<Rightarrow> ('w, 'r) goroutine) \<Rightarrow> ('a \<Rightarrow> ('w, 'r) goroutine)
     \<Rightarrow> ('w, 'r) goroutine" where
  "try_world f bad k = call_world f (\<lambda>r. case r of Inl e \<Rightarrow> bad e | Inr a \<Rightarrow> k a)"

text \<open>Wait for outside code.\<close>

definition wait_world :: "('w \<Rightarrow> ('a \<times> 'w) option) \<Rightarrow> ('a \<Rightarrow> ('w, 'r) goroutine) \<Rightarrow> ('w, 'r) goroutine" where
  "wait_world f k = await (\<lambda>s. map_option (\<lambda>(a, w). (a, s\<lparr>world := w\<rparr>)) (f (world s))) k"

text \<open>A section under a mutex: read the dashboard, or read it and change it.\<close>

definition read_dash :: "(phone_dashboard \<Rightarrow> 'a) \<Rightarrow> ('a \<Rightarrow> ('w, 'r) goroutine) \<Rightarrow> ('w, 'r) goroutine" where
  "read_dash f k = atomic (\<lambda>s. (f (dash s), s)) k"

definition step_dash ::
  "(phone_dashboard \<Rightarrow> 'a \<times> phone_dashboard) \<Rightarrow> ('a \<Rightarrow> ('w, 'r) goroutine) \<Rightarrow> ('w, 'r) goroutine" where
  "step_dash f k = atomic (\<lambda>s. case f (dash s) of (a, d) \<Rightarrow> (a, s\<lparr>dash := d\<rparr>)) k"

text \<open>A section under a mutex that also reads the clock or the world.\<close>

definition timed_dash ::
  "'w phone_api \<Rightarrow> (int \<Rightarrow> phone_dashboard \<Rightarrow> phone_dashboard) \<Rightarrow> ('w, 'r) goroutine \<Rightarrow> ('w, 'r) goroutine" where
  "timed_dash api f k =
    atomic (\<lambda>s. case now api (world s) of (t, w) \<Rightarrow> ((), s\<lparr>dash := f t (dash s), world := w\<rparr>)) (\<lambda>_. k)"

definition sync_dash ::
  "('w \<Rightarrow> phone_dashboard \<Rightarrow> 'a \<times> phone_dashboard) \<Rightarrow> ('a \<Rightarrow> ('w, 'r) goroutine) \<Rightarrow> ('w, 'r) goroutine" where
  "sync_dash f k = atomic (\<lambda>s. case f (world s) (dash s) of (a, d) \<Rightarrow> (a, s\<lparr>dash := d\<rparr>)) k"

definition set_phone ::
  "nat \<Rightarrow> (dashboard_phone \<Rightarrow> dashboard_phone) \<Rightarrow> ('w, 'r) goroutine \<Rightarrow> ('w, 'r) goroutine" where
  "set_phone i f k = step_dash (\<lambda>d. ((), upd_phone i f d)) (\<lambda>_. k)"

definition read_phone ::
  "nat \<Rightarrow> (dashboard_phone \<Rightarrow> 'a) \<Rightarrow> ('a \<Rightarrow> ('w, 'r) goroutine) \<Rightarrow> ('w, 'r) goroutine" where
  "read_phone i f k = read_dash (\<lambda>d. f (d_phones d ! i)) k"

text \<open>\<open>d.event(p.id, text)\<close>.\<close>

definition emit_event ::
  "'w phone_api \<Rightarrow> nat \<Rightarrow> string \<Rightarrow> ('w, 'r) goroutine \<Rightarrow> ('w, 'r) goroutine" where
  "emit_event api i text k =
    timed_dash api (\<lambda>t d. log_event \<lparr>e_at = t, e_phone = p_id (d_phones d ! i), e_text = text\<rparr> d) k"

definition network_event :: "'w phone_api \<Rightarrow> string \<Rightarrow> ('w, 'r) goroutine \<Rightarrow> ('w, 'r) goroutine" where
  "network_event api text k =
    timed_dash api (\<lambda>t d. log_event \<lparr>e_at = t, e_phone = ''network'', e_text = text\<rparr> d) k"

text \<open>
  The mutex \<open>op\<close> of a phone: wait until it is free, then take it; and release it.  (The
  source holds a pointer; an index beyond the phones, which no pointer corresponds to, is
  never granted.)
\<close>

definition lock_op :: "nat \<Rightarrow> ('w, 'r) goroutine \<Rightarrow> ('w, 'r) goroutine" where
  "lock_op i k = await (\<lambda>s. if length (d_phones (dash s)) \<le> i \<or> p_op_locked (d_phones (dash s) ! i) then None
     else Some ((), s\<lparr>dash := upd_phone i (p_op_locked_update (\<lambda>_. True)) (dash s)\<rparr>)) (\<lambda>_. k)"

definition unlock_op :: "nat \<Rightarrow> ('w, 'r) goroutine \<Rightarrow> ('w, 'r) goroutine" where
  "unlock_op i k = set_phone i (p_op_locked_update (\<lambda>_. False)) k"

section \<open>Uninterrupted execution of the actions\<close>

named_theorems run_simps \<open>how the actions execute\<close>

lemma exec_actions [run_simps]:
  "exec (call_world f k) s = (case f (world s) of (a, w) \<Rightarrow> exec (k a) (s\<lparr>world := w\<rparr>))"
  "exec (ask_world g k) s = exec (k (g (world s))) s"
  "exec (wait_world h k) s =
     (case h (world s) of None \<Rightarrow> None | Some (a, w) \<Rightarrow> exec (k a) (s\<lparr>world := w\<rparr>))"
  "exec (read_dash r k) s = exec (k (r (dash s))) s"
  "exec (step_dash t k) s = (case t (dash s) of (a, d) \<Rightarrow> exec (k a) (s\<lparr>dash := d\<rparr>))"
  "exec (sync_dash y k) s = (case y (world s) (dash s) of (a, d) \<Rightarrow> exec (k a) (s\<lparr>dash := d\<rparr>))"
  "exec (read_phone i q k) s = exec (k (q (d_phones (dash s) ! i))) s"
  by (auto simp: call_world_def ask_world_def wait_world_def read_dash_def step_dash_def
      sync_dash_def read_phone_def split: prod.split option.split)

lemma exec_try_world [run_simps]:
  "exec (try_world f bad k) s = (case f (world s) of
     (Inl e, w) \<Rightarrow> exec (bad e) (s\<lparr>world := w\<rparr>) | (Inr a, w) \<Rightarrow> exec (k a) (s\<lparr>world := w\<rparr>))"
  by (auto simp: try_world_def exec_actions split: prod.split sum.split)

lemma exec_updates [run_simps]:
  "exec (timed_dash api f k) s =
     (case now api (world s) of (t, w) \<Rightarrow> exec k (s\<lparr>dash := f t (dash s), world := w\<rparr>))"
  "exec (set_phone i g k) s = exec k (s\<lparr>dash := upd_phone i g (dash s)\<rparr>)"
  "exec (lock_op i k) s = (if length (d_phones (dash s)) \<le> i \<or> p_op_locked (d_phones (dash s) ! i) then None
     else exec k (s\<lparr>dash := upd_phone i (p_op_locked_update (\<lambda>_. True)) (dash s)\<rparr>))"
  "exec (unlock_op i k) s = exec k (s\<lparr>dash := upd_phone i (p_op_locked_update (\<lambda>_. False)) (dash s)\<rparr>)"
  "exec (emit_event api i text k) s =
     (case now api (world s) of (t, w) \<Rightarrow> exec k (s\<lparr>dash :=
        log_event \<lparr>e_at = t, e_phone = p_id (d_phones (dash s) ! i), e_text = text\<rparr> (dash s), world := w\<rparr>))"
  by (auto simp: timed_dash_def set_phone_def lock_op_def unlock_op_def emit_event_def step_dash_def
      split: prod.split)

end
