(* ===== verification/Attach.thy ===== *)
theory Attach
  imports Phone_Api
begin

text \<open>
  Bringing the phones up: \<open>initialize\<close> and \<open>fail\<close> of \<^verbatim>\<open>server.go\<close>, \<open>startPhoneGNB\<close> of
  \<^verbatim>\<open>phone_gnb.go\<close>, \<open>attachInternetUEs\<close> of \<^verbatim>\<open>mode.go\<close>, \<open>attachInternet\<close> of \<^verbatim>\<open>browse.go\<close> and
  the firewall of \<open>startBrowserProxy\<close> (\<^verbatim>\<open>browser.go\<close>).  Each function continues with its
  error or its result.
\<close>

section \<open>The gNB\<close>

definition gnb_environment :: "environment \<Rightarrow> gnb_env" where
  "gnb_environment env = \<lparr>env_core_n2 = split_on (CHR '','') (env ''CORE_N2''), env_name = ''phones'',
     env_n2 = env ''N2N3_ADDRESS'', env_n3 = env ''N3_ADDRESS''\<rparr>"

definition start_phone_gnb ::
  "'w radio_api \<Rightarrow> environment \<Rightarrow> gnb_env \<Rightarrow> (string \<Rightarrow> ('w, 'r) goroutine) \<Rightarrow> (nat \<Rightarrow> ('w, 'r) goroutine)
     \<Rightarrow> ('w, 'r) goroutine" where
  "start_phone_gnb ra env g bad k =
    (if env ''GNB_ID'' = [] then try_world (start_gnb ra g) bad k
     else try_world (radio_start ra
         \<lparr>go_id = env ''GNB_ID'', go_name = ''Ella-Phone-'' @ env ''PHONE_ID'',
          go_core_n2 = env_core_n2 g, go_n2 = env_n2 g, go_n3 = env_n3 g\<rparr>) bad (\<lambda>node.
       call_world (wait_setup ra node) (\<lambda>err. case err of
         None \<Rightarrow> k node
       | Some e \<Rightarrow> call_world (\<lambda>w. ((), gnb_close ra node w)) (\<lambda>_. bad (''NG setup: '' @ e)))))"

section \<open>Registration without services\<close>

definition radio_subscriber :: "subscriber_spec \<Rightarrow> subscriber" where
  "radio_subscriber s = \<lparr>su_imsi = sp_imsi s, su_key = sp_key s, su_opc = sp_opc s,
     su_sequence_number = sp_sequence_number s, su_profile_name = sp_profile_name s\<rparr>"

text \<open>An endpoint without an IMS session: its local address is the zero \<open>netip.Addr\<close>.\<close>

definition internet_endpoint :: "subscriber_spec \<Rightarrow> ims_endpoint" where
  "internet_endpoint s = \<lparr>ep_imsi = sp_imsi s, ep_msisdn = sp_msisdn s, ep_local = ''invalid IP''\<rparr>"

fun attach_internet_ues ::
  "'w radio_api \<Rightarrow> nat \<Rightarrow> nat \<Rightarrow> subscriber_spec list \<Rightarrow> (ims_endpoint \<times> ue_leg) list
     \<Rightarrow> (string \<Rightarrow> ('w, 'r) goroutine) \<Rightarrow> ((ims_endpoint \<times> ue_leg) list \<Rightarrow> ('w, 'r) goroutine)
     \<Rightarrow> ('w, 'r) goroutine" where
  "attach_internet_ues ra g i [] ues bad k = k ues"
| "attach_internet_ues ra g i (s # ss) ues bad k =
    try_world (new_subscriber_ue ra g (radio_subscriber s)) bad (\<lambda>u.
      (let rid = default_ran_id ra + int i in
       call_world (\<lambda>w. ((), add_ue ra g rid u w)) (\<lambda>_.
         try_world (register_ue ra g u rid) (\<lambda>e. bad (''internet registration: '' @ e)) (\<lambda>ses.
           attach_internet_ues ra g (Suc i) ss
             (ues @ [(internet_endpoint s,
                \<lparr>leg_ue = u, leg_gnb = g, leg_ran_id = rid, leg_session = ses\<rparr>)]) bad k))))"

section \<open>The internet session of a phone\<close>

definition web_rule :: "nat \<Rightarrow> string \<Rightarrow> policy_rule" where
  "web_rule i src = \<lparr>rule_table = 200 + i, rule_priority = 1200 + i, rule_src = src\<rparr>"

definition fallback_rule :: "nat \<Rightarrow> string \<Rightarrow> policy_rule" where
  "fallback_rule i src = \<lparr>rule_table = 400 + i, rule_priority = 1300 + i, rule_src = src\<rparr>"

definition web_tunnel :: "nat \<Rightarrow> pdu_session \<Rightarrow> tunnel" where
  "web_tunnel i ses = \<lparr>tun_ue_ipv4 = ses_ue_ipv4 ses @ ''/32'', tun_upf_address = ses_upf_address ses,
     tun_ulteid = ses_ulteid ses, tun_dlteid = ses_dlteid ses, tun_qfi = ses_qfi ses,
     tun_name = ''ellaweb'' @ itoa i\<rparr>"

text \<open>
  The tunnel of an earlier run is removed first; the routes and rules are installed in the
  source's order.  The result is the phone with its internet address and session.
\<close>

definition remove_stale_tunnel ::
  "'w radio_api \<Rightarrow> string \<Rightarrow> (string \<Rightarrow> ('w, 'r) goroutine) \<Rightarrow> ('w, 'r) goroutine \<Rightarrow> ('w, 'r) goroutine" where
  "remove_stale_tunnel ra name bad k =
    try_world (kernel ra (LinkByName name)) (\<lambda>e. k) (\<lambda>old.
      try_world (kernel ra (LinkDel old)) (\<lambda>e. bad (''remove stale UE tunnel '' @ name @ '': '' @ e)) (\<lambda>_. k))"

definition attach_internet ::
  "'w radio_api \<Rightarrow> ue_leg \<Rightarrow> dashboard_phone \<Rightarrow> nat \<Rightarrow> (string \<Rightarrow> ('w, 'r) goroutine)
     \<Rightarrow> (dashboard_phone \<Rightarrow> ('w, 'r) goroutine) \<Rightarrow> ('w, 'r) goroutine" where
  "attach_internet ra leg p i bad k =
    try_world (internet_session ra (leg_gnb leg) (leg_ue leg) (leg_ran_id leg)) bad (\<lambda>ses.
      (let src = ses_ue_ipv4 ses; name = ''ellaweb'' @ itoa i in
       call_world (kernel ra (RuleDel (web_rule i src))) (\<lambda>_.
       call_world (kernel ra (RuleDel (fallback_rule i src))) (\<lambda>_.
       remove_stale_tunnel ra name bad (
       try_world (kernel ra (AddTunnel (leg_gnb leg) (web_tunnel i ses))) bad (\<lambda>_.
       try_world (kernel ra (LinkByName name)) bad (\<lambda>link.
       try_world (kernel ra (RouteReplace (ViaLink link (200 + i)))) bad (\<lambda>_.
       try_world (kernel ra (RuleAdd (web_rule i src))) bad (\<lambda>_.
       try_world (kernel ra (RouteReplace (Unreachable (400 + i)))) bad (\<lambda>_.
       try_world (kernel ra (RuleAdd (fallback_rule i src))) bad (\<lambda>_.
       call_world (kernel ra (WatchTEID (leg_gnb leg) (ses_dlteid ses))) (\<lambda>_.
       k (p\<lparr>p_internet_ip := src, p_internet_session := ses\<rparr>)))))))))))))"

section \<open>The firewall of the remote browser\<close>

definition firewall_rules :: "string list list" where
  "firewall_rules = [[''-N'', ''ELLA_BROWSER''], [''-F'', ''ELLA_BROWSER''],
     [''-A'', ''ELLA_BROWSER'', ''-o'', ''lo'', ''-j'', ''RETURN''],
     [''-A'', ''ELLA_BROWSER'', ''-m'', ''conntrack'', ''--ctstate'', ''ESTABLISHED,RELATED'', ''-j'', ''RETURN''],
     [''-A'', ''ELLA_BROWSER'', ''-j'', ''REJECT'']]"

definition owner_match :: "string list" where
  "owner_match = [''-m'', ''owner'', ''--uid-owner'', ''1000'', ''-j'', ''ELLA_BROWSER'']"

text \<open>A command that must succeed, unless it is the one that creates the chain.\<close>

fun run_commands ::
  "'w radio_api \<Rightarrow> string \<Rightarrow> string list list \<Rightarrow> (string \<Rightarrow> ('w, 'r) goroutine) \<Rightarrow> ('w, 'r) goroutine
     \<Rightarrow> ('w, 'r) goroutine" where
  "run_commands ra firewall [] bad k = k"
| "run_commands ra firewall (args # rest) bad k =
    call_world (run_command ra firewall args) (\<lambda>(out, err). case err of
      Some e \<Rightarrow> if hd args \<noteq> ''-N'' then bad (''browser firewall: '' @ out @ '': '' @ e)
        else run_commands ra firewall rest bad k
    | None \<Rightarrow> run_commands ra firewall rest bad k)"

definition hook_chain ::
  "'w radio_api \<Rightarrow> string \<Rightarrow> (string \<Rightarrow> ('w, 'r) goroutine) \<Rightarrow> ('w, 'r) goroutine \<Rightarrow> ('w, 'r) goroutine" where
  "hook_chain ra firewall bad k =
    call_world (run_command ra firewall ([''-C'', ''OUTPUT''] @ owner_match)) (\<lambda>(_, err). case err of
      None \<Rightarrow> k
    | Some _ \<Rightarrow> call_world (run_command ra firewall ([''-I'', ''OUTPUT'', ''1''] @ owner_match)) (\<lambda>(out, err').
        case err' of None \<Rightarrow> k | Some e \<Rightarrow> bad (''browser firewall: '' @ out @ '': '' @ e)))"

fun firewall_each ::
  "'w radio_api \<Rightarrow> string list \<Rightarrow> (string \<Rightarrow> ('w, 'r) goroutine) \<Rightarrow> ('w, 'r) goroutine \<Rightarrow> ('w, 'r) goroutine" where
  "firewall_each ra [] bad k = k"
| "firewall_each ra (fw # fws) bad k =
    run_commands ra fw firewall_rules bad (hook_chain ra fw bad (firewall_each ra fws bad k))"

text \<open>The proxy belongs to the only phone of the deployment.\<close>

definition start_browser_proxy ::
  "'w radio_api \<Rightarrow> (string \<Rightarrow> ('w, 'r) goroutine) \<Rightarrow> ('w, 'r) goroutine \<Rightarrow> ('w, 'r) goroutine" where
  "start_browser_proxy ra bad k =
    read_dash (\<lambda>d. length (d_phones d)) (\<lambda>n.
      if n \<noteq> 1 then bad ''remote browser requires one UE per deployment''
      else firewall_each ra [''iptables'', ''ip6tables''] bad
        (try_world (listen_tcp ra ''127.0.0.1:1080'') bad (\<lambda>l. Go (TAccept l 0) k)))"

section \<open>Initialisation\<close>

definition fail_dash :: "'w phone_api \<Rightarrow> string \<Rightarrow> ('w, 'r option) goroutine" where
  "fail_dash api e = step_dash (\<lambda>d. ((), d\<lparr>d_problem := e\<rparr>)) (\<lambda>_. network_event api e (Ret None))"

definition no_session :: pdu_session where
  "no_session = \<lparr>ses_ue_ipv4 = [], ses_upf_address = [], ses_ulteid = 0, ses_dlteid = 0, ses_qfi = 0\<rparr>"

definition new_phone :: "environment \<Rightarrow> nat \<Rightarrow> ims_endpoint \<Rightarrow> ue_leg \<Rightarrow> nat option \<Rightarrow> dashboard_phone" where
  "new_phone env i e leg ims =
    (let configured = env ''PHONE_ID'' in
     \<lparr>p_op_locked = False,
      p_id = (if configured \<noteq> [] then configured else itoa (i + 1)),
      p_name = (if configured \<noteq> [] then env ''PHONE_NAME'' else ''Phone '' @ [char_of (65 + i)]),
      p_endpoint = e, p_access = leg_ue leg, p_leg_session = leg_session leg, p_ims = ims,
      p_call = None, p_peer = [], p_incoming = False, p_messages = [], p_tx = 0, p_rx_base = 0,
      p_rx = 0, p_error_text = [], p_web_locked = False, p_internet_ip = [],
      p_internet_session = no_session\<rparr>)"

definition add_phone :: "dashboard_phone \<Rightarrow> phone_dashboard \<Rightarrow> phone_dashboard" where
  "add_phone p d = d\<lparr>d_phones := d_phones d @ [p]\<rparr>"

text \<open>
  The IMS client of an attached UE, if the services are on; a phone is published once its
  internet session is up, and its receivers start after it.
\<close>

definition open_ims ::
  "'w phone_api \<Rightarrow> environment \<Rightarrow> ims_endpoint \<Rightarrow> (string \<Rightarrow> ('w, 'r) goroutine)
     \<Rightarrow> (nat option \<Rightarrow> ('w, 'r) goroutine) \<Rightarrow> ('w, 'r) goroutine" where
  "open_ims api env e bad k =
    (if services_enabled env then try_world (dashboard_ims (radio api) e) bad (\<lambda>u. k (Some u))
     else k None)"

definition publish_phone ::
  "'w phone_api \<Rightarrow> environment \<Rightarrow> nat \<Rightarrow> ue_leg \<Rightarrow> dashboard_phone \<Rightarrow> ('w, 'r) goroutine \<Rightarrow> ('w, 'r) goroutine" where
  "publish_phone api env i leg p k =
    call_world (kernel (radio api) (WatchTEID (leg_gnb leg) (ses_dlteid (leg_session leg)))) (\<lambda>_.
      step_dash (\<lambda>d. ((), add_phone p d)) (\<lambda>_.
        if services_enabled env
        then emit_event api i ''5G attached; internet and IMS PDU sessions established''
          (Go (TSms i) (Go (TCalls i) k))
        else emit_event api i ''5G attached; internet-only PDU session established'' k))"

fun bring_up ::
  "'w phone_api \<Rightarrow> environment \<Rightarrow> nat \<Rightarrow> (ims_endpoint \<times> ue_leg) list \<Rightarrow> (string \<Rightarrow> ('w, 'r) goroutine)
     \<Rightarrow> ('w, 'r) goroutine \<Rightarrow> ('w, 'r) goroutine" where
  "bring_up api env i [] bad k = k"
| "bring_up api env i ((e, leg) # ues) bad k =
    open_ims api env e bad (\<lambda>ims.
      (let p = new_phone env i e leg ims in
       attach_internet (radio api) leg p i
         (\<lambda>err. bad (''internet session for '' @ p_name p @ '': '' @ err)) (\<lambda>p'.
           publish_phone api env i leg p' (bring_up api env (Suc i) ues bad k))))"

definition subscribers :: "'w radio_api \<Rightarrow> subscriber_spec list" where
  "subscribers ra = [ims_subscriber ra ''001018400000003'' ''+15558400003'',
     ims_subscriber ra ''001018400000004'' ''+15558400004'']"

definition attach_ues ::
  "'w radio_api \<Rightarrow> environment \<Rightarrow> gnb_env \<Rightarrow> nat \<Rightarrow> (string \<Rightarrow> ('w, 'r) goroutine)
     \<Rightarrow> ((ims_endpoint \<times> ue_leg) list \<Rightarrow> ('w, 'r) goroutine) \<Rightarrow> ('w, 'r) goroutine" where
  "attach_ues ra env genv g bad k =
    (let subs = selected_subscribers env (subscribers ra) in
     if services_enabled env then try_world (attach_ims_ues ra genv g subs) bad k
     else attach_internet_ues ra g 0 subs [] bad k)"

definition ready_dash :: "'w phone_api \<Rightarrow> environment \<Rightarrow> ('w, 'r option) goroutine" where
  "ready_dash api env = step_dash (\<lambda>d. ((), d\<lparr>d_ready := True\<rparr>)) (\<lambda>_.
     network_event api
       (if services_enabled env
        then ''UE ready. Register IMS to make calls; NAS SMS is available immediately.''
        else ''Internet-only UE ready; IMS and SMS disabled.'') (Ret None))"

definition initialize :: "'w phone_api \<Rightarrow> environment \<Rightarrow> ('w, 'r option) goroutine" where
  "initialize api env =
    (let ra = radio api; genv = gnb_environment env; bad = fail_dash api in
     start_phone_gnb ra env genv bad (\<lambda>g.
       attach_ues ra env genv g (\<lambda>e. call_world (\<lambda>w. ((), gnb_close ra g w)) (\<lambda>_. bad e)) (\<lambda>ues.
         bring_up api env 0 ues bad
           (if env ''BROWSER_ENABLED'' = ''true''
            then start_browser_proxy ra bad (ready_dash api env)
            else ready_dash api env))))"

text \<open>The dashboard that \<open>ServePhones\<close> creates.\<close>

definition new_dashboard :: phone_dashboard where
  "new_dashboard = \<lparr>d_phones = [], d_events = [], d_ready = False, d_problem = [], d_next = 0\<rparr>"

end
