(* ===== verification/Rtp.thy ===== *)
theory Rtp
  imports Prelude
begin

text \<open>
  The synthetic RTP packet of the media loop (\<open>media\<close> in \<^verbatim>\<open>server.go\<close>): 32 bytes with
  version and payload type, a 16-bit sequence number, a 32-bit timestamp and a source
  identifier, all big-endian, and the counters that advance after each packet.
\<close>

section \<open>Big-endian integers (\<open>encoding/binary\<close>)\<close>

definition put_u16 :: "u16 \<Rightarrow> bytes" where
  "put_u16 x = [ucast (drop_bit 8 x), ucast x]"

definition put_u32 :: "u32 \<Rightarrow> bytes" where
  "put_u32 x = [ucast (drop_bit 24 x), ucast (drop_bit 16 x), ucast (drop_bit 8 x), ucast x]"

fun get_uint :: "bytes \<Rightarrow> nat" where
  "get_uint [] = 0"
| "get_uint (b # bs) = unat b * 256 ^ length bs + get_uint bs"

text \<open>Overwriting a slice of a byte array.\<close>

definition put_at :: "nat \<Rightarrow> bytes \<Rightarrow> bytes \<Rightarrow> bytes" where
  "put_at i bs packet = take i packet @ bs @ drop (i + length bs) packet"

section \<open>The packet\<close>

definition rtp_packet :: "u16 \<Rightarrow> u32 \<Rightarrow> bytes" where
  "rtp_packet seq stamp =
    put_at 8 (put_u32 1) (put_at 4 (put_u32 stamp) (put_at 2 (put_u16 seq)
      ((replicate 32 0)[0 := 0x80, 1 := 116])))"

text \<open>What a receiver reads back: version, payload type, sequence number, timestamp, source.\<close>

definition rtp_version :: "bytes \<Rightarrow> nat" where
  "rtp_version p = unat (p ! 0) div 64"

definition rtp_payload_type :: "bytes \<Rightarrow> nat" where
  "rtp_payload_type p = unat (p ! 1) mod 128"

definition rtp_sequence :: "bytes \<Rightarrow> nat" where
  "rtp_sequence p = get_uint (take 2 (drop 2 p))"

definition rtp_timestamp :: "bytes \<Rightarrow> nat" where
  "rtp_timestamp p = get_uint (take 4 (drop 4 p))"

definition rtp_ssrc :: "bytes \<Rightarrow> nat" where
  "rtp_ssrc p = get_uint (take 4 (drop 8 p))"

definition next_packet :: "u16 \<times> u32 \<Rightarrow> u16 \<times> u32" where
  "next_packet c = (case c of (seq, stamp) \<Rightarrow> (seq + 1, stamp + 320))"

section \<open>Reading back what was written\<close>

lemma length_put [simp]: "length (put_u16 x) = 2" "length (put_u32 y) = 4"
  by (simp_all add: put_u16_def put_u32_def)

lemma unat_byte:
  fixes x :: "'a::len word"
  assumes "8 \<le> LENGTH('a)"
  shows "unat (ucast (drop_bit n x) :: u8) = unat x div 2 ^ n mod 256"
proof -
  have "unat (ucast (drop_bit n x) :: u8) = take_bit 8 (unat (drop_bit n x))"
    by (simp add: unsigned_ucast_eq)
  also have "unat (drop_bit n x) = drop_bit n (unat x)" by (rule unat_drop_bit_eq)
  finally show ?thesis by (simp add: take_bit_eq_mod drop_bit_eq_div)
qed

lemma get_put_u16: "get_uint (put_u16 x) = unat x"
proof -
  have b: "unat x < 2 ^ LENGTH(16)" by (rule unsigned_less)
  have "unat (ucast x :: u8) = unat x mod 256" using unat_byte [of 0 x] by simp
  moreover have "unat (ucast (drop_bit 8 x) :: u8) = unat x div 256 mod 256" using unat_byte [of 8 x] by simp
  moreover have "unat x div 256 mod 256 = unat x div 256" using b by simp
  ultimately show ?thesis by (simp add: put_u16_def div_mult_mod_eq)
qed

lemma get_put_u32: "get_uint (put_u32 x) = unat x"
proof -
  let ?n = "unat x"
  have "?n < 2 ^ LENGTH(32)" by (rule unsigned_less)
  then have top: "?n div 2 ^ 24 mod 256 = ?n div 2 ^ 24" by simp
  have e: "unat (ucast x :: u8) = ?n mod 256" using unat_byte [of 0 x] by simp
  have b: "unat (ucast (drop_bit k x) :: u8) = ?n div 2 ^ k mod 256" for k by (rule unat_byte) simp
  have poly: "a * 256 ^ 3 + b * 256 ^ 2 + c * 256 + d = ((a * 256 + b) * 256 + c) * 256 + d"
    for a b c d :: nat by (simp add: algebra_simps)
  have s: "?n div 2 ^ 24 = ?n div 2 ^ 16 div 256" "?n div 2 ^ 16 = ?n div 2 ^ 8 div 256"
    by (simp_all flip: div_mult2_eq)
  have "get_uint (put_u32 x) = ?n div 2 ^ 24 * 256 ^ 3 + (?n div 2 ^ 16 mod 256) * 256 ^ 2
      + (?n div 2 ^ 8 mod 256) * 256 + ?n mod 256"
    using top e b [of 24] b [of 16] b [of 8] by (simp add: put_u32_def)
  also have "\<dots> = ((?n div 2 ^ 16 div 256 * 256 + ?n div 2 ^ 16 mod 256) * 256 + ?n div 2 ^ 8 mod 256) * 256
      + ?n mod 256" by (simp only: s(1) poly)
  also have "\<dots> = (?n div 2 ^ 16 * 256 + ?n div 2 ^ 8 mod 256) * 256 + ?n mod 256"
    by (simp only: div_mult_mod_eq)
  also have "\<dots> = (?n div 2 ^ 8) * 256 + ?n mod 256" by (simp only: s(2) div_mult_mod_eq)
  also have "\<dots> = ?n" by (simp add: div_mult_mod_eq)
  finally show ?thesis .
qed

lemma rtp_packet_bytes:
  "rtp_packet seq stamp = [0x80, 116] @ put_u16 seq @ put_u32 stamp @ put_u32 1 @ replicate 20 0"
  by (simp add: rtp_packet_def put_at_def put_u16_def put_u32_def numeral_eq_Suc)

lemma rtp_packet_fields:
  "length (rtp_packet seq stamp) = 32"
  "rtp_version (rtp_packet seq stamp) = 2"
  "rtp_payload_type (rtp_packet seq stamp) = 116"
  "rtp_sequence (rtp_packet seq stamp) = unat seq"
  "rtp_timestamp (rtp_packet seq stamp) = unat stamp"
  "rtp_ssrc (rtp_packet seq stamp) = 1"
proof -
  show "length (rtp_packet seq stamp) = 32" by (simp add: rtp_packet_bytes)
  show "rtp_version (rtp_packet seq stamp) = 2" "rtp_payload_type (rtp_packet seq stamp) = 116"
    by (simp_all add: rtp_packet_bytes rtp_version_def rtp_payload_type_def)
  have "take 2 (drop 2 (rtp_packet seq stamp)) = put_u16 seq"
    "take 4 (drop 4 (rtp_packet seq stamp)) = put_u32 stamp"
    "take 4 (drop 8 (rtp_packet seq stamp)) = put_u32 1"
    by (simp_all add: rtp_packet_bytes)
  then show "rtp_sequence (rtp_packet seq stamp) = unat seq"
    "rtp_timestamp (rtp_packet seq stamp) = unat stamp" "rtp_ssrc (rtp_packet seq stamp) = 1"
    by (simp_all add: rtp_sequence_def rtp_timestamp_def rtp_ssrc_def get_put_u16 get_put_u32)
qed

text \<open>The counters of packet \<open>n\<close>, with the wrap-around of their widths.\<close>

lemma next_packet_counters:
  "(next_packet ^^ n) (0, 0) = (word_of_nat n, word_of_nat (320 * n))"
  by (induction n) (simp_all add: next_packet_def algebra_simps)

end
