(* ===== verification/Socks.thy ===== *)
theory Socks
  imports Phone_Api Rtp
begin

text \<open>
  The SOCKS5 proxy of the remote browser (\<open>socks\<close> in \<^verbatim>\<open>browser.go\<close>): one goroutine per
  connection.  Only CONNECT without authentication, to an IPv4 address or a name, on port
  80 or 443; the destination is dialled by the phone's own web client.
\<close>

section \<open>The conversation\<close>

definition close_socks :: "'w phone_api \<Rightarrow> nat \<Rightarrow> ('w, task option) goroutine" where
  "close_socks api c = call_world (\<lambda>w. ((), close_conn (conns api) c w)) (\<lambda>_. Ret None)"

definition socks_write :: "'w phone_api \<Rightarrow> nat \<Rightarrow> bytes \<Rightarrow> ('w, 'r) goroutine \<Rightarrow> ('w, 'r) goroutine" where
  "socks_write api c bs k = call_world (\<lambda>w. ((), write_conn (conns api) c bs w)) (\<lambda>_. k)"

text \<open>Read exactly \<open>n\<close> bytes; if they do not come, the connection is closed.\<close>

definition socks_read ::
  "'w phone_api \<Rightarrow> nat \<Rightarrow> nat \<Rightarrow> (bytes \<Rightarrow> ('w, task option) goroutine) \<Rightarrow> ('w, task option) goroutine" where
  "socks_read api c n k = wait_world (read_full (conns api) c n) (\<lambda>r. case r of
     None \<Rightarrow> close_socks api c | Some bs \<Rightarrow> k bs)"

definition reply :: "u8 \<Rightarrow> bytes" where
  "reply code = [5, code, 0, 1, 0, 0, 0, 0, 0, 0]"

text \<open>\<open>net.IP(b).String()\<close> for four bytes.\<close>

definition ipv4_text :: "bytes \<Rightarrow> string" where
  "ipv4_text b = join ''.'' (map (\<lambda>x. itoa (unat x)) b)"

definition text_of :: "bytes \<Rightarrow> string" where
  "text_of bs = map (\<lambda>b. char_of (unat b)) bs"

definition socks_host ::
  "'w phone_api \<Rightarrow> nat \<Rightarrow> u8 \<Rightarrow> (string \<Rightarrow> ('w, task option) goroutine) \<Rightarrow> ('w, task option) goroutine" where
  "socks_host api c kind k =
    (if kind = 1 then socks_read api c 4 (\<lambda>b. k (ipv4_text b))
     else if kind = 3 then socks_read api c 1 (\<lambda>n. socks_read api c (unat (n ! 0)) (\<lambda>b. k (text_of b)))
     else close_socks api c)"

definition socks_connect ::
  "'w phone_api \<Rightarrow> nat \<Rightarrow> nat \<Rightarrow> string \<Rightarrow> nat \<Rightarrow> ('w, task option) goroutine" where
  "socks_connect api c i host port =
    read_phone i p_internet_ip (\<lambda>ip.
      try_world (dial_context (net api) ip (join_host_port host (itoa port)))
        (\<lambda>e. socks_write api c (reply 4) (close_socks api c))
        (\<lambda>u. socks_write api c (reply 0)
          (emit_event api i (''Chromium via UE '' @ ip @ '': '' @ host)
            (wait_world (relay (conns api) c u) (\<lambda>_. close_socks api c)))))"

definition socks_request :: "'w phone_api \<Rightarrow> nat \<Rightarrow> nat \<Rightarrow> ('w, task option) goroutine" where
  "socks_request api c i =
    socks_read api c 4 (\<lambda>h.
      if h ! 0 \<noteq> 5 \<or> h ! 1 \<noteq> 1 then close_socks api c
      else socks_host api c (h ! 3) (\<lambda>host.
        socks_read api c 2 (\<lambda>pb.
          (let port = get_uint pb in
           if port \<noteq> 80 \<and> port \<noteq> 443 then socks_write api c (reply 2) (close_socks api c)
           else socks_connect api c i host port))))"

definition socks :: "'w phone_api \<Rightarrow> nat \<Rightarrow> nat \<Rightarrow> ('w, task option) goroutine" where
  "socks api c i =
    socks_read api c 2 (\<lambda>g.
      if g ! 0 \<noteq> 5 then close_socks api c
      else socks_read api c (unat (g ! 1)) (\<lambda>methods.
        if 0 \<notin> set methods then socks_write api c [5, 255] (close_socks api c)
        else socks_write api c [5, 0] (socks_request api c i)))"

text \<open>The accept loop; an error of the listener ends it.\<close>

definition accept_loop :: "'w phone_api \<Rightarrow> nat \<Rightarrow> nat \<Rightarrow> ('w, task option) goroutine" where
  "accept_loop api l i =
    wait_world (accept_conn (conns api) l) (\<lambda>r. case r of
      None \<Rightarrow> Ret None | Some c \<Rightarrow> Go (TSocks c i) (Ret (Some (TAccept l i))))"

end
