(* ===== verification/Browse.thy ===== *)
theory Browse
  imports Phone_Api
begin

text \<open>
  The web handlers: \<open>browse\<close> of \<^verbatim>\<open>browse.go\<close>, which fetches a page through a phone, and the
  routes of \<open>browserRoutes\<close> (\<^verbatim>\<open>browser.go\<close>), which drive the remote browser.
\<close>

section \<open>Fetching a page\<close>

record browse_req =
  b_phone :: string
  b_url :: string

definition decode_browse :: "'w phone_api \<Rightarrow> http_request \<Rightarrow> browse_req option" where
  "decode_browse api req =
    (case json_value api (take 4096 (rq_body req)) of
       None \<Rightarrow> None
     | Some v \<Rightarrow> map_option (\<lambda>m. \<lparr>b_phone = field m ''phone'', b_url = field m ''url''\<rparr>)
         (decode_object True [''phone'', ''url''] v))"

text \<open>\<open>webMu\<close> serialises the fetches of a phone.\<close>

definition lock_web :: "nat \<Rightarrow> ('w, 'r) goroutine \<Rightarrow> ('w, 'r) goroutine" where
  "lock_web i k = await (\<lambda>s. if length (d_phones (dash s)) \<le> i \<or> p_web_locked (d_phones (dash s) ! i) then None
     else Some ((), s\<lparr>dash := upd_phone i (p_web_locked_update (\<lambda>_. True)) (dash s)\<rparr>)) (\<lambda>_. k)"

definition unlock_web :: "nat \<Rightarrow> ('w, 'r) goroutine \<Rightarrow> ('w, 'r) goroutine" where
  "unlock_web i k = set_phone i (p_web_locked_update (\<lambda>_. False)) k"

definition page_limit :: nat where
  "page_limit = 1024 * 1024"

text \<open>What is shown of a page: title, text, markup and links.\<close>

definition render_page ::
  "html_api \<Rightarrow> string \<Rightarrow> string \<Rightarrow> url \<Rightarrow> string \<times> string \<times> string \<times> web_link list option" where
  "render_page api kind body base =
    (case reader api body base of (title, text, links) \<Rightarrow>
       if contains kind ''text/plain''
       then (url_hostname base, body, ''<pre>'' @ escape_html api body @ ''</pre>'', links)
       else (title, text, mobile_reader api body base, links))"

definition links_json :: "web_link list option \<Rightarrow> json" where
  "links_json links = (case links of
     None \<Rightarrow> JNull
   | Some ls \<Rightarrow> JArr (map (\<lambda>l. JObj [(''text'', JStr (wl_text l)), (''url'', JStr (wl_url l))]) ls))"

definition page_json ::
  "url \<Rightarrow> string \<times> string \<times> string \<times> web_link list option \<Rightarrow> nat \<Rightarrow> nat \<Rightarrow> int \<Rightarrow> dashboard_phone \<Rightarrow> json" where
  "page_json u page status bytes ms p =
    (case page of (title, text, markup, links) \<Rightarrow>
       JObj [(''bytes'', JNum (int bytes)),
         (''downlinkTeid'', JNum (uint (ses_dlteid (p_internet_session p)))),
         (''durationMs'', JNum ms), (''html'', JStr markup), (''links'', links_json links),
         (''status'', JNum (int status)), (''text'', JStr text), (''title'', JStr title),
         (''ueIp'', JStr (p_internet_ip p)),
         (''uplinkTeid'', JNum (uint (ses_ulteid (p_internet_session p)))),
         (''url'', JStr (url_string u))])"

definition err_page :: string where
  "err_page = ''page exceeds the 1 MiB reader limit or could not be read''"

text \<open>After the exchange; times are in nanoseconds.\<close>

definition show_page ::
  "'w phone_api \<Rightarrow> nat \<Rightarrow> int \<Rightarrow> url \<Rightarrow> web_response \<Rightarrow> ('w, http_response) goroutine" where
  "show_page api i t0 u r =
    (case wr_body r of
       None \<Rightarrow> Ret (json_error 502 err_page)
     | Some body \<Rightarrow>
         (let kind = wr_content_type r in
          if page_limit < length body then Ret (json_error 502 err_page)
          else if \<not> contains kind ''text/html'' \<and> \<not> contains kind ''text/plain''
          then Ret (json_error 415 ''reader supports HTML and plain text pages'')
          else emit_event api i (''UE internet: '' @ url_hostname u @ '' returned HTTP ''
                 @ itoa (wr_status r) @ '' ('' @ itoa (length body) @ '' bytes)'')
            (call_world (now api) (\<lambda>t. read_phone i (\<lambda>p. p) (\<lambda>p.
               Ret (json_reply 200 (page_json u (render_page (html api) kind body u) (wr_status r)
                 (length body) ((t - t0) div 1000000) p)))))))"

definition fetch_page :: "'w phone_api \<Rightarrow> nat \<Rightarrow> url \<Rightarrow> url \<Rightarrow> ('w, http_response) goroutine" where
  "fetch_page api i u ru =
    call_world (now api) (\<lambda>t0. read_phone i p_internet_ip (\<lambda>ip.
      call_world (client_do (net api) ip 0 ru) (\<lambda>res. case res of
        Inl e \<Rightarrow> emit_event api i (''UE browse failed for '' @ url_hostname u) (Ret (json_error 502 e))
      | Inr (u', r) \<Rightarrow> show_page api i t0 u' r)))"

text \<open>
  The reply carries the client's error without the operation and URL that the client puts
  before it.  A URL that parses once but not again would be a panic of the handler, for
  which the server closes the connection.
\<close>

definition aborted :: http_response where
  "aborted = \<lparr>rs_code = 0, rs_content_type = [], rs_body = Plain []\<rparr>"

definition browse_ready :: "string \<Rightarrow> phone_dashboard \<Rightarrow> nat option" where
  "browse_ready phone d =
    (case find_phone 0 (d_phones d) phone None of
       None \<Rightarrow> None
     | Some i \<Rightarrow> if \<not> d_ready d \<or> p_internet_ip (d_phones d ! i) = [] then None else Some i)"

definition browse_handler :: "'w phone_api \<Rightarrow> http_request \<Rightarrow> ('w, http_response) goroutine" where
  "browse_handler api req =
    (if \<not> same_origin req then Ret (http_error ''same-origin requests only'' 403)
     else (case decode_browse api req of
        None \<Rightarrow> Ret (http_error ''invalid request'' 400)
      | Some b \<Rightarrow>
          (case public_web_url (b_url b) of
             Inl e \<Rightarrow> Ret (json_error 400 e)
           | Inr u \<Rightarrow>
               read_dash (browse_ready (b_phone b)) (\<lambda>found. case found of
                 None \<Rightarrow> Ret (json_error 409 ''UE internet session is not ready'')
               | Some i \<Rightarrow>
                   lock_web i (bindp
                     (case request_url (url_string u) of
                        None \<Rightarrow> Ret aborted | Some ru \<Rightarrow> fetch_page api i u ru)
                     (\<lambda>resp. unlock_web i (Ret resp)))))))"

section \<open>The remote browser\<close>

definition browser_info :: "environment \<Rightarrow> http_response" where
  "browser_info env = json_reply 200 (JObj [(''enabled'', JBool (env ''BROWSER_ENABLED'' = ''true'')),
     (''version'', JStr (env ''BROWSER_VIEWER_VERSION''))])"

text \<open>
  The viewer behind \<^verbatim>\<open>/browser/\<close>: the request that goes to the local server, without the
  prefix and the conditional headers, or the refusal; and its response, never cached.
\<close>

definition viewer_request :: "http_request \<Rightarrow> http_response + http_request" where
  "viewer_request req =
    (if \<not> same_origin req then Inl (http_error ''same-origin requests only'' 403)
     else Inr (req\<lparr>rq_path := drop (length ''/browser'') (rq_path req),
       rq_header := header_del (header_del (rq_header req) ''If-Modified-Since'') ''If-None-Match''\<rparr>))"

definition viewer_response :: "header \<Rightarrow> header" where
  "viewer_response h =
    header_del (header_del (header_set h ''Cache-Control'' ''no-store'') ''Last-Modified'') ''ETag''"

definition mobile_agent :: string where
  "mobile_agent = ''Mozilla/5.0 (Linux; Android 14; Mobile) AppleWebKit/537.36 (KHTML, like Gecko) Chrome/130.0.0.0 Mobile Safari/537.36''"

definition navigate_commands :: "url \<Rightarrow> (nat \<times> json) list" where
  "navigate_commands u = map (\<lambda>(i, name, params).
       (i, JObj [(''id'', JNum (int i)), (''method'', JStr name), (''params'', JObj params)]))
     [(1, ''Emulation.setDeviceMetricsOverride'', [(''deviceScaleFactor'', JNum 1), (''height'', JNum 900),
         (''mobile'', JBool True), (''width'', JNum 500)]),
      (2, ''Emulation.setTouchEmulationEnabled'', [(''enabled'', JBool True)]),
      (3, ''Network.setUserAgentOverride'', [(''userAgent'', JStr mobile_agent)]),
      (4, ''Page.navigate'', [(''url'', JStr (url_string u))])]"

text \<open>
  The receive loop: messages that do not answer the command are dropped.  It may never end,
  which is \<open>None\<close>, and then the handler waits.
\<close>

partial_function (option) receive_answer ::
  "'w chromium_api \<Rightarrow> nat \<Rightarrow> nat \<Rightarrow> 'w \<Rightarrow> ((string + (string \<rightharpoonup> json)) \<times> 'w) option" where
  "receive_answer ch ws i w =
    (case ws_receive ch ws w of
       (Inl e, w') \<Rightarrow> Some (Inl e, w')
     | (Inr m, w') \<Rightarrow> if m ''id'' = Some (JNum (int i)) then Some (Inr m, w') else receive_answer ch ws i w')"

text \<open>The error of an answer: a member \<^verbatim>\<open>error\<close> that is not null.\<close>

definition answer_error :: "'w chromium_api \<Rightarrow> (string \<rightharpoonup> json) \<Rightarrow> string option" where
  "answer_error ch m = (case m ''error'' of
     None \<Rightarrow> None | Some JNull \<Rightarrow> None | Some v \<Rightarrow> Some (sprint ch v))"

fun run_devtools ::
  "'w chromium_api \<Rightarrow> nat \<Rightarrow> (nat \<times> json) list \<Rightarrow> (http_response \<Rightarrow> ('w, 'r) goroutine) \<Rightarrow> ('w, 'r) goroutine" where
  "run_devtools ch ws [] k = k (json_reply 200 (JObj [(''ok'', JBool True)]))"
| "run_devtools ch ws ((i, c) # cs) k =
    call_world (ws_send ch ws c) (\<lambda>err. case err of
      Some e \<Rightarrow> k (http_error e 502)
    | None \<Rightarrow> wait_world (receive_answer ch ws i) (\<lambda>r. case r of
        Inl e \<Rightarrow> k (http_error e 502)
      | Inr m \<Rightarrow> (case answer_error ch m of
          Some e \<Rightarrow> k (http_error e 502)
        | None \<Rightarrow> run_devtools ch ws cs k)))"

definition decode_navigate :: "'w phone_api \<Rightarrow> http_request \<Rightarrow> string option" where
  "decode_navigate api req =
    (case json_value api (take 4096 (rq_body req)) of
       None \<Rightarrow> None
     | Some v \<Rightarrow> map_option (\<lambda>m. field m ''url'') (decode_object False [''url''] v))"

text \<open>The first page that Chromium lists is the one that navigates.\<close>

definition navigate_handler ::
  "'w phone_api \<Rightarrow> environment \<Rightarrow> http_request \<Rightarrow> ('w, http_response) goroutine" where
  "navigate_handler api env req =
    (let ch = chromium api in
     if env ''BROWSER_ENABLED'' \<noteq> ''true'' then Ret (http_error ''browser disabled'' 409)
     else if \<not> same_origin req then Ret (http_error ''same-origin requests only'' 403)
     else (case decode_navigate api req of
        None \<Rightarrow> Ret (http_error ''invalid request'' 400)
      | Some raw \<Rightarrow>
          (case public_web_url raw of
             Inl e \<Rightarrow> Ret (http_error e 400)
           | Inr u \<Rightarrow>
               call_world (list_tabs ch) (\<lambda>tabs. case tabs of
                 None \<Rightarrow> Ret (http_error ''Chromium is starting; try again'' 503)
               | Some ts \<Rightarrow>
                   (case find (\<lambda>t. tab_type t = ''page'') ts of
                      None \<Rightarrow> Ret (http_error ''Chromium page is not ready'' 503)
                    | Some t \<Rightarrow>
                        try_world (ws_dial ch (tab_debugger_url t)) (\<lambda>e. Ret (http_error e 502)) (\<lambda>ws.
                          run_devtools ch ws (navigate_commands u) (\<lambda>resp.
                            call_world (\<lambda>w. ((), ws_close ch ws w)) (\<lambda>_. Ret resp))))))))"

end
