(* ===== verification/Dashboard.thy ===== *)
theory Dashboard
  imports Attach Socks Browse
begin

text \<open>
  The goroutines of \<^verbatim>\<open>server.go\<close> and \<^verbatim>\<open>phone_gnb.go\<close>: the action handler, the receivers
  of messages and calls, the media loop, the delivery tracker and the state page.  Each is
  a program over the shared state whose atomic actions are the sections the source runs
  under a mutex and the calls it makes outside.
\<close>

section \<open>The action handler\<close>

record action_req =
  a_phone :: string
  a_action :: string
  a_to :: string
  a_text :: string

text \<open>The decoder sees at most 4096 bytes of the body.\<close>

definition decode_action :: "'w phone_api \<Rightarrow> http_request \<Rightarrow> action_req option" where
  "decode_action api req =
    (case json_value api (take 4096 (rq_body req)) of
       None \<Rightarrow> None
     | Some v \<Rightarrow> map_option
         (\<lambda>m. \<lparr>a_phone = field m ''phone'', a_action = field m ''action'', a_to = field m ''to'',
            a_text = field m ''text''\<rparr>)
         (decode_object True [''phone'', ''action'', ''to'', ''text''] v))"

definition err_length :: string where
  "err_length = ''enter 1'' @ [CHR 0xE2, CHR 0x80, CHR 0x93] @ ''70 characters''"

definition err_recipient :: string where
  "err_recipient = ''recipient must be an international number''"

text \<open>The actions; the result of each is its error, if any.\<close>

text \<open>\<open>call != nil && call.State() != testue.CallTerminated\<close>.\<close>

definition if_call_active ::
  "'w phone_api \<Rightarrow> nat option \<Rightarrow> (bool \<Rightarrow> ('w, 'r) goroutine) \<Rightarrow> ('w, 'r) goroutine" where
  "if_call_active api call k = (case call of
     None \<Rightarrow> k False
   | Some c \<Rightarrow> ask_world (\<lambda>w. call_status api c w \<noteq> CallTerminated) k)"

text \<open>A method of the phone's IMS client.\<close>

definition on_ims ::
  "nat \<Rightarrow> (nat option \<Rightarrow> 'w \<Rightarrow> 'a \<times> 'w) \<Rightarrow> ('a \<Rightarrow> ('w, 'r) goroutine) \<Rightarrow> ('w, 'r) goroutine" where
  "on_ims i f k = read_phone i p_ims (\<lambda>ims. call_world (f ims) k)"

definition do_register :: "'w phone_api \<Rightarrow> nat \<Rightarrow> ('w, string option) goroutine" where
  "do_register api i = on_ims i (ims_register api) Ret"

definition do_unregister :: "'w phone_api \<Rightarrow> nat \<Rightarrow> nat option \<Rightarrow> ('w, string option) goroutine" where
  "do_unregister api i call =
    if_call_active api call (\<lambda>active.
      if active then Ret (Some ''hang up before unregistering'')
      else on_ims i (ims_deregister api) Ret)"

text \<open>The status of a submitted message, unless it has been delivered meanwhile.\<close>

definition set_status :: "u64 \<Rightarrow> string \<Rightarrow> dashboard_phone \<Rightarrow> dashboard_phone" where
  "set_status mid status p = p\<lparr>p_messages := map
     (\<lambda>m. if m_id m = mid \<and> m_status m \<noteq> delivered then m\<lparr>m_status := status\<rparr> else m) (p_messages p)\<rparr>"

text \<open>A report that rejects the message overrides the transport's error.\<close>

definition submit_error :: "rp_report option \<times> string option \<Rightarrow> string option" where
  "submit_error r = (case r of
     (Some (RPError cause), e) \<Rightarrow> Some (''SMS rejected: '' @ cause)
   | (_, e) \<Rightarrow> e)"

definition do_sms ::
  "'w phone_api \<Rightarrow> environment \<Rightarrow> nat \<Rightarrow> action_req \<Rightarrow> ('w, string option) goroutine" where
  "do_sms api env i req =
    (if rune_count (a_text req) = 0 \<or> 70 < rune_count (a_text req) then Ret (Some err_length)
     else if \<not> valid_phone_number (a_to req) then Ret (Some err_recipient)
     else step_dash next_id (\<lambda>mid.
       timed_dash api (\<lambda>t. upd_phone i (add_message
         \<lparr>m_id = mid, m_direction = sent, m_peer = a_to req, m_text = a_text req,
          m_status = submitting, m_at = t\<rparr>))
       (read_phone i p_access (\<lambda>ue.
         call_world (sms_submit api ue ''+15550000000'' (a_to req) (a_text req)) (\<lambda>report.
           (let err = submit_error report;
                status = (if err \<noteq> None then failed else accepted) in
            set_phone i (set_status mid status)
              (if err = None \<and> env ''PEER_URL'' \<noteq> []
               then Go (TTrack i mid (a_text req) (a_to req) 0) (Ret err)
               else Ret err)))))))"

text \<open>A call becomes the phone's call, with its counters at zero.\<close>

definition start_call :: "nat \<Rightarrow> bool \<Rightarrow> string \<Rightarrow> dashboard_phone \<Rightarrow> dashboard_phone" where
  "start_call c incoming peer p =
    p\<lparr>p_call := Some c, p_incoming := incoming, p_peer := peer, p_tx := 0, p_rx_base := 0, p_rx := 0\<rparr>"

definition do_call ::
  "'w phone_api \<Rightarrow> nat \<Rightarrow> nat option \<Rightarrow> action_req \<Rightarrow> ('w, string option) goroutine" where
  "do_call api i call req =
    if_call_active api call (\<lambda>active.
      if active then Ret (Some ''a call is already active'')
      else if \<not> valid_phone_number (a_to req) then Ret (Some err_recipient)
      else on_ims i (\<lambda>ims. ims_invite api ims (''tel:'' @ a_to req)) (\<lambda>r. case r of
          Inl e \<Rightarrow> Ret (Some e)
        | Inr c \<Rightarrow> set_phone i (start_call c False (a_to req)) (Go (TMedia i c 0 0 0) (Ret None))))"

definition do_answer ::
  "'w phone_api \<Rightarrow> nat option \<Rightarrow> ('w, string option) goroutine" where
  "do_answer api call = (case call of
     None \<Rightarrow> Ret (Some ''no incoming call'')
   | Some c \<Rightarrow> ask_world (call_incoming api c) (\<lambda>incoming.
       if \<not> incoming then Ret (Some ''no incoming call'') else call_world (call_answer api c) Ret))"

text \<open>Each test of the call's state asks again, as the source does.\<close>

definition do_hangup ::
  "'w phone_api \<Rightarrow> nat option \<Rightarrow> ('w, string option) goroutine" where
  "do_hangup api call = (case call of
     None \<Rightarrow> Ret (Some ''no active call'')
   | Some c \<Rightarrow> ask_world (call_status api c) (\<lambda>st.
       if st = CallTerminated then Ret (Some ''no active call'')
       else ask_world (call_status api c) (\<lambda>st'.
         if st' = CallConfirmed then call_world (call_bye api c) Ret
         else ask_world (call_incoming api c) (\<lambda>incoming.
           if incoming then call_world (call_reject api c 486) Ret
           else call_world (call_cancel api c) Ret))))"

text \<open>The end of every known action: the phone's error line, an event and the reply.\<close>

definition finish_action ::
  "'w phone_api \<Rightarrow> nat \<Rightarrow> string \<Rightarrow> string option \<Rightarrow> ('w, http_response) goroutine" where
  "finish_action api i action err =
    set_phone i (p_error_text_update (\<lambda>_. case err of None \<Rightarrow> [] | Some e \<Rightarrow> e))
      (case err of
         Some e \<Rightarrow> emit_event api i (action @ '': '' @ e) (Ret (json_error 409 e))
       | None \<Rightarrow> emit_event api i (action @ '' succeeded'')
           (Ret (json_reply 200 (JObj [(''ok'', JBool True)]))))"

text \<open>The switch over the action; an unknown one ends the handler.\<close>

definition known_action :: "string \<Rightarrow> bool" where
  "known_action a \<longleftrightarrow> a \<in> {''register'', ''unregister'', ''sms'', ''call'', ''answer'', ''hangup''}"

definition perform ::
  "'w phone_api \<Rightarrow> environment \<Rightarrow> nat \<Rightarrow> action_req \<Rightarrow> nat option \<Rightarrow> ('w, string option) goroutine" where
  "perform api env i req call =
    (if a_action req = ''register'' then do_register api i
     else if a_action req = ''unregister'' then do_unregister api i call
     else if a_action req = ''sms'' then do_sms api env i req
     else if a_action req = ''call'' then do_call api i call req
     else if a_action req = ''answer'' then do_answer api call
     else do_hangup api call)"

definition dispatch ::
  "'w phone_api \<Rightarrow> environment \<Rightarrow> nat \<Rightarrow> action_req \<Rightarrow> nat option \<Rightarrow> ('w, http_response) goroutine" where
  "dispatch api env i req call =
    (if known_action (a_action req)
     then bindp (perform api env i req call) (finish_action api i (a_action req))
     else Ret (http_error ''unknown action'' 400))"

definition not_ready :: http_response where
  "not_ready = http_error ''UE not ready'' 409"

definition services_off :: http_response where
  "services_off = json_error 403 ''IMS and SMS are disabled in internet mode''"

definition action_handler ::
  "'w phone_api \<Rightarrow> environment \<Rightarrow> http_request \<Rightarrow> ('w, http_response) goroutine" where
  "action_handler api env req =
    (if \<not> same_origin req then Ret (http_error ''same-origin requests only'' 403)
     else (case decode_action api req of
        None \<Rightarrow> Ret (http_error ''invalid request'' 400)
      | Some r \<Rightarrow>
          read_dash (\<lambda>d. (find_phone 0 (d_phones d) (a_phone r) None, d_ready d)) (\<lambda>(found, ready).
            case found of
              None \<Rightarrow> Ret not_ready
            | Some i \<Rightarrow>
                if \<not> ready then Ret not_ready
                else if \<not> services_enabled env then Ret services_off
                else lock_op i (read_phone i p_call (\<lambda>call.
                  bindp (dispatch api env i r call) (\<lambda>resp. unlock_op i (Ret resp)))))))"

section \<open>Receiving messages\<close>

text \<open>
  A message that reaches a phone confirms the oldest matching one its sender still waits for.
\<close>

definition awaits_delivery :: "string \<Rightarrow> string \<Rightarrow> phone_message \<Rightarrow> bool" where
  "awaits_delivery peer text m \<longleftrightarrow> m_direction m = sent \<and> m_peer m = peer \<and> m_text m = text
     \<and> (m_status m = submitting \<or> m_status m = accepted)"

fun mark_first :: "string \<Rightarrow> string \<Rightarrow> phone_message list \<Rightarrow> phone_message list" where
  "mark_first peer text [] = []"
| "mark_first peer text (m # ms) =
    (if awaits_delivery peer text m then m\<lparr>m_status := delivered\<rparr> # ms
     else m # mark_first peer text ms)"

definition confirm_delivery :: "string \<Rightarrow> string \<Rightarrow> dashboard_phone \<Rightarrow> dashboard_phone" where
  "confirm_delivery peer text p = p\<lparr>p_messages := mark_first peer text (p_messages p)\<rparr>"

text \<open>The loop over the senders: phone \<open>j\<close> of the snapshot, if it has the sender's number.\<close>

fun confirm_senders ::
  "nat \<Rightarrow> string \<Rightarrow> string \<Rightarrow> nat list \<Rightarrow> ('w, 'r) goroutine \<Rightarrow> ('w, 'r) goroutine" where
  "confirm_senders i from text [] k = k"
| "confirm_senders i from text (j # js) k =
    read_dash (\<lambda>d. (p_msisdn (d_phones d ! j) = from, p_msisdn (d_phones d ! i))) (\<lambda>(match, number).
      if match then set_phone j (confirm_delivery number text) (confirm_senders i from text js k)
      else confirm_senders i from text js k)"

text \<open>One round of \<open>receiveSMS\<close>; a receive error ends the goroutine.\<close>

definition receive_message :: "u64 \<Rightarrow> string \<Rightarrow> string \<Rightarrow> int \<Rightarrow> phone_message" where
  "receive_message mid from text t =
    \<lparr>m_id = mid, m_direction = received, m_peer = from, m_text = text, m_status = received, m_at = t\<rparr>"

definition store_received ::
  "nat \<Rightarrow> string \<Rightarrow> string \<Rightarrow> int \<Rightarrow> phone_dashboard \<Rightarrow> phone_dashboard" where
  "store_received i from text t d = (case next_id d of
     (mid, d') \<Rightarrow> upd_phone i (add_message (receive_message mid from text t)) d')"

definition receive_sms :: "'w phone_api \<Rightarrow> nat \<Rightarrow> ('w, task option) goroutine" where
  "receive_sms api i =
    read_phone i p_access (\<lambda>ue.
      wait_world (sms_receive api ue) (\<lambda>m. case m of
        Inl e \<Rightarrow> Ret None
      | Inr (from, text) \<Rightarrow>
          timed_dash api (store_received i from text)
            (read_dash (\<lambda>d. length (d_phones d)) (\<lambda>n.
              confirm_senders i from text [0..<n]
                (emit_event api i (''SMS received from '' @ from) (Ret (Some (TSms i))))))))"

section \<open>Receiving calls\<close>

text \<open>
  Under the phone's mutex: a phone whose call has not terminated is busy; otherwise the new
  call becomes the phone's call.
\<close>

definition take_call ::
  "'w phone_api \<Rightarrow> nat \<Rightarrow> nat \<Rightarrow> 'w \<Rightarrow> phone_dashboard \<Rightarrow> bool \<times> phone_dashboard" where
  "take_call api i c w d =
    (let busy = (case p_call (d_phones d ! i) of
                   None \<Rightarrow> False | Some c' \<Rightarrow> call_status api c' w \<noteq> CallTerminated) in
     (busy, if busy then d else upd_phone i (start_call c True ''Incoming call'') d))"

definition receive_call :: "'w phone_api \<Rightarrow> nat \<Rightarrow> ('w, task option) goroutine" where
  "receive_call api i =
    read_phone i p_ims (\<lambda>ims.
      wait_world (next_call api ims) (\<lambda>next. case next of
        None \<Rightarrow> Ret None
      | Some c \<Rightarrow>
          sync_dash (take_call api i c) (\<lambda>busy.
            if busy then call_world (call_reject api c 486) (\<lambda>_. Ret (Some (TCalls i)))
            else emit_event api i ''Incoming IMS call''
              (call_world (call_ring api c) (\<lambda>err.
                case err of
                  None \<Rightarrow> Go (TMedia i c 0 0 0) (Ret (Some (TCalls i)))
                | Some e \<Rightarrow> emit_event api i (''Ringing: '' @ e)
                    (Go (TMedia i c 0 0 0) (Ret (Some (TCalls i)))))))))"

section \<open>Media\<close>

text \<open>
  One round of the media loop.  Nothing is sent unless the call is confirmed, has an audio
  stream with a valid remote address and a dedicated flow; the counters advance only with a
  packet.  \<open>TMedia\<close> carries them to the next round.
\<close>

definition send_media ::
  "'w phone_api \<Rightarrow> nat \<Rightarrow> nat \<Rightarrow> u16 \<Rightarrow> u32 \<Rightarrow> media_stream \<Rightarrow> u8 \<Rightarrow> ('w, task option) goroutine" where
  "send_media api i c seq stamp stream qfi =
    sync_dash (\<lambda>w d. ((), upd_phone i (\<lambda>p. p\<lparr>p_rx :=
        downlink_count api (p_access p) (ses_dlteid (p_leg_session p)) qfi w - p_rx_base p\<rparr>) d)) (\<lambda>_.
      read_phone i (\<lambda>p. (p_access p, p_leg_session p)) (\<lambda>(leg, ses).
        if \<not> upf_parses api (ses_upf_address ses) then Ret None
        else call_world (send_gpdu api leg (ses_ulteid ses) (ses_upf_address ses) qfi
            (udp_packet api (ms_local stream) (ms_remote stream) (rtp_packet seq stamp))) (\<lambda>err.
          (let again = TMedia i c (fst (next_packet (seq, stamp))) (snd (next_packet (seq, stamp))) qfi in
           if err = None then set_phone i (\<lambda>p. p\<lparr>p_tx := p_tx p + 1\<rparr>) (Ret (Some again))
           else Ret (Some again)))))"

definition media ::
  "'w phone_api \<Rightarrow> nat \<Rightarrow> nat \<Rightarrow> u16 \<Rightarrow> u32 \<Rightarrow> u8 \<Rightarrow> ('w, task option) goroutine" where
  "media api i c seq stamp last_qfi =
    (let continue = Ret (Some (TMedia i c seq stamp last_qfi)) in
     wait_world (media_select api c) (\<lambda>finished.
       if finished then
         ask_world (call_end api c) (\<lambda>reason. emit_event api i (''Call ended: '' @ reason) (Ret None))
       else ask_world (call_status api c) (\<lambda>st.
         if st \<noteq> CallConfirmed then continue
         else ask_world (audio_stream api c) (\<lambda>stream. case stream of
             None \<Rightarrow> continue
           | Some str \<Rightarrow>
               if \<not> ms_remote_valid str then continue
               else read_phone i p_access (\<lambda>leg.
                 ask_world (leg_flows api leg) (\<lambda>flows. case flows of
                   [] \<Rightarrow> continue
                 | qfi # _ \<Rightarrow>
                     if last_qfi \<noteq> qfi then
                       sync_dash (\<lambda>w d. ((), upd_phone i (\<lambda>p. p\<lparr>p_rx_base :=
                           downlink_count api (p_access p) (ses_dlteid (p_leg_session p)) qfi w\<rparr>) d)) (\<lambda>_.
                         emit_event api i (''Voice QoS active on QFI '' @ itoa (unat qfi))
                           (send_media api i c seq stamp str qfi))
                     else send_media api i c seq stamp str qfi))))))"

section \<open>Tracking a delivery\<close>

text \<open>
  The peer's state page shows the message as received: by the recipient, from this phone's
  number, with this text, and not before it was sent.
\<close>

definition peer_received ::
  "string \<Rightarrow> string \<Rightarrow> string \<Rightarrow> int \<Rightarrow> (string \<times> phone_message list) list \<Rightarrow> bool" where
  "peer_received recipient number text at peers = list_ex
     (\<lambda>(peer_number, ms). peer_number = recipient \<and> list_ex
        (\<lambda>m. m_direction m = received \<and> m_peer m = number \<and> m_text m = text \<and> \<not> m_at m < at) ms) peers"

fun mark_id :: "u64 \<Rightarrow> phone_message list \<Rightarrow> phone_message list" where
  "mark_id mid [] = []"
| "mark_id mid (m # ms) = (if m_id m = mid then m\<lparr>m_status := delivered\<rparr> # ms else m # mark_id mid ms)"

text \<open>The section under the mutex: \<open>None\<close> when the message is gone, else whether it was delivered.\<close>

definition check_delivery ::
  "nat \<Rightarrow> u64 \<Rightarrow> string \<Rightarrow> string \<Rightarrow> (string \<times> phone_message list) list \<Rightarrow> phone_dashboard
     \<Rightarrow> bool option \<times> phone_dashboard" where
  "check_delivery i mid text recipient peers d =
    (let p = d_phones d ! i in
     case find (\<lambda>m. m_id m = mid) (p_messages p) of
       None \<Rightarrow> (None, d)
     | Some m \<Rightarrow>
         if peer_received recipient (p_msisdn p) text (m_at m) peers
         then (Some True, upd_phone i (\<lambda>p. p\<lparr>p_messages := mark_id mid (p_messages p)\<rparr>) d)
         else (Some False, d))"

definition track_delivery ::
  "'w phone_api \<Rightarrow> environment \<Rightarrow> nat \<Rightarrow> u64 \<Rightarrow> string \<Rightarrow> string \<Rightarrow> nat \<Rightarrow> ('w, task option) goroutine" where
  "track_delivery api env i mid text recipient attempt =
    (if 30 \<le> attempt then Ret None
     else
       (let again = Ret (Some (TTrack i mid text recipient (Suc attempt))) in
        call_world (\<lambda>w. ((), sleep api 1 w)) (\<lambda>_.
          call_world (peer_state api (env ''PEER_URL'' @ ''/api/state'')) (\<lambda>poll. case poll of
              PollState peers \<Rightarrow> step_dash (check_delivery i mid text recipient peers) (\<lambda>r.
                case r of Some False \<Rightarrow> again | _ \<Rightarrow> Ret None)
            | _ \<Rightarrow> again))))"

section \<open>The state page\<close>

definition view_phone :: "'w phone_api \<Rightarrow> environment \<Rightarrow> dashboard_phone \<Rightarrow> 'w \<Rightarrow> phone_view" where
  "view_phone api env p w = \<lparr>v_id = p_id p, v_name = p_name p, v_imsi = p_imsi p,
     v_number = p_msisdn p,
     v_ip = (if p_ims p = None then [] else ep_local (p_endpoint p)),
     v_internet_ip = p_internet_ip p, v_nas = sms_allowed api (p_access p) w,
     v_registered = (p_ims p \<noteq> None \<and> ims_registered api (p_ims p) w),
     v_call = (case p_call p of None \<Rightarrow> ''idle'' | Some c \<Rightarrow> state_text api (call_status api c w)),
     v_ended = (case p_call p of None \<Rightarrow> []
        | Some c \<Rightarrow> if call_status api c w = CallTerminated then call_end api c w else []),
     v_incoming = p_incoming p, v_peer = p_peer p, v_messages = p_messages p, v_tx = p_tx p,
     v_rx = p_rx p,
     v_qfi = (if services_enabled env then map (int \<circ> unat) (leg_flows api (p_access p) w) else []),
     v_error = p_error_text p\<rparr>"

fun view_phones ::
  "'w phone_api \<Rightarrow> environment \<Rightarrow> nat list \<Rightarrow> phone_view list \<Rightarrow>
     (phone_view list \<Rightarrow> ('w, 'r) goroutine) \<Rightarrow> ('w, 'r) goroutine" where
  "view_phones api env [] vs k = k vs"
| "view_phones api env (i # is) vs k =
    sync_dash (\<lambda>w d. (view_phone api env (d_phones d ! i) w, d)) (\<lambda>v.
      view_phones api env is (vs @ [v]) k)"

definition state_page ::
  "'w phone_api \<Rightarrow> environment \<Rightarrow> ('w, dashboard_view) goroutine" where
  "state_page api env =
    read_dash (\<lambda>d. (length (d_phones d), d_events d, d_ready d, d_problem d)) (\<lambda>(n, events, ready, problem).
      view_phones api env [0..<n] [] (\<lambda>vs.
        call_world (now api) (\<lambda>t.
          Ret \<lparr>v_mode = phone_mode env, v_ready = ready, v_problem = problem, v_phones = vs,
             v_events = events, v_time = t\<rparr>)))"

section \<open>The goroutines of a running dashboard\<close>

definition answered ::
  "'w phone_api \<Rightarrow> nat \<Rightarrow> ('w, http_response) goroutine \<Rightarrow> ('w, task option) goroutine" where
  "answered api conn handler = bindp handler
     (\<lambda>resp. call_world (\<lambda>w. ((), respond api conn resp w)) (\<lambda>_. Ret None))"

definition body :: "'w phone_api \<Rightarrow> environment \<Rightarrow> task \<Rightarrow> ('w, task option) goroutine" where
  "body api env t = (case t of
     TInit \<Rightarrow> initialize api env
   | TAccept l i \<Rightarrow> accept_loop api l i
   | TSocks c i \<Rightarrow> socks api c i
   | TState conn \<Rightarrow> bindp (state_page api env)
       (\<lambda>v. call_world (\<lambda>w. ((), respond_state api conn v w)) (\<lambda>_. Ret None))
   | TAction conn req \<Rightarrow> answered api conn (action_handler api env req)
   | TBrowse conn req \<Rightarrow> answered api conn (browse_handler api req)
   | TNavigate conn req \<Rightarrow> answered api conn (navigate_handler api env req)
   | TSms i \<Rightarrow> receive_sms api i
   | TCalls i \<Rightarrow> receive_call api i
   | TMedia i c seq stamp qfi \<Rightarrow> media api i c seq stamp qfi
   | TTrack i mid text recipient attempt \<Rightarrow> track_delivery api env i mid text recipient attempt)"

text \<open>Requests arrive at any time; the world moves on its own, the dashboard does not.\<close>

fun arrives :: "task \<Rightarrow> bool" where
  "arrives (TState conn) = True"
| "arrives (TAction conn req) = True"
| "arrives (TBrowse conn req) = True"
| "arrives (TNavigate conn req) = True"
| "arrives _ = False"

definition world_moves :: "'w sys \<Rightarrow> 'w sys \<Rightarrow> bool" where
  "world_moves s s' \<longleftrightarrow> dash s' = dash s"

end
