(* ===== verification/Dash_Logic.thy ===== *)
theory Dash_Logic
  imports Dashboard
begin

text \<open>
  What every goroutine keeps of the dashboard, and how it may change it.  A locale carries
  an invariant and a guarantee of the dashboard through the atomic actions; the rest of the
  theory fixes the two that the properties rest on: bounded histories with increasing
  numbers of received messages, and histories that only evolve.
\<close>

section \<open>Carrying a guarantee through the actions\<close>

definition on_dash :: "(nat \<Rightarrow> phone_dashboard \<Rightarrow> bool) \<Rightarrow> nat \<Rightarrow> 'w sys \<Rightarrow> bool" where
  "on_dash I n s = I n (dash s)"

definition dash_moves :: "(phone_dashboard \<Rightarrow> phone_dashboard \<Rightarrow> bool) \<Rightarrow> 'w sys \<Rightarrow> 'w sys \<Rightarrow> bool" where
  "dash_moves H s s' = H (dash s) (dash s')"

locale dash_logic =
  fixes I :: "nat \<Rightarrow> phone_dashboard \<Rightarrow> bool"
    and H :: "phone_dashboard \<Rightarrow> phone_dashboard \<Rightarrow> bool"
  assumes inv_idle: "I n d \<Longrightarrow> I (Suc n) d"
    and guar_idle: "H d d"
begin

abbreviation (input) ok :: "('w sys, 't, 'r) prog \<Rightarrow> bool" where
  "ok p \<equiv> keeps (on_dash I) (dash_moves H) p"

definition fine :: "(phone_dashboard \<Rightarrow> phone_dashboard) \<Rightarrow> bool" where
  "fine f \<longleftrightarrow> (\<forall>n d. I n d \<longrightarrow> I (Suc n) (f d) \<and> H d (f d))"

lemma fineD: "fine f \<Longrightarrow> I n d \<Longrightarrow> I (Suc n) (f d) \<and> H d (f d)"
  by (simp add: fine_def)

lemma fine_id: "fine (\<lambda>d. d)"
  by (simp add: fine_def inv_idle guar_idle)

lemma ok_call_world: "(\<And>a. ok (k a)) \<Longrightarrow> ok (call_world f k)"
  unfolding call_world_def
  by (rule keeps_atomic) (auto simp: on_dash_def dash_moves_def inv_idle guar_idle split: prod.splits)

lemma ok_ask_world: "(\<And>a. ok (k a)) \<Longrightarrow> ok (ask_world f k)"
  unfolding ask_world_def
  by (rule keeps_atomic) (auto simp: on_dash_def dash_moves_def inv_idle guar_idle)

lemma ok_wait_world: "(\<And>a. ok (k a)) \<Longrightarrow> ok (wait_world f k)"
  unfolding wait_world_def
  by (rule keeps_await) (auto simp: on_dash_def dash_moves_def inv_idle guar_idle)

lemma ok_read_dash: "(\<And>a. ok (k a)) \<Longrightarrow> ok (read_dash f k)"
  unfolding read_dash_def
  by (rule keeps_atomic) (auto simp: on_dash_def dash_moves_def inv_idle guar_idle)

lemma ok_read_phone: "(\<And>a. ok (k a)) \<Longrightarrow> ok (read_phone i f k)"
  unfolding read_phone_def by (rule ok_read_dash)

lemma ok_step_dash: "fine (\<lambda>d. snd (f d)) \<Longrightarrow> (\<And>a. ok (k a)) \<Longrightarrow> ok (step_dash f k)"
  unfolding step_dash_def
proof (rule keeps_atomic)
  fix n s a s'
  assume f: "fine (\<lambda>d. snd (f d))" and k: "\<And>a. ok (k a)" and "on_dash I n s"
    and "(case f (dash s) of (a, d) \<Rightarrow> (a, s\<lparr>dash := d\<rparr>)) = (a, s')"
  then show "on_dash I (Suc n) s' \<and> dash_moves H s s' \<and> ok (k a)"
    using fineD [OF f, of n "dash s"]
    by (auto simp: on_dash_def dash_moves_def split: prod.splits)
qed

lemma ok_sync_dash: "(\<And>w. fine (\<lambda>d. snd (f w d))) \<Longrightarrow> (\<And>a. ok (k a)) \<Longrightarrow> ok (sync_dash f k)"
  unfolding sync_dash_def
proof (rule keeps_atomic)
  fix n s a s'
  assume f: "\<And>w. fine (\<lambda>d. snd (f w d))" and k: "\<And>a. ok (k a)" and "on_dash I n s"
    and "(case f (world s) (dash s) of (a, d) \<Rightarrow> (a, s\<lparr>dash := d\<rparr>)) = (a, s')"
  then show "on_dash I (Suc n) s' \<and> dash_moves H s s' \<and> ok (k a)"
    using fineD [OF f, of n "dash s" "world s"]
    by (auto simp: on_dash_def dash_moves_def split: prod.splits)
qed

lemma ok_timed_dash: "(\<And>t. fine (f t)) \<Longrightarrow> ok k \<Longrightarrow> ok (timed_dash api f k)"
  unfolding timed_dash_def
  by (rule keeps_atomic) (auto simp: on_dash_def dash_moves_def fine_def split: prod.splits)

lemma ok_set_phone: "fine (upd_phone i f) \<Longrightarrow> ok k \<Longrightarrow> ok (set_phone i f k)"
  unfolding set_phone_def by (rule ok_step_dash) simp_all

lemma ok_lock_op: "fine (upd_phone i (p_op_locked_update (\<lambda>_. True))) \<Longrightarrow> ok k \<Longrightarrow> ok (lock_op i k)"
  unfolding lock_op_def
  by (rule keeps_await) (auto simp: on_dash_def dash_moves_def fine_def split: if_splits)

lemma ok_unlock_op: "fine (upd_phone i (p_op_locked_update (\<lambda>_. False))) \<Longrightarrow> ok k \<Longrightarrow> ok (unlock_op i k)"
  unfolding unlock_op_def by (rule ok_set_phone)

lemma ok_try_world: "(\<And>e. ok (bad e)) \<Longrightarrow> (\<And>a. ok (k a)) \<Longrightarrow> ok (try_world f bad k)"
  unfolding try_world_def by (rule ok_call_world) (simp split: sum.split)

lemma ok_network_event: "(\<And>e. fine (log_event e)) \<Longrightarrow> ok k \<Longrightarrow> ok (network_event api text k)"
  unfolding network_event_def by (rule ok_timed_dash) (simp_all add: fine_def)

lemma ok_lock_web: "fine (upd_phone i (p_web_locked_update (\<lambda>_. True))) \<Longrightarrow> ok k \<Longrightarrow> ok (lock_web i k)"
  unfolding lock_web_def
  by (rule keeps_await) (auto simp: on_dash_def dash_moves_def fine_def split: if_splits)

lemma ok_emit_event: "(\<And>e. fine (log_event e)) \<Longrightarrow> ok k \<Longrightarrow> ok (emit_event api i text k)"
  unfolding emit_event_def by (rule ok_timed_dash) (simp_all add: fine_def)

end

text \<open>
  A dashboard logic for which the updates the goroutines make are fine: then every
  goroutine keeps it.  The updates are listed as laws; an instance discharges them once.
  An update that only touches other fields than those of \<open>frame\<close> is one law; taking and
  releasing the mutexes is left to the handlers that do it.
\<close>

definition frame :: "dashboard_phone \<Rightarrow> dashboard_phone \<Rightarrow> bool" where
  "frame p p' \<longleftrightarrow> p_id p' = p_id p \<and> p_endpoint p' = p_endpoint p \<and> p_messages p' = p_messages p
     \<and> p_op_locked p' = p_op_locked p \<and> p_web_locked p' = p_web_locked p"

locale dash_guarantee = dash_logic +
  assumes fine_event: "fine (log_event e)"
    and fine_problem: "fine (d_problem_update (\<lambda>_. e'))"
    and fine_ready: "fine (d_ready_update (\<lambda>_. True))"
    and fine_attach: "p_messages p = [] \<Longrightarrow> \<not> p_op_locked p \<Longrightarrow> \<not> p_web_locked p \<Longrightarrow> fine (add_phone p)"
    and fine_next_id: "fine (\<lambda>d. snd (next_id d))"
    and fine_received: "fine (store_received i from text t)"
    and fine_sent: "m_direction m = sent \<Longrightarrow> m_status m = submitting \<Longrightarrow> fine (upd_phone i (add_message m))"
    and fine_status: "status = failed \<or> status = accepted \<Longrightarrow> fine (upd_phone i (set_status mid status))"
    and fine_confirm: "fine (upd_phone i (confirm_delivery number text))"
    and fine_mark: "fine (upd_phone i (\<lambda>p. p\<lparr>p_messages := mark_id mid (p_messages p)\<rparr>))"
    and fine_frame: "(\<And>p. frame p (f p)) \<Longrightarrow> fine (upd_phone i f)"
begin

lemma ok_event: "ok k \<Longrightarrow> ok (emit_event api i text k)"
  by (rule ok_emit_event) (rule fine_event)

lemma ok_frame:
  assumes "\<And>p. frame p (f p)" and "ok k"
  shows "ok (set_phone i f k)"
  by (rule ok_set_phone) (rule fine_frame, rule assms(1), rule assms(2))

subsection \<open>Attaching the phones\<close>

lemma ok_start_phone_gnb: "(\<And>e. ok (bad e)) \<Longrightarrow> (\<And>g. ok (k g)) \<Longrightarrow> ok (start_phone_gnb ra env g bad k)"
  unfolding start_phone_gnb_def
  by (auto intro!: ok_try_world ok_call_world split: option.split)

lemma ok_attach_internet_ues:
  "(\<And>e. ok (bad e)) \<Longrightarrow> (\<And>us. ok (k us)) \<Longrightarrow> ok (attach_internet_ues ra g i ss ues bad k)"
  by (induction ss arbitrary: i ues) (auto simp: Let_def intro!: ok_try_world ok_call_world)

lemma ok_attach_internet:
  assumes "\<And>e. ok (bad e)" and "\<And>a ses. ok (k (p\<lparr>p_internet_ip := a, p_internet_session := ses\<rparr>))"
  shows "ok (attach_internet ra leg p i bad k)"
  unfolding attach_internet_def remove_stale_tunnel_def Let_def
  by (auto intro!: ok_try_world ok_call_world assms)

lemma ok_run_commands: "(\<And>e. ok (bad e)) \<Longrightarrow> ok k \<Longrightarrow> ok (run_commands ra fw cs bad k)"
  by (induction cs) (auto intro!: ok_call_world split: option.split)

lemma ok_firewall_each: "(\<And>e. ok (bad e)) \<Longrightarrow> ok k \<Longrightarrow> ok (firewall_each ra fws bad k)"
  by (induction fws) (auto simp: hook_chain_def intro!: ok_run_commands ok_call_world split: option.split)

lemma ok_start_browser_proxy: "(\<And>e. ok (bad e)) \<Longrightarrow> ok k \<Longrightarrow> ok (start_browser_proxy ra bad k)"
  unfolding start_browser_proxy_def
  by (auto intro!: ok_read_dash ok_firewall_each ok_try_world simp: keeps_Go simp del: firewall_each.simps)

lemma ok_fail_dash: "ok (fail_dash api e)"
  unfolding fail_dash_def
  by (rule ok_step_dash) (simp_all add: fine_problem ok_network_event fine_event keeps_Ret)

lemma ok_ready_dash: "ok (ready_dash api env)"
  unfolding ready_dash_def
  by (rule ok_step_dash) (simp_all add: fine_ready ok_network_event fine_event keeps_Ret)

lemma ok_publish_phone:
  "p_messages p = [] \<Longrightarrow> \<not> p_op_locked p \<Longrightarrow> \<not> p_web_locked p \<Longrightarrow> ok k \<Longrightarrow> ok (publish_phone api env i leg p k)"
  unfolding publish_phone_def
  by (auto intro!: ok_call_world ok_step_dash fine_attach ok_event simp: keeps_Go)

lemma ok_bring_up: "(\<And>e. ok (bad e)) \<Longrightarrow> ok k \<Longrightarrow> ok (bring_up api env i ues bad k)"
proof (induction ues arbitrary: i)
  case (Cons ue ues)
  then show ?case
    by (cases ue) (auto simp: open_ims_def Let_def new_phone_def
        intro!: ok_try_world ok_attach_internet ok_publish_phone)
qed simp

lemma ok_initialize: "ok (initialize api env)"
  unfolding initialize_def attach_ues_def Let_def
  by (auto intro!: ok_start_phone_gnb ok_fail_dash ok_try_world ok_attach_internet_ues ok_call_world
      ok_bring_up ok_start_browser_proxy ok_ready_dash)

subsection \<open>The proxy and the web handlers\<close>

lemma ok_close_socks: "ok (close_socks api c)"
  unfolding close_socks_def by (rule ok_call_world) simp

lemma ok_socks_write: "ok k \<Longrightarrow> ok (socks_write api c bs k)"
  unfolding socks_write_def by (rule ok_call_world)

lemma ok_socks_read: "(\<And>bs. ok (k bs)) \<Longrightarrow> ok (socks_read api c n k)"
  unfolding socks_read_def by (rule ok_wait_world) (auto intro: ok_close_socks split: option.split)

lemma ok_socks: "ok (socks api c i)"
  unfolding socks_def socks_request_def socks_host_def socks_connect_def Let_def
  by (auto intro!: ok_socks_read ok_socks_write ok_close_socks ok_read_phone ok_try_world ok_event ok_wait_world)

lemma ok_accept_loop: "ok (accept_loop api l i)"
  unfolding accept_loop_def by (rule ok_wait_world) (simp add: keeps_Go split: option.split)

lemma ok_show_page: "ok (show_page api i t0 u r)"
  unfolding show_page_def Let_def
  by (auto intro!: ok_event ok_call_world ok_read_phone split: option.split)

lemma ok_fetch_page: "ok (fetch_page api i u ru)"
  unfolding fetch_page_def
  by (auto intro!: ok_call_world ok_read_phone ok_event ok_show_page split: sum.split)

lemma ok_browse_handler:
  "(\<And>i b. fine (upd_phone i (p_web_locked_update (\<lambda>_. b)))) \<Longrightarrow> ok (browse_handler api req)"
  unfolding browse_handler_def unlock_web_def
  by (auto intro!: ok_read_dash ok_lock_web ok_set_phone keeps_bindp ok_fetch_page
      split: option.split sum.split)

lemma ok_run_devtools: "(\<And>r. ok (k r)) \<Longrightarrow> ok (run_devtools ch ws cs k)"
  by (induction cs) (auto intro!: ok_call_world ok_wait_world split: option.split sum.split)

lemma ok_navigate_handler: "ok (navigate_handler api env req)"
  unfolding navigate_handler_def Let_def
  by (auto intro!: ok_call_world ok_try_world ok_run_devtools split: option.split sum.split)

subsection \<open>Actions, receivers and media\<close>

lemma ok_finish_action: "ok (finish_action api i action err)"
  unfolding finish_action_def
  by (rule ok_frame) (auto simp: frame_def split: option.split intro!: ok_event keeps_Ret)

lemma ok_if_call_active: "(\<And>a. ok (k a)) \<Longrightarrow> ok (if_call_active api call k)"
  by (auto simp: if_call_active_def intro: ok_ask_world split: option.split)

lemma ok_on_ims: "(\<And>a. ok (k a)) \<Longrightarrow> ok (on_ims i f k)"
  unfolding on_ims_def by (intro ok_read_phone ok_call_world)

lemma fine_outcome: "fine (upd_phone i (set_status mid (if b then failed else accepted)))"
  by (rule fine_status) auto

lemma ok_do_sms: "ok (do_sms api env i req)"
  unfolding do_sms_def Let_def
  by (auto intro!: ok_step_dash fine_next_id ok_timed_dash fine_sent ok_read_phone ok_call_world
      ok_set_phone fine_outcome simp: keeps_Go)

lemma ok_do_call: "ok (do_call api i call req)"
  unfolding do_call_def
  by (auto intro!: ok_if_call_active ok_on_ims ok_frame simp: keeps_Go start_call_def frame_def
      split: sum.split)

lemma ok_do_hangup: "ok (do_hangup api call)"
  by (auto simp: do_hangup_def intro!: ok_ask_world ok_call_world split: option.split)

lemma ok_do_answer: "ok (do_answer api call)"
  by (auto simp: do_answer_def intro!: ok_ask_world ok_call_world split: option.split)

lemma ok_perform: "ok (perform api env i req call)"
  unfolding perform_def do_register_def do_unregister_def
  by (auto intro!: ok_on_ims ok_if_call_active ok_do_sms ok_do_call ok_do_answer ok_do_hangup)

lemma ok_dispatch: "ok (dispatch api env i req call)"
  unfolding dispatch_def by (auto intro!: keeps_bindp ok_perform ok_finish_action)

lemma ok_action_handler:
  "(\<And>i b. fine (upd_phone i (p_op_locked_update (\<lambda>_. b)))) \<Longrightarrow> ok (action_handler api env req)"
  unfolding action_handler_def
  by (auto intro!: ok_read_dash ok_lock_op ok_unlock_op ok_read_phone keeps_bindp ok_dispatch
      split: option.split prod.split)

lemma ok_confirm_senders: "ok k \<Longrightarrow> ok (confirm_senders i from text js k)"
  by (induction js) (auto intro!: ok_read_dash ok_set_phone fine_confirm)

lemma ok_receive_sms: "ok (receive_sms api i)"
  unfolding receive_sms_def
  by (auto intro!: ok_read_phone ok_wait_world ok_timed_dash fine_received ok_read_dash
      ok_confirm_senders ok_event split: sum.split)

lemma fine_take_call: "fine (\<lambda>d. snd (take_call api i c w d))"
proof -
  have f: "fine (upd_phone i (start_call c True ''Incoming call''))"
    by (rule fine_frame) (simp add: start_call_def frame_def)
  show ?thesis unfolding fine_def
    using fineD [OF f] fineD [OF fine_id] by (auto simp: take_call_def Let_def)
qed

lemma ok_receive_call: "ok (receive_call api i)"
  unfolding receive_call_def
  by (auto intro!: ok_read_phone ok_wait_world ok_sync_dash fine_take_call ok_call_world ok_event
      simp: keeps_Go split: option.split)

lemma ok_send_media: "ok (send_media api i c seq stamp stream qfi)"
  unfolding send_media_def Let_def
  by (auto simp: frame_def intro!: ok_sync_dash fine_frame ok_read_phone ok_call_world ok_frame)

lemma ok_media: "ok (media api i c seq stamp last_qfi)"
  unfolding media_def Let_def
  by (auto intro!: ok_wait_world ok_ask_world ok_event ok_read_phone ok_sync_dash fine_frame ok_send_media
      simp: frame_def split: option.split list.split)

lemma fine_check_delivery: "fine (\<lambda>d. snd (check_delivery i mid text recipient peers d))"
  unfolding fine_def
  using fineD [OF fine_mark] fineD [OF fine_id]
  by (auto simp: check_delivery_def Let_def split: option.split)

lemma ok_track_delivery: "ok (track_delivery api env i mid text recipient attempt)"
  unfolding track_delivery_def Let_def
  by (auto intro!: ok_call_world ok_step_dash fine_check_delivery split: poll.split option.split bool.split)

lemma ok_view_phones: "(\<And>vs. ok (k vs)) \<Longrightarrow> ok (view_phones api env is vs k)"
  by (induction "is" arbitrary: vs) (auto intro!: ok_sync_dash fine_id)

lemma ok_state_page: "ok (state_page api env)"
  unfolding state_page_def by (auto intro!: ok_read_dash ok_view_phones ok_call_world)

lemma ok_answered: "ok h \<Longrightarrow> ok (answered api conn h)"
  unfolding answered_def by (auto intro!: keeps_bindp ok_call_world)

text \<open>Every goroutine keeps the logic, if those that use a mutex are allowed to.\<close>

lemma ok_body_without_locks:
  assumes "\<And>conn req i b. t = TAction conn req \<Longrightarrow> fine (upd_phone i (p_op_locked_update (\<lambda>_. b)))"
    and "\<And>conn req i b. t = TBrowse conn req \<Longrightarrow> fine (upd_phone i (p_web_locked_update (\<lambda>_. b)))"
  shows "ok (body api env t)"
  using assms
  by (cases t) (auto simp: body_def intro!: keeps_bindp ok_initialize ok_accept_loop ok_socks ok_state_page
      ok_answered ok_action_handler ok_browse_handler ok_navigate_handler ok_call_world ok_receive_sms
      ok_receive_call ok_media ok_track_delivery)

end

locale dash_program = dash_guarantee +
  assumes fine_op: "fine (upd_phone i (p_op_locked_update (\<lambda>_. b)))"
    and fine_web: "fine (upd_phone i (p_web_locked_update (\<lambda>_. b)))"
begin

theorem ok_body: "ok (body api env t)"
  by (rule ok_body_without_locks) (rule fine_op, rule fine_web)

sublocale goroutines "body api env" arrives world_moves "on_dash I" "dash_moves H"
  for api :: "'w phone_api" and env
  by unfold_locales
    (auto simp: ok_body on_dash_def dash_moves_def world_moves_def inv_idle guar_idle)

end

end
