(* ===== verification/Dash_History.thy ===== *)
theory Dash_History
  imports Dash_Logic
begin

text \<open>
  The histories of the dashboard under concurrency.  \<open>dash_inv\<close>: no history exceeds its
  bound, and the received messages of a phone carry strictly increasing numbers, none above
  the counter (as long as the counter has not wrapped).  \<open>dash_guar\<close>: a message history
  only evolves: entries keep their place and everything but their status, the oldest are
  dropped, new ones are appended, and a delivered message stays delivered.
\<close>

section \<open>Numbers of received messages\<close>

definition is_received :: "phone_message \<Rightarrow> bool" where
  "is_received m \<longleftrightarrow> m_direction m = received"

definition received_ids :: "dashboard_phone \<Rightarrow> u64 list" where
  "received_ids p = map m_id (filter is_received (p_messages p))"

definition received_ok :: "u64 \<Rightarrow> dashboard_phone \<Rightarrow> bool" where
  "received_ok hi p \<longleftrightarrow> sorted_wrt (<) (received_ids p) \<and> (\<forall>x \<in> set (received_ids p). x \<le> hi)"

definition dash_inv :: "nat \<Rightarrow> phone_dashboard \<Rightarrow> bool" where
  "dash_inv n d \<longleftrightarrow> length (d_events d) \<le> 100 \<and> (\<forall>p \<in> set (d_phones d). length (p_messages p) \<le> 100)
     \<and> (n < 2 ^ 64 \<longrightarrow> unat (d_next d) \<le> n \<and> (\<forall>p \<in> set (d_phones d). received_ok (d_next d) p))"

section \<open>How a history evolves\<close>

definition message_step :: "phone_message \<Rightarrow> phone_message \<Rightarrow> bool" where
  "message_step m m' \<longleftrightarrow> m' = m\<lparr>m_status := m_status m'\<rparr>
     \<and> (m_status m' = m_status m \<or> m_status m' \<in> {accepted, failed, delivered})
     \<and> (m_status m = delivered \<longrightarrow> m_status m' = delivered)"

lemma message_step_refl [simp]: "message_step m m"
  by (simp add: message_step_def)

lemma message_step_trans: "message_step a b \<Longrightarrow> message_step b c \<Longrightarrow> message_step a c"
  by (cases a; cases b; cases c) (auto simp: message_step_def)

text \<open>One step: statuses move on, or one message is appended, which drops the oldest of a full history.\<close>

definition history_step :: "phone_message list \<Rightarrow> phone_message list \<Rightarrow> bool" where
  "history_step ms ms' \<longleftrightarrow> list_all2 message_step ms ms'
     \<or> (\<exists>m. m_status m \<in> {submitting, received} \<and> ms' = lastn 100 (ms @ [m]))"

lemma history_step_refl [simp]: "history_step ms ms"
  by (simp add: history_step_def list_all2_refl)

lemma history_step_append:
  "m_status m = submitting \<or> m_status m = received \<Longrightarrow> history_step ms (lastn 100 (ms @ [m]))"
  by (auto simp: history_step_def)

text \<open>Any number of steps; entries are only dropped from a history that is full.\<close>

definition evolves :: "phone_message list \<Rightarrow> phone_message list \<Rightarrow> bool" where
  "evolves ms ms' \<longleftrightarrow> (\<exists>k ms1 new. ms' = drop k (ms1 @ new) \<and> list_all2 message_step ms ms1
     \<and> (0 < k \<longrightarrow> 100 \<le> length ms'))"

lemma evolves_step:
  assumes "history_step ms ms'"
  shows "evolves ms ms'"
proof (cases "list_all2 message_step ms ms'")
  case True
  then show ?thesis unfolding evolves_def by (intro exI [of _ 0] exI [of _ ms'] exI [of _ "[]"]) simp
next
  case False
  with assms obtain m where "ms' = lastn 100 (ms @ [m])" by (auto simp: history_step_def)
  then show ?thesis unfolding evolves_def lastn_def
    by (intro exI [of _ "length (ms @ [m]) - 100"] exI [of _ ms] exI [of _ "[m]"]) (simp add: list_all2_refl)
qed

lemma evolves_refl: "evolves ms ms"
  by (rule evolves_step) simp

lemma evolves_trans:
  assumes "evolves a b" and "evolves b c"
  shows "evolves a c"
proof -
  from assms(1) obtain k a1 new where b: "b = drop k (a1 @ new)" and a1: "list_all2 message_step a a1"
    and full_b: "0 < k \<longrightarrow> 100 \<le> length b"
    unfolding evolves_def by blast
  from assms(2) obtain j b1 new' where c: "c = drop j (b1 @ new')" and b1: "list_all2 message_step b b1"
    and full_c: "0 < j \<longrightarrow> 100 \<le> length c"
    unfolding evolves_def by blast
  let ?old = "take k (a1 @ new)"
  have "list_all2 message_step (?old @ b) (?old @ b1)"
    using b1 by (simp add: list_all2_appendI list_all2_refl)
  then have "list_all2 message_step (a1 @ new) (?old @ b1)" by (simp only: b append_take_drop_id)
  then obtain a2 new2 where split: "?old @ b1 = a2 @ new2" and a2: "list_all2 message_step a1 a2"
    by (auto simp: list_all2_append1)
  have past: "drop (length xs + n) (xs @ ys) = drop n ys" for xs ys :: "phone_message list" and n by simp
  have "c = drop (length ?old + j) ((?old @ b1) @ new')" by (simp only: c append_assoc past)
  then have "c = drop (length ?old + j) (a2 @ new2 @ new')" unfolding split by (simp only: append_assoc)
  moreover have "list_all2 message_step a a2"
    by (rule list_all2_trans [OF _ a1 a2]) (rule message_step_trans)
  moreover have "0 < length ?old + j \<longrightarrow> 100 \<le> length c"
    using full_b full_c list_all2_lengthD [OF b1] c by (cases "j = 0") auto
  ultimately show ?thesis unfolding evolves_def by blast
qed

definition phone_guar :: "dashboard_phone \<Rightarrow> dashboard_phone \<Rightarrow> bool" where
  "phone_guar p p' \<longleftrightarrow> p_id p' = p_id p \<and> p_endpoint p' = p_endpoint p
     \<and> history_step (p_messages p) (p_messages p')"

definition dash_guar :: "phone_dashboard \<Rightarrow> phone_dashboard \<Rightarrow> bool" where
  "dash_guar d d' \<longleftrightarrow> length (d_phones d) \<le> length (d_phones d') \<and> (d_ready d \<longrightarrow> d_ready d')
     \<and> (\<forall>i < length (d_phones d). phone_guar (d_phones d ! i) (d_phones d' ! i))"

lemma phone_guar_refl: "phone_guar p p"
  by (simp add: phone_guar_def)

lemma dash_guar_refl: "dash_guar d d"
  by (simp add: dash_guar_def phone_guar_refl)

definition phone_later :: "dashboard_phone \<Rightarrow> dashboard_phone \<Rightarrow> bool" where
  "phone_later p p' \<longleftrightarrow> p_id p' = p_id p \<and> p_endpoint p' = p_endpoint p \<and> evolves (p_messages p) (p_messages p')"

definition dash_later :: "phone_dashboard \<Rightarrow> phone_dashboard \<Rightarrow> bool" where
  "dash_later d d' \<longleftrightarrow> length (d_phones d) \<le> length (d_phones d') \<and> (d_ready d \<longrightarrow> d_ready d')
     \<and> (\<forall>i < length (d_phones d). phone_later (d_phones d ! i) (d_phones d' ! i))"

lemma dash_later_refl: "dash_later d d"
  by (simp add: dash_later_def phone_later_def evolves_refl)

lemma dash_later_trans: "dash_later a b \<Longrightarrow> dash_later b c \<Longrightarrow> dash_later a c"
  by (auto simp: dash_later_def phone_later_def intro: evolves_trans)

lemma dash_guar_later: "dash_guar d d' \<Longrightarrow> dash_later d d'"
  by (simp add: dash_guar_def dash_later_def phone_guar_def phone_later_def evolves_step)

section \<open>The updates of one phone\<close>

text \<open>An update that keeps the phone's histories in order, whatever the counter.\<close>

definition orderly :: "(dashboard_phone \<Rightarrow> dashboard_phone) \<Rightarrow> bool" where
  "orderly f \<longleftrightarrow> (\<forall>p. phone_guar p (f p)
     \<and> (length (p_messages p) \<le> 100 \<longrightarrow> length (p_messages (f p)) \<le> 100)
     \<and> (\<forall>hi. received_ok hi p \<longrightarrow> received_ok hi (f p)))"

lemma message_step_id: "message_step m m' \<Longrightarrow> m_id m' = m_id m \<and> is_received m' = is_received m"
  by (cases m; cases m') (simp add: message_step_def is_received_def)

lemma received_ids_step:
  "list_all2 message_step ms ms' \<Longrightarrow>
    map m_id (filter is_received ms') = map m_id (filter is_received ms)"
  by (induction rule: list_all2_induct) (auto dest: message_step_id)

text \<open>Changing statuses keeps the histories in order.\<close>

lemma orderly_steps:
  assumes "\<And>p. p_id (f p) = p_id p \<and> p_endpoint (f p) = p_endpoint p
    \<and> list_all2 message_step (p_messages p) (p_messages (f p))"
  shows "orderly f"
  unfolding orderly_def phone_guar_def received_ok_def received_ids_def
  using assms by (metis history_step_def list_all2_lengthD received_ids_step)

lemma orderly_frame:
  assumes "\<And>p. p_id (f p) = p_id p \<and> p_endpoint (f p) = p_endpoint p \<and> p_messages (f p) = p_messages p"
  shows "orderly f"
  using assms by (intro orderly_steps) (simp add: list_all2_refl)

lemma message_step_deliver: "message_step m (m\<lparr>m_status := delivered\<rparr>)"
  by (simp add: message_step_def)

lemma set_status_steps:
  "status = failed \<or> status = accepted \<Longrightarrow>
    list_all2 message_step (p_messages p) (p_messages (set_status mid status p))"
  by (auto simp: set_status_def list_all2_conv_all_nth message_step_def)

lemma mark_first_steps: "list_all2 message_step ms (mark_first peer text ms)"
  by (induction ms) (auto simp: list_all2_refl message_step_deliver)

lemma mark_id_steps: "list_all2 message_step ms (mark_id mid ms)"
  by (induction ms) (auto simp: list_all2_refl message_step_deliver)

lemma orderly_sent:
  assumes "m_direction m = sent" and st: "m_status m = submitting"
  shows "orderly (add_message m)"
proof -
  have "\<not> is_received m" using assms(1) by (simp add: is_received_def)
  then have ids: "filter is_received (p_messages p @ [m]) = filter is_received (p_messages p)" for p
    by simp
  have "received_ok hi (add_message m p)" if "received_ok hi p" for hi p
  proof -
    have "sorted_wrt (<) (map m_id (filter is_received (lastn 100 (p_messages p @ [m]))))"
      using that unfolding received_ok_def received_ids_def
      by (intro sorted_wrt_map_filter_lastn) (simp only: ids)
    moreover have "\<forall>x \<in> set (received_ids (add_message m p)). x \<le> hi"
      using that \<open>\<not> is_received m\<close> unfolding received_ok_def received_ids_def
      by (auto simp: state_simps dest!: in_set_lastnD)
    ultimately show ?thesis by (simp add: received_ok_def received_ids_def state_simps)
  qed
  then show ?thesis
    unfolding orderly_def phone_guar_def by (auto simp: state_simps history_step_append st)
qed

lemma received_ids_received:
  "received_ids (add_message (receive_message mid from text t) p)
    = map m_id (filter is_received (lastn 100 (p_messages p @ [receive_message mid from text t])))"
  by (simp add: received_ids_def state_simps)

text \<open>A received message takes a number above all the numbers given so far.\<close>

lemma received_ok_next:
  assumes "received_ok hi p" and "hi < mid"
  shows "received_ok mid (add_message (receive_message mid from text t) p)"
proof -
  let ?m = "receive_message mid from text t"
  have m: "is_received ?m" "m_id ?m = mid" by (simp_all add: is_received_def receive_message_def)
  have hi: "\<forall>x \<in> set (received_ids p). x < mid" using assms by (auto simp: received_ok_def)
  have "sorted_wrt (<) (map m_id (filter is_received (p_messages p @ [?m])))"
    using assms(1) hi m by (simp add: received_ok_def received_ids_def sorted_wrt_append)
  then have "sorted_wrt (<) (received_ids (add_message ?m p))"
    unfolding received_ids_received by (rule sorted_wrt_map_filter_lastn)
  moreover have "x \<le> mid" if "x \<in> set (received_ids (add_message ?m p))" for x
  proof -
    from that obtain m' where "x = m_id m'" and "m' = ?m \<or> m' \<in> set (p_messages p) \<and> is_received m'"
      unfolding received_ids_received by (auto dest!: in_set_lastnD)
    with hi m show ?thesis by (auto simp: received_ids_def intro: less_imp_le)
  qed
  ultimately show ?thesis by (simp add: received_ok_def)
qed

lemma received_ok_mono: "received_ok hi p \<Longrightarrow> hi \<le> hi' \<Longrightarrow> received_ok hi' p"
  by (auto simp: received_ok_def)

lemma next_id_above:
  assumes "unat (d_next d) \<le> n" and "Suc n < 2 ^ 64"
  shows "d_next d < d_next d + 1" and "unat (d_next d + 1) \<le> Suc n"
  using u64_suc_no_wrap [OF assms] assms(1) by (simp_all add: word_less_nat_alt)

section \<open>Every goroutine keeps the histories in order\<close>

lemma dash_inv_Suc: "dash_inv n d \<Longrightarrow> dash_inv (Suc n) d"
  by (auto simp: dash_inv_def)

lemma upd_phone_fine:
  assumes f: "orderly f" and d: "dash_inv n d"
  shows "dash_inv (Suc n) (upd_phone i f d) \<and> dash_guar d (upd_phone i f d)"
proof (cases "i < length (d_phones d)")
  case False
  then show ?thesis using d by (simp add: upd_phone_def not_less list_update_beyond dash_inv_Suc dash_guar_refl)
next
  case True
  let ?p = "d_phones d ! i"
  from f have fp: "phone_guar ?p (f ?p)" "length (p_messages ?p) \<le> 100 \<longrightarrow> length (p_messages (f ?p)) \<le> 100"
    "\<And>hi. received_ok hi ?p \<Longrightarrow> received_ok hi (f ?p)" by (auto simp: orderly_def)
  have p: "?p \<in> set (d_phones d)" using True by simp
  have "dash_inv (Suc n) (upd_phone i f d)"
    using dash_inv_Suc [OF d] fp p unfolding dash_inv_def
    by (auto simp: state_simps dest!: set_update_subset_insert [THEN subsetD])
  moreover have "dash_guar d (upd_phone i f d)"
    using fp(1) by (auto simp: dash_guar_def state_simps nth_update phone_guar_refl)
  ultimately show ?thesis by simp
qed

lemma store_received_phones:
  "d_phones (store_received i from text t d)
    = (d_phones d)[i := add_message (receive_message (d_next d + 1) from text t) (d_phones d ! i)]"
  "d_next (store_received i from text t d) = d_next d + 1"
  "d_events (store_received i from text t d) = d_events d"
  "d_ready (store_received i from text t d) = d_ready d"
  by (simp_all add: store_received_def next_id_def state_simps)

lemma store_received_fine:
  assumes d: "dash_inv n d"
  shows "dash_inv (Suc n) (store_received i from text t d) \<and> dash_guar d (store_received i from text t d)"
proof -
  let ?m = "receive_message (d_next d + 1) from text t" and ?p = "d_phones d ! i"
  have upd: "q \<in> set (d_phones d) \<or> i < length (d_phones d) \<and> q = add_message ?m ?p"
    if "q \<in> set ((d_phones d)[i := add_message ?m ?p])" for q
    using that by (cases "i < length (d_phones d)")
      (auto simp: not_less list_update_beyond dest!: set_update_subset_insert [THEN subsetD])
  have "received_ok (d_next d + 1) q"
    if "Suc n < 2 ^ 64" "q \<in> set ((d_phones d)[i := add_message ?m ?p])" for q
  proof -
    have inv: "unat (d_next d) \<le> n" "\<forall>p \<in> set (d_phones d). received_ok (d_next d) p"
      using d that(1) by (auto simp: dash_inv_def)
    note above = next_id_above(1) [OF inv(1) that(1)]
    from upd [OF that(2)] inv(2) above show ?thesis
      by (auto intro: received_ok_next received_ok_mono less_imp_le)
  qed
  moreover have "length (p_messages q) \<le> 100"
    if "q \<in> set ((d_phones d)[i := add_message ?m ?p])" for q
    using upd [OF that] d by (auto simp: dash_inv_def state_simps)
  ultimately have "dash_inv (Suc n) (store_received i from text t d)"
    using d next_id_above(2) [of d n] by (auto simp: dash_inv_def store_received_phones)
  moreover have "dash_guar d (store_received i from text t d)"
    by (auto simp: dash_guar_def store_received_phones nth_update phone_guar_def state_simps
        history_step_append receive_message_def)
  ultimately show ?thesis by simp
qed

lemma next_id_fine:
  assumes d: "dash_inv n d"
  shows "dash_inv (Suc n) (snd (next_id d)) \<and> dash_guar d (snd (next_id d))"
proof -
  have "received_ok (d_next d + 1) p" if "Suc n < 2 ^ 64" "p \<in> set (d_phones d)" for p
    using d that next_id_above(1) [of d n] unfolding dash_inv_def
    by (auto intro: received_ok_mono less_imp_le)
  then have "dash_inv (Suc n) (snd (next_id d))"
    using d next_id_above(2) [of d n] by (auto simp: dash_inv_def next_id_def)
  then show ?thesis by (simp add: dash_guar_def next_id_def phone_guar_refl)
qed

lemma log_event_fine: "dash_inv n d \<Longrightarrow> dash_inv (Suc n) (log_event e d) \<and> dash_guar d (log_event e d)"
  by (auto simp: dash_inv_def dash_guar_def state_simps phone_guar_refl)

lemma add_phone_fine:
  assumes "p_messages p = []" and "dash_inv n d"
  shows "dash_inv (Suc n) (add_phone p d) \<and> dash_guar d (add_phone p d)"
  using assms
  by (auto simp: dash_inv_def dash_guar_def add_phone_def nth_append phone_guar_refl received_ok_def
      received_ids_def)

interpretation dash_histories: dash_logic dash_inv dash_guar
  by unfold_locales (simp_all add: dash_inv_Suc dash_guar_refl)

interpretation dashboard: dash_program dash_inv dash_guar
proof unfold_locales
  show "dash_histories.fine (log_event e)" for e
    unfolding dash_histories.fine_def by (simp add: log_event_fine)
  show "dash_histories.fine (d_problem_update (\<lambda>_. e))" "dash_histories.fine (d_ready_update (\<lambda>_. True))" for e
    unfolding dash_histories.fine_def by (auto simp: dash_inv_def dash_guar_def phone_guar_refl)
  show "dash_histories.fine (add_phone p)" if "p_messages p = []" for p
    unfolding dash_histories.fine_def by (simp add: add_phone_fine that)
  show "dash_histories.fine (\<lambda>d. snd (next_id d))"
    unfolding dash_histories.fine_def by (simp add: next_id_fine)
  show "dash_histories.fine (store_received i peer body t)" for i peer body t
    unfolding dash_histories.fine_def by (simp add: store_received_fine)
  have upd: "dash_histories.fine (upd_phone i f)" if "orderly f" for i f
    unfolding dash_histories.fine_def by (simp add: upd_phone_fine that)
  show "dash_histories.fine (upd_phone i (add_message m))" if "m_direction m = sent" "m_status m = submitting" for i m
    by (rule upd) (rule orderly_sent, (rule that)+)
  show "dash_histories.fine (upd_phone i (set_status mid status))" if "status = failed \<or> status = accepted"
    for i mid status
    by (rule upd, rule orderly_steps) (use set_status_steps [OF that] in \<open>simp add: set_status_def\<close>)
  show "dash_histories.fine (upd_phone i (confirm_delivery number body))" for i number body
    by (rule upd, rule orderly_steps) (simp add: confirm_delivery_def mark_first_steps)
  show "dash_histories.fine (upd_phone i (\<lambda>p. p\<lparr>p_messages := mark_id mid (p_messages p)\<rparr>))" for i mid
    by (rule upd, rule orderly_steps) (simp add: mark_id_steps)
  show "dash_histories.fine (upd_phone i f)" if "\<And>p. frame p (f p)" for i f
    by (rule upd, rule orderly_frame) (use that in \<open>simp add: frame_def\<close>)
  show "dash_histories.fine (upd_phone i (p_op_locked_update (\<lambda>_. b)))"
    "dash_histories.fine (upd_phone i (p_web_locked_update (\<lambda>_. b)))" for i b
    by (rule upd, rule orderly_frame, simp)+
qed

end
