(* ===== verification/Lock.thy ===== *)
theory Lock
  imports Goroutine
begin

text \<open>
  Mutual exclusion.  A mutex is a bit of the shared state.  \<open>brackets held b p\<close>: a goroutine
  that holds the mutex (\<open>b\<close>) or not, with \<open>p\<close> left to run, takes it only when it is free,
  leaves it alone while it does not hold it, and returns without it.  If every goroutine
  starts this way, at most one of them holds the mutex at any time.
\<close>

primrec brackets :: "('s \<Rightarrow> bool) \<Rightarrow> ('s, 't, 'r) prog \<Rightarrow> bool \<Rightarrow> bool" where
  "brackets held (Ret r) = (\<lambda>b. \<not> b)"
| "brackets held (Act f) = (\<lambda>b. \<forall>s. held s \<or> \<not> b \<longrightarrow>
     (case map_option (map_prod id (brackets held)) (f s) of
        None \<Rightarrow> True
      | Some (s', rest) \<Rightarrow> if b then rest (held s') else if held s then held s' \<and> rest False else rest (held s')))"
| "brackets held (Go t p) = brackets held p"

declare brackets.simps(2) [simp del]

lemma brackets_Act: "brackets held (Act f) b \<longleftrightarrow> (\<forall>s s' p. f s = Some (s', p) \<longrightarrow> held s \<or> \<not> b \<longrightarrow>
    (if b then brackets held p (held s')
     else if held s then held s' \<and> brackets held p False else brackets held p (held s')))"
  by (auto simp: brackets.simps(2) split: option.splits if_splits)

lemma brackets_atomic:
  assumes "\<And>s a s'. f s = (a, s') \<Longrightarrow> held s' = held s \<and> brackets held (k a) b"
  shows "brackets held (atomic f k) b"
  using assms by (auto simp: atomic_def brackets_Act split: prod.splits)

text \<open>Code that leaves the mutex alone, and what follows it.\<close>

lemma brackets_bindp_keeps:
  assumes "keeps (\<lambda>n s. True) (\<lambda>s s'. held s' = held s) p" and "\<And>a. brackets held (k a) b"
  shows "brackets held (bindp p k) b"
  using assms(1)
proof (induction p)
  case (Act f)
  have "brackets held (bindp p k) b \<and> held s' = held s" if "f s = Some (s', p)" for s s' p
    using Act.IH [OF that] Act.prems that by (auto simp: keeps_Act)
  then show ?case by (auto simp: brackets_Act)
qed (simp_all add: assms(2))

lemma brackets_keeps:
  assumes "keeps (\<lambda>n s. True) (\<lambda>s s'. held s' = held s) p"
  shows "brackets held p False"
  using assms
proof (induction p)
  case (Act f)
  have "brackets held p False \<and> held s' = held s" if "f s = Some (s', p)" for s s' p
    using Act.IH [OF that] Act.prems that by (auto simp: keeps_Act)
  then show ?case by (auto simp: brackets_Act)
qed simp_all

text \<open>Composition after a bracketed part.\<close>

lemma brackets_bindp:
  assumes "brackets held p b" and "\<And>a. brackets held (k a) False"
  shows "brackets held (bindp p k) b"
  using assms(1)
proof (induction p arbitrary: b)
  case (Act f)
  have "brackets held (bindp p k) c" if "f s = Some (s', p)" "brackets held p c" for s s' p c
    using Act.IH [OF that] .
  with Act.prems show ?case by (fastforce simp: brackets_Act split: if_splits)
next
  case (Ret r)
  then show ?case using assms(2) [of r] by (cases b) simp_all
qed simp

section \<open>Holding the mutex\<close>

text \<open>
  A goroutine is inside its critical section when, left alone with the mutex held, it would
  run on to release it.
\<close>

definition inside :: "('s \<Rightarrow> bool) \<Rightarrow> ('s, 't, 'r) prog \<Rightarrow> bool" where
  "inside held p \<longleftrightarrow> (\<exists>s s' ts r. held s \<and> exec p s = Some (s', ts, r) \<and> \<not> held s')"

lemma brackets_not_inside:
  assumes "brackets held p False"
  shows "\<not> inside held p"
proof -
  have "held s'" if "exec p s = Some (s', ts, r)" "held s" for s s' ts r
    using that assms
  proof (induction p arbitrary: s ts)
    case (Act f)
    then obtain s1 p where f: "f s = Some (s1, p)" "exec p s1 = Some (s', ts, r)"
      by (auto simp: exec_Act simp del: exec.simps split: option.splits)
    with Act.prems(2,3) have "held s1 \<and> brackets held p False" by (auto simp: brackets_Act)
    with Act.IH [OF f(1)] f(2) show ?case by blast
  qed auto
  then show ?thesis by (auto simp: inside_def)
qed

text \<open>
  The invariant of a pool: each goroutine holds the mutex or not, at most one does, and the
  bit says whether one does.
\<close>

definition held_by :: "('s \<Rightarrow> bool) \<Rightarrow> 's \<Rightarrow> ('s, 't, 'r) prog list \<Rightarrow> bool list \<Rightarrow> bool" where
  "held_by held s ps bs \<longleftrightarrow> list_all2 (brackets held) ps bs
     \<and> (\<forall>k l. k < length bs \<longrightarrow> l < length bs \<longrightarrow> bs ! k \<longrightarrow> bs ! l \<longrightarrow> k = l) \<and> (held s \<longleftrightarrow> True \<in> set bs)"

locale mutex =
  fixes body :: "'t \<Rightarrow> ('s, 't, 't option) prog"
    and arrives :: "'t \<Rightarrow> bool"
    and env :: "'s \<Rightarrow> 's \<Rightarrow> bool"
    and held :: "'s \<Rightarrow> bool"
  assumes body_brackets: "brackets held (body t) False"
    and env_bit: "env s s' \<Longrightarrow> held s' = held s"
begin

lemma held_snoc: "held_by held s ps bs \<Longrightarrow> held_by held s (ps @ [body t]) (bs @ [False])"
  by (auto simp: held_by_def body_brackets list_all2_appendI nth_append)

lemma held_same:
  assumes "held_by held s ps bs" and "brackets held p (bs ! i)" and "held s' = held s"
  shows "held_by held s' (ps[i := p]) bs"
  using assms list_all2_update_cong [of "brackets held" ps bs p "bs ! i" i]
  by (simp add: held_by_def)

lemma held_take:
  assumes "held_by held s ps bs" and "i < length bs" and "\<not> held s" and "held s'" and "brackets held p True"
  shows "held_by held s' (ps[i := p]) (bs[i := True])"
proof -
  have "True \<notin> set bs" using assms(1,3) by (simp add: held_by_def)
  then have free: "\<not> bs ! k" if "k < length bs" for k using that by (metis nth_mem)
  have "k = i" if "k < length bs" "bs[i := True] ! k" for k
    using that free assms(2) by (auto simp: nth_list_update split: if_splits)
  moreover have "True \<in> set (bs[i := True])" using assms(2) by (simp add: set_update_memI)
  ultimately show ?thesis
    using assms list_all2_update_cong [of "brackets held" ps bs p True i] by (auto simp: held_by_def)
qed

lemma held_release:
  assumes "held_by held s ps bs" and "i < length bs" and "bs ! i" and "\<not> held s'" and "brackets held p False"
  shows "held_by held s' (ps[i := p]) (bs[i := False])"
proof -
  have free: "\<not> bs[i := False] ! k" if "k < length bs" for k
    using assms(1,2,3) that by (auto simp: held_by_def nth_list_update)
  then have "True \<notin> set (bs[i := False])" by (metis in_set_conv_nth length_list_update)
  with free show ?thesis
    using assms list_all2_update_cong [of "brackets held" ps bs p False i] by (auto simp: held_by_def)
qed

lemma step_held:
  assumes "pool_step body arrives env (s, ps) (s', ps')" and h: "held_by held s ps bs"
  shows "\<exists>bs'. held_by held s' ps' bs'"
  using assms(1)
proof cases
  case (act i f p)
  have len: "length bs = length ps" using h by (auto simp: held_by_def dest: list_all2_lengthD)
  have "brackets held (ps ! i) (bs ! i)"
    using h act(2) by (auto simp: held_by_def dest: list_all2_nthD)
  with act have b: "brackets held (Act f) (bs ! i)" by simp
  have held: "held s" if "bs ! i"
    using h that act(2) len unfolding held_by_def by (metis nth_mem)
  have st: "if bs ! i then brackets held p (held s')
      else if held s then held s' \<and> brackets held p False else brackets held p (held s')"
    using b held act(4) unfolding brackets_Act by auto
  consider "bs ! i" "held s'" | "bs ! i" "\<not> held s'" | "\<not> bs ! i" "held s' = held s" | "\<not> bs ! i" "\<not> held s" "held s'"
    using st by (auto split: if_splits)
  then show ?thesis
  proof cases
    case 1 then show ?thesis using held_same [OF h] st held act(1) by (metis (full_types))
  next
    case 2 then show ?thesis using held_release [OF h] st act(1,2) len by (metis (full_types))
  next
    case 3 then show ?thesis using held_same [OF h] st act(1) by (metis (full_types))
  next
    case 4 then show ?thesis using held_take [OF h] st act(1,2) len by (metis (full_types))
  qed
next
  case (spawn i t p)
  have "brackets held (ps ! i) (bs ! i)"
    using h spawn(3) by (auto simp: held_by_def dest: list_all2_nthD)
  with spawn held_same [OF h] held_snoc show ?thesis by (metis brackets.simps(3))
next
  case (loop i t)
  have "brackets held (ps ! i) (bs ! i)"
    using h loop(3) by (auto simp: held_by_def dest: list_all2_nthD)
  with loop have "\<not> bs ! i" by simp
  with loop held_same [OF h, of "body t" i s] body_brackets show ?thesis by metis
next
  case (arrive t)
  with h held_snoc show ?thesis by metis
next
  case world
  with h have "held_by held s' ps bs" by (simp add: held_by_def env_bit)
  with world show ?thesis by blast
qed

lemma run_held:
  assumes "pool_run body arrives env n c d" and "\<exists>bs. held_by held (fst c) (snd c) bs"
  shows "\<exists>bs. held_by held (fst d) (snd d) bs"
  using assms
proof (induction rule: pool_run.induct)
  case (run_step n c d e)
  then obtain bs where bs: "held_by held (fst d) (snd d) bs" by blast
  from run_step.hyps(2) have "pool_step body arrives env (fst d, snd d) (fst e, snd e)" by simp
  from step_held [OF this bs] show ?case .
qed simp

text \<open>At most one goroutine is ever inside, and then the bit is set.\<close>

theorem run_mutex:
  assumes "pool_run body arrives env n (s0, map body ts) (s, ps)" and "\<not> held s0"
    and "k < length ps" and "inside held (ps ! k)"
  shows "held s \<and> (\<forall>l < length ps. inside held (ps ! l) \<longrightarrow> l = k)"
proof -
  have "held_by held s0 (map body ts) (replicate (length ts) False)"
    using assms(2) by (auto simp: held_by_def list_all2_conv_all_nth body_brackets)
  with run_held [OF assms(1)] obtain bs where bs: "held_by held s ps bs" by auto
  then have len: "length bs = length ps" by (auto simp: held_by_def dest: list_all2_lengthD)
  have b: "bs ! j" if "j < length ps" "inside held (ps ! j)" for j
  proof (rule ccontr)
    assume "\<not> bs ! j"
    then have "brackets held (ps ! j) False"
      using bs that(1) list_all2_nthD [of "brackets held" ps bs j] by (simp add: held_by_def)
    with brackets_not_inside that(2) show False by blast
  qed
  have "True \<in> set bs" using b [OF assms(3,4)] assms(3) len by (metis nth_mem)
  then have "held s" using bs by (simp add: held_by_def)
  moreover have "l = k" if "l < length ps" "inside held (ps ! l)" for l
    using bs b [OF assms(3,4)] b [OF that] that(1) assms(3) len unfolding held_by_def by metis
  ultimately show ?thesis by blast
qed

end

end
