(* ===== verification/Dash_Locks.thy ===== *)
theory Dash_Locks
  imports Dash_Logic Lock
begin

text \<open>
  The mutexes \<open>op\<close> and \<open>webMu\<close> of a phone: the goroutines that do not use one leave it
  alone, the handlers that use it take it and give it back on every path, and so at most
  one action, and one fetch, of a phone is under way at any time.
\<close>

section \<open>The bits\<close>

definition op_bit :: "nat \<Rightarrow> phone_dashboard \<Rightarrow> bool" where
  "op_bit i d \<longleftrightarrow> i < length (d_phones d) \<and> p_op_locked (d_phones d ! i)"

definition web_bit :: "nat \<Rightarrow> phone_dashboard \<Rightarrow> bool" where
  "web_bit i d \<longleftrightarrow> i < length (d_phones d) \<and> p_web_locked (d_phones d ! i)"

definition same_bits :: "(phone_dashboard \<Rightarrow> bool) \<Rightarrow> phone_dashboard \<Rightarrow> phone_dashboard \<Rightarrow> bool" where
  "same_bits held d d' \<longleftrightarrow> held d' = held d"

definition any_dash :: "nat \<Rightarrow> phone_dashboard \<Rightarrow> bool" where
  "any_dash n d = True"

lemma bit_set:
  "op_bit i (upd_phone j (p_op_locked_update (\<lambda>_. b)) d) = (if i = j then i < length (d_phones d) \<and> b else op_bit i d)"
  "web_bit i (upd_phone j (p_web_locked_update (\<lambda>_. b)) d) = (if i = j then i < length (d_phones d) \<and> b else web_bit i d)"
  by (auto simp: op_bit_def web_bit_def state_simps nth_update)

lemma bit_free:
  "op_bit i d \<Longrightarrow> \<not> (length (d_phones d) \<le> i \<or> p_op_locked (d_phones d ! i)) \<Longrightarrow> P"
  "web_bit i d \<Longrightarrow> \<not> (length (d_phones d) \<le> i \<or> p_web_locked (d_phones d ! i)) \<Longrightarrow> P"
  by (auto simp: op_bit_def web_bit_def)

lemma bit_same:
  assumes "\<And>p. p_op_locked (f p) = p_op_locked p" shows "op_bit i (upd_phone j f d) = op_bit i d"
  by (cases "i < length (d_phones d)") (simp_all add: op_bit_def state_simps nth_update assms)

lemma web_same:
  assumes "\<And>p. p_web_locked (f p) = p_web_locked p" shows "web_bit i (upd_phone j f d) = web_bit i d"
  by (cases "i < length (d_phones d)") (simp_all add: web_bit_def state_simps nth_update assms)

lemma add_message_locks [state_simps]:
  "p_op_locked (add_message m p) = p_op_locked p" "p_web_locked (add_message m p) = p_web_locked p"
  by (simp_all add: add_message_def trim_def)

interpretation op_logic: dash_logic any_dash "same_bits (op_bit i)" for i
  by unfold_locales (simp_all add: any_dash_def same_bits_def)

interpretation web_logic: dash_logic any_dash "same_bits (web_bit i)" for i
  by unfold_locales (simp_all add: any_dash_def same_bits_def)

lemmas bit_simps = any_dash_def same_bits_def bit_same web_same state_simps set_status_def
  confirm_delivery_def frame_def next_id_def store_received_def

lemma bits_elsewhere:
  "op_bit i (log_event e d) = op_bit i d" "web_bit i (log_event e d) = web_bit i d"
  "op_bit i (d\<lparr>d_problem := x\<rparr>) = op_bit i d" "web_bit i (d\<lparr>d_problem := x\<rparr>) = web_bit i d"
  "op_bit i (d\<lparr>d_ready := r\<rparr>) = op_bit i d" "web_bit i (d\<lparr>d_ready := r\<rparr>) = web_bit i d"
  "op_bit i (d\<lparr>d_next := k\<rparr>) = op_bit i d" "web_bit i (d\<lparr>d_next := k\<rparr>) = web_bit i d"
  by (simp_all add: op_bit_def web_bit_def state_simps)

lemma bits_add_phone:
  "\<not> p_op_locked p \<Longrightarrow> op_bit i (add_phone p d) = op_bit i d"
  "\<not> p_web_locked p \<Longrightarrow> web_bit i (add_phone p d) = web_bit i d"
  by (auto simp: op_bit_def web_bit_def add_phone_def nth_append)

interpretation op_frame: dash_guarantee any_dash "same_bits (op_bit i)" for i
  by unfold_locales (simp_all add: op_logic.fine_def bit_simps bits_elsewhere bits_add_phone)

interpretation web_frame: dash_guarantee any_dash "same_bits (web_bit i)" for i
  by unfold_locales (simp_all add: web_logic.fine_def bit_simps bits_elsewhere bits_add_phone)

section \<open>The goroutines are bracketed\<close>

definition op_held :: "nat \<Rightarrow> 'w sys \<Rightarrow> bool" where
  "op_held i s = op_bit i (dash s)"

definition web_held :: "nat \<Rightarrow> 'w sys \<Rightarrow> bool" where
  "web_held i s = web_bit i (dash s)"

lemma held_world [simp]:
  "op_held i (s\<lparr>world := w\<rparr>) = op_held i s" "web_held i (s\<lparr>world := w\<rparr>) = web_held i s"
  by (simp_all add: op_held_def web_held_def)

lemma keeps_held:
  "keeps (on_dash any_dash) (dash_moves (same_bits (op_bit i))) p \<longleftrightarrow>
     keeps (\<lambda>n s. True) (\<lambda>s s'. op_held i s' = op_held i s) p"
  "keeps (on_dash any_dash) (dash_moves (same_bits (web_bit i))) p \<longleftrightarrow>
     keeps (\<lambda>n s. True) (\<lambda>s s'. web_held i s' = web_held i s) p"
  by (simp_all add: on_dash_def [abs_def] dash_moves_def [abs_def] any_dash_def same_bits_def op_held_def
      web_held_def)

lemmas op_keeps = keeps_held(1) [THEN iffD1]
lemmas web_keeps = keeps_held(2) [THEN iffD1]

lemma brackets_read_dash: "(\<And>a. brackets held (k a) b) \<Longrightarrow> brackets held (read_dash f k) b"
  unfolding read_dash_def by (rule brackets_atomic) auto

lemma brackets_lock_op:
  assumes "brackets (op_held i) k (i = j)"
  shows "brackets (op_held i) (lock_op j k) False"
  using assms unfolding lock_op_def await_def
  by (cases "i = j") (auto simp: brackets_Act op_held_def bit_set elim: bit_free split: if_splits)

lemma brackets_unlock_op: "brackets (op_held i) (unlock_op j (Ret r)) (i = j)"
  unfolding unlock_op_def set_phone_def step_dash_def atomic_def
  by (auto simp: brackets_Act op_held_def bit_set)

lemma brackets_lock_web:
  assumes "brackets (web_held i) k (i = j)"
  shows "brackets (web_held i) (lock_web j k) False"
  using assms unfolding lock_web_def await_def
  by (cases "i = j") (auto simp: brackets_Act web_held_def bit_set elim: bit_free split: if_splits)

lemma brackets_unlock_web: "brackets (web_held i) (unlock_web j (Ret r)) (i = j)"
  unfolding unlock_web_def set_phone_def step_dash_def atomic_def
  by (auto simp: brackets_Act web_held_def bit_set)

text \<open>The part of a handler that runs with the mutex held.\<close>

lemma action_brackets: "brackets (op_held i) (action_handler api env req) False"
proof -
  have "brackets (op_held i) (read_phone j p_call (\<lambda>call.
      bindp (dispatch api env j r call) (\<lambda>resp. unlock_op j (Ret resp)))) (i = j)" for j r
    unfolding read_phone_def
    by (rule brackets_read_dash, rule brackets_bindp_keeps)
      (rule op_keeps, rule op_frame.ok_dispatch, rule brackets_unlock_op)
  then show ?thesis unfolding action_handler_def
    by (auto intro!: brackets_read_dash brackets_lock_op split: option.split)
qed

lemma browse_brackets: "brackets (web_held i) (browse_handler api req) False"
proof -
  have "brackets (web_held i) (bindp (fetch_page api j u ru) (\<lambda>resp. unlock_web j (Ret resp))) (i = j)" for j u ru
    by (rule brackets_bindp_keeps) (rule web_keeps, rule web_frame.ok_fetch_page, rule brackets_unlock_web)
  then show ?thesis unfolding browse_handler_def
    by (auto intro!: brackets_read_dash brackets_lock_web brackets_unlock_web split: option.split sum.split)
qed

lemma answered_brackets:
  assumes "brackets held h False" and "\<And>s w. held (s\<lparr>world := w\<rparr>) = held s"
  shows "brackets held (answered api conn h) False"
  unfolding answered_def call_world_def
  by (auto intro!: brackets_bindp [OF assms(1)] brackets_atomic simp: assms(2) split: prod.splits)

lemma op_body_brackets: "brackets (op_held i) (body api env t) False"
proof (cases "\<exists>conn req. t = TAction conn req")
  case True
  then show ?thesis
    by (auto simp: body_def intro!: answered_brackets action_brackets)
next
  case False
  then show ?thesis
    by (intro brackets_keeps op_keeps op_frame.ok_body_without_locks)
      (auto simp: op_logic.fine_def any_dash_def same_bits_def bit_same)
qed

lemma web_body_brackets: "brackets (web_held i) (body api env t) False"
proof (cases "\<exists>conn req. t = TBrowse conn req")
  case True
  then show ?thesis
    by (auto simp: body_def intro!: answered_brackets browse_brackets)
next
  case False
  then show ?thesis
    by (intro brackets_keeps web_keeps web_frame.ok_body_without_locks)
      (auto simp: web_logic.fine_def any_dash_def same_bits_def web_same)
qed

interpretation op_mutex: mutex "body api env" arrives world_moves "op_held i"
  for api :: "'w phone_api" and env i
  by unfold_locales (auto simp: op_body_brackets world_moves_def op_held_def)

interpretation web_mutex: mutex "body api env" arrives world_moves "web_held i"
  for api :: "'w phone_api" and env i
  by unfold_locales (auto simp: web_body_brackets world_moves_def web_held_def)

end
