(* ===== verification/Lab.thy ===== *)
theory Lab
  imports Dashboard
begin

text \<open>
  A concrete outside world in which the dashboard runs: the world is a clock, every call
  succeeds, nothing arrives.  It instantiates the parameters of the model where a property
  is applied at a concrete input.
\<close>

definition lab_subscriber :: "string \<Rightarrow> string \<Rightarrow> subscriber_spec" where
  "lab_subscriber imsi msisdn = \<lparr>sp_imsi = imsi, sp_msisdn = msisdn, sp_key = [], sp_opc = [],
     sp_sequence_number = [], sp_profile_name = []\<rparr>"

definition lab_session :: "nat \<Rightarrow> pdu_session" where
  "lab_session u = \<lparr>ses_ue_ipv4 = ''10.45.0.'' @ itoa (u + 2), ses_upf_address = ''10.3.0.3'',
     ses_ulteid = 1, ses_dlteid = 2, ses_qfi = 1\<rparr>"

definition lab_leg :: "nat \<Rightarrow> ue_leg" where
  "lab_leg u = \<lparr>leg_ue = u, leg_gnb = 0, leg_ran_id = int u, leg_session = lab_session u\<rparr>"

definition lab_attach :: "subscriber_spec list \<Rightarrow> (ims_endpoint \<times> ue_leg) list" where
  "lab_attach ss = map (\<lambda>(u, s).
     (\<lparr>ep_imsi = sp_imsi s, ep_msisdn = sp_msisdn s, ep_local = ''10.46.0.2''\<rparr>, lab_leg u)) (enumerate 0 ss)"

definition lab_radio :: "nat radio_api" where
  "lab_radio = \<lparr>ims_subscriber = lab_subscriber, default_ran_id = 1,
     start_gnb = (\<lambda>g w. (Inr 0, w)), radio_start = (\<lambda>opts w. (Inr 0, w)), wait_setup = (\<lambda>g w. (None, w)),
     gnb_close = (\<lambda>g w. w), new_subscriber_ue = (\<lambda>g s w. (Inr 0, w)), add_ue = (\<lambda>g i u w. w),
     register_ue = (\<lambda>g u i w. (Inr (lab_session u), w)), attach_ims_ues = (\<lambda>e g ss w. (Inr (lab_attach ss), w)),
     dashboard_ims = (\<lambda>e w. (Inr 0, w)), internet_session = (\<lambda>g u i w. (Inr (lab_session u), w)),
     kernel = (\<lambda>c w. (Inr 0, w)), run_command = (\<lambda>fw args w. (([], None), w)),
     listen_tcp = (\<lambda>a w. (Inr 0, w))\<rparr>"

definition lab_conns :: "nat conn_api" where
  "lab_conns = \<lparr>accept_conn = (\<lambda>l w. None), read_full = (\<lambda>c n w. None), write_conn = (\<lambda>c bs w. w),
     close_conn = (\<lambda>c w. w), relay = (\<lambda>c u w. Some ((), w))\<rparr>"

definition lab_net :: "nat net_api" where
  "lab_net = \<lparr>parse_ip = (\<lambda>s. None), lookup_netip = (\<lambda>r n h w. (Inr [IPv4 (ipv4 8 8 8 8)], w)),
     dial_tcp = (\<lambda>d n a w. (Inr 0, w)),
     round_trip = (\<lambda>dial u w.
       (Inr \<lparr>wr_status = 200, wr_location = [], wr_content_type = ''text/plain'', wr_body = Some ''hello''\<rparr>, w))\<rparr>"

definition lab_html :: html_api where
  "lab_html = \<lparr>parse_html = (\<lambda>s. Some (Node TextNode s [] [])), escape_html = (\<lambda>s. s)\<rparr>"

definition lab_chromium :: "nat chromium_api" where
  "lab_chromium = \<lparr>list_tabs = (\<lambda>w. (Some [], w)), ws_dial = (\<lambda>u w. (Inr 0, w)), ws_send = (\<lambda>c v w. (None, w)),
     ws_receive = (\<lambda>c w. (Inl ''closed'', w)), ws_close = (\<lambda>c w. w), sprint = (\<lambda>v. [])\<rparr>"

text \<open>The body of a request stands for its JSON value: one character selects it.\<close>

definition lab_request :: "string \<Rightarrow> json option" where
  "lab_request s =
    (if s = ''sms'' then Some (JObj [(''phone'', JStr ''1''), (''action'', JStr ''sms''),
        (''to'', JStr ''+15558400004''), (''text'', JStr ''hello'')])
     else if s = ''hangup'' then Some (JObj [(''phone'', JStr ''1''), (''action'', JStr ''hangup'')])
     else None)"

definition lab_api :: "nat phone_api" where
  "lab_api = \<lparr>now = (\<lambda>w. (int w, Suc w)), sleep = (\<lambda>n w. w + n), json_value = lab_request,
     sms_submit = (\<lambda>u from to text w. ((None, None), w)), sms_receive = (\<lambda>u w. None), sms_allowed = (\<lambda>u w. True),
     ims_register = (\<lambda>u w. (None, w)), ims_deregister = (\<lambda>u w. (None, w)), ims_registered = (\<lambda>u w. True),
     ims_invite = (\<lambda>u to w. (Inr 0, w)), next_call = (\<lambda>u w. None), call_status = (\<lambda>c w. CallConfirmed),
     state_text = (\<lambda>s. ''confirmed''), call_end = (\<lambda>c w. []), call_incoming = (\<lambda>c w. False),
     call_ring = (\<lambda>c w. (None, w)), call_answer = (\<lambda>c w. (None, w)), call_bye = (\<lambda>c w. (None, w)),
     call_cancel = (\<lambda>c w. (None, w)), call_reject = (\<lambda>c code w. (None, w)), media_select = (\<lambda>c w. Some (False, w)),
     audio_stream = (\<lambda>c w. None), leg_flows = (\<lambda>u w. []), downlink_count = (\<lambda>u t q w. 0),
     upf_parses = (\<lambda>s. True), udp_packet = (\<lambda>src dst bs. bs), send_gpdu = (\<lambda>u t a q bs w. (None, w)),
     peer_state = (\<lambda>u w. (PollFailed, w)), radio = lab_radio, conns = lab_conns, net = lab_net,
     html = lab_html, chromium = lab_chromium, respond_state = (\<lambda>c v w. w), respond = (\<lambda>c r w. w)\<rparr>"

definition lab_env :: environment where
  "lab_env v = (if v = ''CORE_N2'' then ''10.3.0.2'' else [])"

definition lab_start :: "nat sys" where
  "lab_start = \<lparr>dash = new_dashboard, world = 0\<rparr>"

text \<open>The dashboard it ends up with: two phones, ready.\<close>

definition lab_phone :: "nat \<Rightarrow> string \<Rightarrow> string \<Rightarrow> dashboard_phone" where
  "lab_phone u imsi msisdn = (new_phone lab_env u
     \<lparr>ep_imsi = imsi, ep_msisdn = msisdn, ep_local = ''10.46.0.2''\<rparr> (lab_leg u) (Some 0))
     \<lparr>p_internet_ip := ses_ue_ipv4 (lab_session u), p_internet_session := lab_session u\<rparr>"

definition lab_attached :: string where
  "lab_attached = ''5G attached; internet and IMS PDU sessions established''"

definition lab_dash :: phone_dashboard where
  "lab_dash = \<lparr>d_phones = [lab_phone 0 ''001018400000003'' ''+15558400003'',
       lab_phone 1 ''001018400000004'' ''+15558400004''],
     d_events = [\<lparr>e_at = 0, e_phone = ''1'', e_text = lab_attached\<rparr>,
       \<lparr>e_at = 1, e_phone = ''2'', e_text = lab_attached\<rparr>,
       \<lparr>e_at = 2, e_phone = ''network'',
        e_text = ''UE ready. Register IMS to make calls; NAS SMS is available immediately.''\<rparr>],
     d_ready = True, d_problem = [], d_next = 0\<rparr>"

lemmas lab_defs = lab_api_def lab_radio_def lab_start_def lab_env_def lab_attach_def lab_leg_def
  lab_session_def lab_subscriber_def lab_phone_def lab_dash_def lab_attached_def

lemmas initialize_defs = initialize_def start_phone_gnb_def gnb_environment_def attach_ues_def
  subscribers_def selected_subscribers_def services_enabled_def phone_mode_def open_ims_def
  new_phone_def attach_internet_def remove_stale_tunnel_def publish_phone_def ready_dash_def
  network_event_def new_dashboard_def add_phone_def

lemma lab_itoa: "itoa 1 = ''1''" "itoa (Suc 0) = ''1''" "itoa 2 = ''2''" "itoa (Suc (Suc 0)) = ''2''"
  "itoa 3 = ''3''" "itoa 0 = ''0''"
  by code_simp+

lemma lab_initialize:
  "exec (initialize lab_api lab_env) lab_start
    = Some (\<lparr>dash = lab_dash, world = 3\<rparr>, [TSms 0, TCalls 0, TSms 1, TCalls 1], None)"
  by (simp add: initialize_defs lab_defs run_simps Let_def lab_itoa enumerate_eq_zip log_event_def
      upd_phone_def)

section \<open>Runs of the whole program\<close>

text \<open>
  \<open>reaches api env w n s ps\<close>: a dashboard that starts in the world \<open>w\<close>, with one goroutine
  that attaches the phones, can be in state \<open>s\<close> with goroutines \<open>ps\<close> after \<open>n\<close> steps.
\<close>

definition reaches ::
  "'w phone_api \<Rightarrow> environment \<Rightarrow> 'w \<Rightarrow> nat \<Rightarrow> 'w sys \<Rightarrow> ('w, task option) goroutine list \<Rightarrow> bool" where
  "reaches api env w n s ps \<longleftrightarrow>
     pool_run (body api env) arrives world_moves n (\<lparr>dash = new_dashboard, world = w\<rparr>, [body api env TInit]) (s, ps)"

definition continues ::
  "'w phone_api \<Rightarrow> environment \<Rightarrow> 'w sys \<Rightarrow> ('w, task option) goroutine list \<Rightarrow> nat \<Rightarrow> 'w sys
     \<Rightarrow> ('w, task option) goroutine list \<Rightarrow> bool" where
  "continues api env s ps n s' ps' \<longleftrightarrow> pool_run (body api env) arrives world_moves n (s, ps) (s', ps')"

text \<open>The laboratory attaches its phones, and then a request arrives.\<close>

lemma run_length_actions:
  "run_length (call_world f k) s = (case f (world s) of (a, w) \<Rightarrow> Suc (run_length (k a) (s\<lparr>world := w\<rparr>)))"
  "run_length (try_world h bad k') s = (case h (world s) of
     (Inl e, w) \<Rightarrow> Suc (run_length (bad e) (s\<lparr>world := w\<rparr>)) | (Inr a', w) \<Rightarrow> Suc (run_length (k' a') (s\<lparr>world := w\<rparr>)))"
  "run_length (step_dash t k2) s = (case t (dash s) of (a2, d) \<Rightarrow> Suc (run_length (k2 a2) (s\<lparr>dash := d\<rparr>)))"
  "run_length (timed_dash api g k3) s =
     (case now api (world s) of (t', w) \<Rightarrow> Suc (run_length k3 (s\<lparr>dash := g t' (dash s), world := w\<rparr>)))"
  by (auto simp: call_world_def try_world_def step_dash_def timed_dash_def split: prod.split sum.split)

lemma lab_steps: "run_length (initialize lab_api lab_env) lab_start < 100"
  by (simp add: initialize_defs lab_defs run_length_actions emit_event_def Let_def lab_itoa enumerate_eq_zip
      log_event_def upd_phone_def)

lemma lab_reaches: "\<exists>n ps. n < 100 \<and> reaches lab_api lab_env 0 n \<lparr>dash = lab_dash, world = 3\<rparr> ps"
proof -
  have "exec (body lab_api lab_env TInit) \<lparr>dash = new_dashboard, world = 0\<rparr>
      = Some (\<lparr>dash = lab_dash, world = 3\<rparr>, [TSms 0, TCalls 0, TSms 1, TCalls 1], None)"
    using lab_initialize by (simp add: body_def lab_start_def)
  from exec_is_pool_run [where us = "[]" and qs = "[]" and body = "body lab_api lab_env"
      and arrives = arrives and env = world_moves, OF this]
  have "reaches lab_api lab_env 0 (run_length (body lab_api lab_env TInit) \<lparr>dash = new_dashboard, world = 0\<rparr>)
      \<lparr>dash = lab_dash, world = 3\<rparr> (Ret None # map (body lab_api lab_env) [TSms 0, TCalls 0, TSms 1, TCalls 1])"
    unfolding reaches_def append_Nil .
  moreover have "run_length (body lab_api lab_env TInit) \<lparr>dash = new_dashboard, world = 0\<rparr> < 100"
    using lab_steps by (simp add: body_def lab_start_def)
  ultimately show ?thesis by blast
qed

definition lab_sms :: http_request where
  "lab_sms = \<lparr>rq_method = ''POST'', rq_path = ''/api/action'', rq_host = ''phones'', rq_header = Map.empty,
     rq_body = ''sms''\<rparr>"

definition lab_message :: "string \<Rightarrow> phone_message" where
  "lab_message st = \<lparr>m_id = 1, m_direction = sent, m_peer = ''+15558400004'', m_text = ''hello'',
     m_status = st, m_at = 3\<rparr>"

definition lab_req :: action_req where
  "lab_req = \<lparr>a_phone = ''1'', a_action = ''sms'', a_to = ''+15558400004'', a_text = ''hello''\<rparr>"

lemma lab_decode: "decode_action lab_api lab_sms = Some lab_req"
  by (simp add: lab_sms_def decode_action_def lab_api_def lab_request_def decode_object_def field_of_def field_def lab_req_def)

lemma lab_runes: "runes ''hello'' = map (\<lambda>c. (of_char c, [c])) ''hello''"
  "runes ''15558400004'' = map (\<lambda>c. (of_char c, [c])) ''15558400004''"
  by (rule runes_ascii, simp)+

lemma lab_number: "valid_phone_number ''+15558400004''"
  by (simp add: valid_phone_number_def lab_runes)

text \<open>Sending a message from the first phone.\<close>

lemma lab_send:
  "exec (body lab_api lab_env (TAction 0 lab_sms)) \<lparr>dash = lab_dash, world = 3\<rparr>
    = Some (\<lparr>dash = log_event \<lparr>e_at = 4, e_phone = ''1'', e_text = ''sms succeeded''\<rparr>
        (upd_phone 0 (add_message (lab_message accepted)) (lab_dash\<lparr>d_next := 1\<rparr>)), world = 5\<rparr>, [], None)"
  by (simp add: body_def answered_def action_handler_def lab_sms_def same_origin_def header_get_def
      decode_action_def lab_defs lab_request_def decode_object_def field_of_def field_def new_phone_def
      lab_itoa services_enabled_def phone_mode_def exec_bindp run_simps dispatch_def known_action_def perform_def do_sms_def
      rune_count_def lab_runes lab_number next_id_def upd_phone_def submit_error_def set_status_def
      add_message_def trim_def lab_message_def finish_action_def log_event_def Let_def)

lemma lab_perform:
  "exec (perform lab_api lab_env 0 lab_req None) \<lparr>dash = lab_dash, world = 3\<rparr>
    = Some (\<lparr>dash = upd_phone 0 (add_message (lab_message accepted)) (lab_dash\<lparr>d_next := 1\<rparr>), world = 4\<rparr>, [], None)"
  by (simp add: lab_defs new_phone_def lab_req_def perform_def do_sms_def run_simps
      rune_count_def lab_runes lab_number next_id_def upd_phone_def submit_error_def set_status_def
      add_message_def trim_def lab_message_def Let_def)

lemma lab_dispatch:
  "exec (dispatch lab_api lab_env 0 lab_req None) \<lparr>dash = lab_dash, world = 3\<rparr>
    = Some (\<lparr>dash = log_event \<lparr>e_at = 4, e_phone = ''1'', e_text = ''sms succeeded''\<rparr>
        (upd_phone 0 (add_message (lab_message accepted)) (lab_dash\<lparr>d_next := 1\<rparr>)), world = 5\<rparr>, [],
        json_reply 200 (JObj [(''ok'', JBool True)]))"
proof -
  have "known_action (a_action lab_req)" by (simp add: known_action_def lab_req_def)
  then show ?thesis
    by (simp add: dispatch_def exec_bindp lab_perform)
      (simp add: lab_defs new_phone_def lab_itoa lab_req_def run_simps finish_action_def upd_phone_def
        log_event_def add_message_def trim_def Let_def)
qed

end
