(* ===== verification/Dash_Runs.thy ===== *)
theory Dash_Runs
  imports Dash_History Dash_Locks Lab
begin

text \<open>
  Properties of every run of the dashboard, from the creation of the dashboard on, with any
  interleaving of its goroutines, any requests and any outside world.
\<close>

lemma new_dashboard_inv: "dash_inv 0 new_dashboard"
  by (simp add: dash_inv_def new_dashboard_def)

lemma reaches_inv:
  assumes "reaches api env w n s ps"
  shows "dash_inv n (dash s)"
proof -
  have "pool_run (body api env) arrives world_moves n
      (\<lparr>dash = new_dashboard, world = w\<rparr>, map (body api env) [TInit]) (s, ps)"
    using assms by (simp add: reaches_def)
  then show ?thesis
    using dashboard.run_invariant [of api env n "\<lparr>dash = new_dashboard, world = w\<rparr>" "[TInit]" s ps]
    by (simp add: on_dash_def new_dashboard_inv)
qed

lemma dash_moves_later:
  "(dash_moves dash_guar)\<^sup>*\<^sup>* s s' \<Longrightarrow> dash_later (dash s) (dash s')"
  by (induction rule: rtranclp_induct)
    (auto simp: dash_moves_def dash_later_refl intro: dash_later_trans dash_guar_later)

lemma continues_later:
  assumes "reaches api env w n s ps" and "continues api env s ps m s' ps'"
  shows "dash_later (dash s) (dash s')"
proof -
  have "pool_run (body api env) arrives world_moves n
      (\<lparr>dash = new_dashboard, world = w\<rparr>, map (body api env) [TInit]) (s, ps)"
    using assms(1) by (simp add: reaches_def)
  from dashboard.run_guarantee [OF this _ assms(2) [unfolded continues_def]]
  show ?thesis by (intro dash_moves_later) (simp add: on_dash_def new_dashboard_inv)
qed

lemma reaches_step_guar:
  assumes "reaches api env w n s ps" and "pool_step (body api env) arrives world_moves (s, ps) (s', ps')"
  shows "dash_guar (dash s) (dash s')"
proof -
  have "pool_run (body api env) arrives world_moves n
      (\<lparr>dash = new_dashboard, world = w\<rparr>, map (body api env) [TInit]) (s, ps)"
    using assms(1) by (simp add: reaches_def)
  from dashboard.run_keeps [OF this, of 0] new_dashboard_inv dashboard.ok_body
  have "on_dash dash_inv n s" "\<forall>p \<in> set ps. keeps (on_dash dash_inv) (dash_moves dash_guar) p"
    by (auto simp: on_dash_def)
  from dashboard.step_keeps [OF assms(2) this] show ?thesis by (simp add: dash_moves_def)
qed

text \<open>The laboratory run: the phones attach, and the first one sends a message.\<close>

definition lab_sent :: "nat sys" where
  "lab_sent = \<lparr>dash = log_event \<lparr>e_at = 4, e_phone = ''1'', e_text = ''sms succeeded''\<rparr>
     (upd_phone 0 (add_message (lab_message accepted)) (lab_dash\<lparr>d_next := 1\<rparr>)), world = 5\<rparr>"

lemma lab_continues:
  "\<exists>n ps m ps'. reaches lab_api lab_env 0 n \<lparr>dash = lab_dash, world = 3\<rparr> ps
     \<and> continues lab_api lab_env \<lparr>dash = lab_dash, world = 3\<rparr> ps m lab_sent ps'"
proof -
  obtain n ps where r: "reaches lab_api lab_env 0 n \<lparr>dash = lab_dash, world = 3\<rparr> ps" using lab_reaches by blast
  have run: "pool_run (body lab_api lab_env) arrives world_moves 0 (\<lparr>dash = lab_dash, world = 3\<rparr>, ps)
      (\<lparr>dash = lab_dash, world = 3\<rparr>, ps)"
    by (rule pool_run.run_refl)
  have "arrives (TAction 0 lab_sms)" by simp
  from pool_run_arrival [where body = "body lab_api lab_env" and t = "TAction 0 lab_sms", OF run this
      lab_send [folded lab_sent_def]]
  show ?thesis using r unfolding continues_def by blast
qed

lemma lab_reaches_sent: "\<exists>n ps. reaches lab_api lab_env 0 n lab_sent ps"
  using lab_continues unfolding reaches_def continues_def by (blast intro: pool_run_trans)

lemma lab_sent_messages:
  "length (d_phones (dash lab_sent)) = 2"
  "p_messages (d_phones (dash lab_sent) ! 0) = [lab_message accepted]"
  by (simp_all add: lab_sent_def state_simps lab_dash_def lab_phone_def new_phone_def Let_def lastn_def)

section \<open>Bounded histories\<close>

text \<open>C6. Bounded histories: in every run of the dashboard, whatever requests, messages and
calls arrive and however the goroutines interleave, no phone ever holds more than 100 messages
and the event log never more than 100 events.\<close>

theorem histories_bounded:
  assumes "reaches api env w n s ps"
  shows "length (d_events (dash s)) \<le> 100 \<and> list_all (\<lambda>p. length (p_messages p) \<le> 100) (d_phones (dash s))"
  using reaches_inv [OF assms] by (simp add: dash_inv_def list_all_iff)

lemma histories_bounded_witness:
  "\<exists>n ps. reaches lab_api lab_env 0 n lab_sent ps \<and> length (d_phones (dash lab_sent)) = 2
     \<and> length (d_events (dash lab_sent)) \<le> 100
     \<and> list_all (\<lambda>p. length (p_messages p) \<le> 100) (d_phones (dash lab_sent))"
proof -
  obtain n ps where r: "reaches lab_api lab_env 0 n lab_sent ps" using lab_reaches_sent by blast
  with histories_bounded [OF r] lab_sent_messages(1) show ?thesis by blast
qed

text \<open>C8. Received messages are numbered in order: in a run of fewer than 2 to the 64 steps the
received messages of every phone carry strictly increasing numbers, none of them above the
counter of the dashboard, although the receivers and the handlers draw numbers concurrently.\<close>

theorem received_numbers_increase:
  assumes "reaches api env w n s ps" and "n < 2 ^ 64"
  shows "list_all (\<lambda>p. sorted_wrt (<) (received_ids p)
      \<and> list_all (\<lambda>x. x \<le> d_next (dash s)) (received_ids p)) (d_phones (dash s))"
  using reaches_inv [OF assms(1)] assms(2) by (simp add: dash_inv_def received_ok_def list_all_iff)

lemma received_numbers_increase_witness:
  "\<exists>n ps. reaches lab_api lab_env 0 n \<lparr>dash = lab_dash, world = 3\<rparr> ps
     \<and> length (d_phones lab_dash) = 2
     \<and> list_all (\<lambda>p. sorted_wrt (<) (received_ids p) \<and> list_all (\<lambda>x. x \<le> d_next lab_dash) (received_ids p))
          (d_phones lab_dash)"
proof -
  obtain n ps where n: "n < 100" and r: "reaches lab_api lab_env 0 n \<lparr>dash = lab_dash, world = 3\<rparr> ps"
    using lab_reaches by blast
  from n have "n < 2 ^ 64" by simp
  from received_numbers_increase [OF r this] show ?thesis using r by (auto simp: lab_dash_def)
qed

section \<open>Histories only evolve\<close>

text \<open>C1. From any point of a run on, phones are never dropped or exchanged, their identifier and
subscriber never change, and a message history only evolves: it is the old one with some
statuses moved on, new messages appended and the oldest dropped.  A dashboard that is ready stays so.\<close>

theorem phones_evolve:
  assumes "reaches api env w n s ps" and "continues api env s ps m s' ps'"
    and "i < length (d_phones (dash s))"
  shows "i < length (d_phones (dash s')) \<and> (d_ready (dash s) \<longrightarrow> d_ready (dash s'))
     \<and> p_id (d_phones (dash s') ! i) = p_id (d_phones (dash s) ! i)
     \<and> p_endpoint (d_phones (dash s') ! i) = p_endpoint (d_phones (dash s) ! i)
     \<and> evolves (p_messages (d_phones (dash s) ! i)) (p_messages (d_phones (dash s') ! i))"
  using continues_later [OF assms(1,2)] assms(3) by (auto simp: dash_later_def phone_later_def)

lemma phones_evolve_witness:
  "evolves (p_messages (d_phones lab_dash ! 0)) (p_messages (d_phones (dash lab_sent) ! 0))
     \<and> p_messages (d_phones (dash lab_sent) ! 0) = [lab_message accepted]"
proof -
  obtain n ps m ps' where r: "reaches lab_api lab_env 0 n \<lparr>dash = lab_dash, world = 3\<rparr> ps"
    and c: "continues lab_api lab_env \<lparr>dash = lab_dash, world = 3\<rparr> ps m lab_sent ps'"
    using lab_continues by blast
  have "0 < length (d_phones (dash \<lparr>dash = lab_dash, world = 3\<rparr>))" by (simp add: lab_dash_def)
  from phones_evolve [OF r c this] lab_sent_messages(2) show ?thesis by simp
qed

text \<open>C21. One step of a run changes a message history in one of two ways only: statuses move on, each
message keeping its number, direction, peer, text and time and a delivered one staying delivered; or
exactly one message is appended, and of a full history exactly the oldest one is dropped.\<close>

theorem history_steps:
  assumes "reaches api env w n s ps" and "pool_step (body api env) arrives world_moves (s, ps) (s', ps')"
    and "i < length (d_phones (dash s))"
  shows "list_all2 message_step (p_messages (d_phones (dash s) ! i)) (p_messages (d_phones (dash s') ! i))
     \<or> (\<exists>m. m_status m \<in> {submitting, received}
          \<and> p_messages (d_phones (dash s') ! i) = lastn 100 (p_messages (d_phones (dash s) ! i) @ [m]))"
  using reaches_step_guar [OF assms(1,2)] assms(3)
  by (simp add: dash_guar_def phone_guar_def history_step_def)

lemma history_steps_witness:
  "list_all2 message_step (p_messages (d_phones lab_dash ! 0)) (p_messages (d_phones lab_dash ! 0))
     \<or> (\<exists>m. m_status m \<in> {submitting, received}
          \<and> p_messages (d_phones lab_dash ! 0) = lastn 100 (p_messages (d_phones lab_dash ! 0) @ [m]))"
proof -
  obtain n ps where r: "reaches lab_api lab_env 0 n \<lparr>dash = lab_dash, world = 3\<rparr> ps" using lab_reaches by blast
  have st: "pool_step (body lab_api lab_env) arrives world_moves (\<lparr>dash = lab_dash, world = 3\<rparr>, ps)
      (\<lparr>dash = lab_dash, world = 3\<rparr>, ps @ [body lab_api lab_env (TAction 0 lab_sms)])"
    by (rule pool_step.arrive) simp
  have "0 < length (d_phones (dash \<lparr>dash = lab_dash, world = (3::nat)\<rparr>))" by (simp add: lab_dash_def)
  from history_steps [OF r st this] show ?thesis by simp
qed

section \<open>Mutual exclusion\<close>

text \<open>A run of the laboratory that is stopped while the handler holds the mutex.\<close>

definition lab_critical :: "(nat, http_response) goroutine" where
  "lab_critical = read_phone 0 p_call (\<lambda>call.
     bindp (dispatch lab_api lab_env 0 lab_req call) (\<lambda>resp. unlock_op 0 (Ret resp)))"

definition lab_answer :: "http_response \<Rightarrow> (nat, task option) goroutine" where
  "lab_answer resp = call_world (\<lambda>w. ((), respond lab_api 0 resp w)) (\<lambda>_. Ret None)"

definition lab_locked :: "nat sys" where
  "lab_locked = \<lparr>dash = upd_phone 0 (p_op_locked_update (\<lambda>_. True)) lab_dash, world = 3\<rparr>"

lemma lab_inside: "inside (op_held 0) (bindp lab_critical lab_answer)"
proof -
  have "op_held 0 lab_locked"
    by (simp add: lab_locked_def op_held_def op_bit_def state_simps lab_dash_def)
  moreover have "\<exists>s' ts r. exec (bindp lab_critical lab_answer) lab_locked = Some (s', ts, r) \<and> \<not> op_held 0 s'"
    by (simp add: lab_critical_def lab_answer_def lab_locked_def lab_req_def
      lab_defs new_phone_def
      lab_itoa services_enabled_def phone_mode_def exec_bindp run_simps dispatch_def known_action_def perform_def do_sms_def
      rune_count_def lab_runes lab_number next_id_def upd_phone_def submit_error_def set_status_def
      add_message_def trim_def finish_action_def log_event_def Let_def op_held_def op_bit_def)
  ultimately show ?thesis unfolding inside_def by blast
qed

lemma lab_reaches_locked: "\<exists>n ps k. reaches lab_api lab_env 0 n lab_locked ps \<and> k < length ps
    \<and> ps ! k = bindp lab_critical lab_answer"
proof -
  let ?S = "\<lparr>dash = lab_dash, world = 3\<rparr>"
  obtain n ps where r: "reaches lab_api lab_env 0 n ?S ps" using lab_reaches by blast
  let ?i = "length ps"
  have b: "body lab_api lab_env (TAction 0 lab_sms) = bindp (action_handler lab_api lab_env lab_sms) lab_answer"
    by (simp add: body_def answered_def lab_answer_def [abs_def])
  have so: "same_origin lab_sms" by (simp add: same_origin_def lab_sms_def header_get_def)
  have fp: "find_phone 0 (d_phones lab_dash) ''1'' None = Some 0" "d_ready lab_dash"
    by (simp_all add: lab_defs new_phone_def lab_itoa Let_def)
  have en: "services_enabled lab_env" by (simp add: services_enabled_def phone_mode_def lab_env_def)
  let ?G = "\<lambda>(found, ready). case found of None \<Rightarrow> Ret not_ready
      | Some i \<Rightarrow> if \<not> ready then Ret not_ready else if \<not> services_enabled lab_env then Ret services_off
        else lock_op i (read_phone i p_call (\<lambda>call. bindp (dispatch lab_api lab_env i lab_req call) (\<lambda>resp. unlock_op i (Ret resp))))"
  have h: "action_handler lab_api lab_env lab_sms
      = atomic (\<lambda>s. ((find_phone 0 (d_phones (dash s)) ''1'' None, d_ready (dash s)), s)) ?G"
    by (simp add: action_handler_def so lab_decode read_dash_def) (simp add: lab_req_def)
  have s1: "pool_step (body lab_api lab_env) arrives world_moves (?S, ps) (?S, ps @ [bindp (action_handler lab_api lab_env lab_sms) lab_answer])"
    unfolding b [symmetric] by (rule pool_step.arrive) simp
  have s2: "pool_step (body lab_api lab_env) arrives world_moves
      (?S, ps @ [bindp (action_handler lab_api lab_env lab_sms) lab_answer]) (?S, ps @ [bindp (lock_op 0 lab_critical) lab_answer])"
    using pool_act_atomic [where i = ?i and ps = "ps @ [bindp (action_handler lab_api lab_env lab_sms) lab_answer]"
      and s = ?S and s' = ?S and a = "(Some 0, True)" and K = lab_answer and k = ?G
      and f = "\<lambda>s. ((find_phone 0 (d_phones (dash s)) ''1'' None, d_ready (dash s)), s)"
      and body = "body lab_api lab_env" and arrives = arrives and env = world_moves]
    by (simp add: h fp en lab_critical_def)
  have s3: "pool_step (body lab_api lab_env) arrives world_moves
      (?S, ps @ [bindp (lock_op 0 lab_critical) lab_answer]) (lab_locked, ps @ [bindp lab_critical lab_answer])"
    using pool_act_await [where i = ?i and ps = "ps @ [bindp (lock_op 0 lab_critical) lab_answer]"
      and s = ?S and s' = lab_locked and a = "()" and K = lab_answer and k = "\<lambda>_. lab_critical"
      and f = "\<lambda>s. if length (d_phones (dash s)) \<le> 0 \<or> p_op_locked (d_phones (dash s) ! 0) then None
     else Some ((), s\<lparr>dash := upd_phone 0 (p_op_locked_update (\<lambda>_. True)) (dash s)\<rparr>)"
      and body = "body lab_api lab_env" and arrives = arrives and env = world_moves]
    by (simp add: lock_op_def lab_locked_def) (simp add: lab_defs new_phone_def Let_def)
  from r have "reaches lab_api lab_env 0 (Suc (Suc (Suc n))) lab_locked (ps @ [bindp lab_critical lab_answer])"
    unfolding reaches_def using s1 s2 s3 by (blast intro: pool_run.run_step)
  then show ?thesis by (intro exI [of _ "Suc (Suc (Suc n))"] exI [of _ "ps @ [bindp lab_critical lab_answer]"] exI [of _ ?i]) simp
qed

text \<open>C2. Actions and fetches of a phone are serialised: in every run at most one goroutine at a time is
inside the section that runs under the phone's \<open>op\<close> mutex, at most one is inside the section under its
\<open>webMu\<close> mutex, and while one is, that mutex is taken.\<close>

theorem actions_serialised:
  assumes "reaches api env w n s ps" and "k < length ps"
    and "held = op_held i \<or> held = web_held i" and "inside held (ps ! k)"
  shows "held s \<and> (\<forall>l < length ps. inside held (ps ! l) \<longrightarrow> l = k)"
proof -
  have run: "pool_run (body api env) arrives world_moves n
      (\<lparr>dash = new_dashboard, world = w\<rparr>, map (body api env) [TInit]) (s, ps)"
    using assms(1) by (simp add: reaches_def)
  have "\<not> op_held i \<lparr>dash = new_dashboard, world = w\<rparr>" "\<not> web_held i \<lparr>dash = new_dashboard, world = w\<rparr>"
    by (simp_all add: op_held_def op_bit_def web_held_def web_bit_def new_dashboard_def)
  with assms(2-4) op_mutex.run_mutex [OF run] web_mutex.run_mutex [OF run] show ?thesis by blast
qed

lemma actions_serialised_witness:
  "\<exists>n ps k. reaches lab_api lab_env 0 n lab_locked ps \<and> k < length ps
     \<and> inside (op_held 0) (ps ! k) \<and> op_held 0 lab_locked
     \<and> (\<forall>l < length ps. inside (op_held 0) (ps ! l) \<longrightarrow> l = k)"
proof -
  obtain n ps k where r: "reaches lab_api lab_env 0 n lab_locked ps" "k < length ps"
    "ps ! k = bindp lab_critical lab_answer" using lab_reaches_locked by blast
  from lab_inside r(3) have "inside (op_held 0) (ps ! k)" by simp
  with actions_serialised [OF r(1,2) _ this, of 0] r show ?thesis by blast
qed
end
