(* ===== verification/Dash_Actions.thy ===== *)
theory Dash_Actions
  imports Dash_Locks Lab
begin

text \<open>
  What the action handler does on each of its branches, for a handler that runs
  undisturbed: the guards, the mutex, the agreement of the error line, the event and the
  reply, and each action.
\<close>

section \<open>Undisturbed runs keep what every action keeps\<close>

lemma keeps_exec:
  assumes "keeps (\<lambda>n s. True) (\<lambda>s s'. h s' = h s) p" and "exec p s = Some (s', ts, r)"
  shows "h s' = h s"
  using assms
proof (induction p arbitrary: s ts)
  case (Act f)
  then obtain s1 p where f: "f s = Some (s1, p)" "exec p s1 = Some (s', ts, r)"
    by (auto simp: exec_Act simp del: exec.simps split: option.splits)
  with Act.prems(1) have "h s1 = h s" "keeps (\<lambda>n s. True) (\<lambda>s s'. h s' = h s) p" by (auto simp: keeps_Act)
  with Act.IH [OF f(1) _ f(2)] show ?case by simp
qed auto

lemma never_blocks_actions:
  "(\<And>a. never_blocks (k a)) \<Longrightarrow> never_blocks (call_world f k)"
  "(\<And>b. never_blocks (k1 b)) \<Longrightarrow> never_blocks (ask_world g k1)"
  "(\<And>c. never_blocks (k2 c)) \<Longrightarrow> never_blocks (read_phone i r k2)"
  "(\<And>d. never_blocks (k3 d)) \<Longrightarrow> never_blocks (step_dash t k3)"
  "never_blocks k4 \<Longrightarrow> never_blocks (set_phone i h k4)"
  "never_blocks k4 \<Longrightarrow> never_blocks (timed_dash api u k4)"
  "never_blocks k4 \<Longrightarrow> never_blocks (emit_event api i text k4)"
  "(\<And>a. never_blocks (k a)) \<Longrightarrow> never_blocks (on_ims i v k)"
  by (simp_all add: call_world_def ask_world_def read_phone_def read_dash_def set_phone_def step_dash_def
      timed_dash_def emit_event_def on_ims_def split_def)

lemma never_blocks_if_call: "(\<And>a. never_blocks (k a)) \<Longrightarrow> never_blocks (if_call_active api call k)"
  by (auto simp: if_call_active_def intro: never_blocks_actions split: option.split)

lemma never_blocks_finish: "never_blocks (finish_action api i action err)"
  unfolding finish_action_def by (auto intro!: never_blocks_actions split: option.split)

lemma never_blocks_bindp: "never_blocks p \<Longrightarrow> (\<And>a. never_blocks (k a)) \<Longrightarrow> never_blocks (bindp p k)"
proof (induction p)
  case (Act f)
  have "\<exists>s' p. map_option (map_prod id (\<lambda>p. bindp p k)) (f s) = Some (s', p) \<and> never_blocks p" for s
  proof -
    obtain s' p where "f s = Some (s', p)" "never_blocks p" using Act.prems(1) by (meson never_blocks_Act)
    with Act.IH Act.prems(2) show ?thesis by auto
  qed
  then show ?case by (simp add: never_blocks_Act del: never_blocks.simps)
qed auto

lemma never_blocks_perform: "never_blocks (perform api env i r call)"
  unfolding perform_def Let_def do_register_def do_unregister_def do_sms_def do_call_def do_answer_def
    do_hangup_def
  by (auto intro!: never_blocks_actions never_blocks_if_call split: option.split sum.split)

lemma never_blocks_dispatch: "never_blocks (dispatch api env i r call)"
  unfolding dispatch_def by (auto intro!: never_blocks_bindp never_blocks_perform never_blocks_finish)

section \<open>The handler as a whole\<close>

definition action_found :: "'w phone_api \<Rightarrow> environment \<Rightarrow> http_request \<Rightarrow> phone_dashboard \<Rightarrow> (nat \<times> action_req) option" where
  "action_found api env req d =
    (if same_origin req \<and> d_ready d \<and> services_enabled env
     then (case decode_action api req of
        None \<Rightarrow> None
      | Some r \<Rightarrow> map_option (\<lambda>i. (i, r)) (find_phone 0 (d_phones d) (a_phone r) None))
     else None)"

lemma exec_action_handler:
  "exec (action_handler api env req) s = (case action_found api env req (dash s) of
     None \<Rightarrow> Some (s, [], if \<not> same_origin req then http_error ''same-origin requests only'' 403
       else case decode_action api req of None \<Rightarrow> http_error ''invalid request'' 400
       | Some r \<Rightarrow> if d_ready (dash s) \<and> find_phone 0 (d_phones (dash s)) (a_phone r) None \<noteq> None
           then services_off else not_ready)
   | Some (i, r) \<Rightarrow> if op_bit i (dash s) then None else
       exec (bindp (dispatch api env i r (p_call (d_phones (dash s) ! i))) (\<lambda>resp. unlock_op i (Ret resp)))
         (s\<lparr>dash := upd_phone i (p_op_locked_update (\<lambda>_. True)) (dash s)\<rparr>))"
proof -
  have "i < length (d_phones (dash s))" if "find_phone 0 (d_phones (dash s)) ph None = Some i" for i ph
    using that by (simp add: find_phone_Some)
  then show ?thesis
    by (auto simp: action_handler_def action_found_def run_simps op_bit_def state_simps not_le
        split: option.split simp del: not_None_eq dest: leD)
qed

text \<open>C23. A refused request changes nothing: a request that is not of the same origin, that does not
decode, that names no phone, that comes before the dashboard is ready or in internet mode is
answered with 403, 400 or 409; no state changes, nothing is submitted, no goroutine starts.\<close>

theorem refused_requests_inert:
  assumes "\<not> same_origin req \<or> decode_action api req = None \<or> \<not> d_ready (dash s) \<or> \<not> services_enabled env
     \<or> (\<forall>r. decode_action api req = Some r \<longrightarrow> a_phone r \<notin> p_id ` set (d_phones (dash s)))"
  shows "\<exists>resp. exec (action_handler api env req) s = Some (s, [], resp) \<and> rs_code resp \<in> {400, 403, 409}"
proof -
  have "action_found api env req (dash s) = None"
    using assms by (auto simp: action_found_def find_phone_None split: option.split)
  then show ?thesis
    by (auto simp: exec_action_handler http_error_def services_off_def not_ready_def json_error_def json_reply_def
        split: option.split)
qed

lemma refused_requests_inert_witness:
  "\<exists>resp. exec (action_handler lab_api (\<lambda>v. ''internet'') lab_sms) \<lparr>dash = lab_dash, world = 3\<rparr>
     = Some (\<lparr>dash = lab_dash, world = 3\<rparr>, [], resp) \<and> rs_code resp \<in> {400, 403, 409}"
  by (rule refused_requests_inert) (simp add: services_enabled_def phone_mode_def)

text \<open>C7. The handler always answers and always gives the mutex back: when no other request is being
worked on, it runs to its end in every outside world, with every mutex as it was before.\<close>

theorem action_completes:
  assumes "\<forall>i. \<not> op_bit i (dash s)"
  shows "\<exists>s' ts resp. exec (action_handler api env req) s = Some (s', ts, resp) \<and> (\<forall>i. \<not> op_bit i (dash s'))"
proof (cases "action_found api env req (dash s)")
  case None
  with assms show ?thesis by (simp add: exec_action_handler)
next
  case (Some ir)
  obtain i r where ir: "ir = (i, r)" by force
  let ?locked = "s\<lparr>dash := upd_phone i (p_op_locked_update (\<lambda>_. True)) (dash s)\<rparr>"
  let ?run = "dispatch api env i r (p_call (d_phones (dash s) ! i))"
  obtain s1 ts resp where run: "exec ?run ?locked = Some (s1, ts, resp)"
    using never_blocks_exec [OF never_blocks_dispatch, of api env i r _ ?locked] by (metis not_None_eq prod_cases3)
  have "op_held j s1 = op_held j ?locked" for j
    using keeps_exec [OF op_keeps [OF op_frame.ok_dispatch] run] .
  then have "op_bit j (dash s1) = (if i = j then i < length (d_phones (dash s)) else op_bit j (dash s))" for j
    by (simp add: op_held_def bit_set)
  with assms have "\<not> op_bit j (upd_phone i (p_op_locked_update (\<lambda>_. False)) (dash s1))" for j
    by (simp add: bit_set split: if_splits)
  moreover have "exec (action_handler api env req) s
      = Some (s1\<lparr>dash := upd_phone i (p_op_locked_update (\<lambda>_. False)) (dash s1)\<rparr>, ts, resp)"
    using Some ir assms run by (simp add: exec_action_handler exec_bindp run_simps)
  ultimately show ?thesis by simp
qed

lemma action_completes_witness:
  "\<exists>s' ts resp. exec (action_handler lab_api lab_env lab_sms) \<lparr>dash = lab_dash, world = 3\<rparr> = Some (s', ts, resp)
     \<and> (\<forall>i. \<not> op_bit i (dash s'))"
proof (rule action_completes)
  have "\<not> p_op_locked p" if "p \<in> set (d_phones lab_dash)" for p
    using that by (auto simp: lab_dash_def lab_phone_def new_phone_def Let_def)
  then show "\<forall>i. \<not> op_bit i (dash \<lparr>dash = lab_dash, world = (3::nat)\<rparr>)" by (auto simp: op_bit_def)
qed

section \<open>Error line, event and reply\<close>

text \<open>The identities of the phones: phones are only added.\<close>

definition identities :: "phone_dashboard \<Rightarrow> (string \<times> ims_endpoint) list" where
  "identities d = map (\<lambda>p. (p_id p, p_endpoint p)) (d_phones d)"

definition ids_grow :: "phone_dashboard \<Rightarrow> phone_dashboard \<Rightarrow> bool" where
  "ids_grow d d' \<longleftrightarrow> (\<exists>new. identities d' = identities d @ new)"

lemma ids_grow_refl: "ids_grow d d"
  by (simp add: ids_grow_def)

lemma ids_grow_trans: "ids_grow a b \<Longrightarrow> ids_grow b c \<Longrightarrow> ids_grow a c"
  by (auto simp: ids_grow_def)

lemma identities_upd:
  assumes "\<And>p. p_id (f p) = p_id p \<and> p_endpoint (f p) = p_endpoint p"
  shows "identities (upd_phone i f d) = identities d"
  by (rule nth_equalityI) (simp_all add: identities_def state_simps nth_update assms)

lemma ids_grow_upd:
  "(\<And>p. p_id (f p) = p_id p \<and> p_endpoint (f p) = p_endpoint p) \<Longrightarrow> ids_grow d (upd_phone i f d)"
  by (simp add: ids_grow_def identities_upd)

interpretation ids_logic: dash_logic any_dash ids_grow
  by unfold_locales (simp_all add: any_dash_def ids_grow_refl)

interpretation ids_frame: dash_guarantee any_dash ids_grow
proof unfold_locales
  have same: "ids_logic.fine f" if "\<And>d. identities (f d) = identities d" for f
    unfolding ids_logic.fine_def by (simp add: any_dash_def ids_grow_def that)
  have upd: "ids_logic.fine (upd_phone i f)"
    if "\<And>p. p_id (f p) = p_id p \<and> p_endpoint (f p) = p_endpoint p" for i f
    by (rule same) (rule identities_upd, rule that)
  show "ids_logic.fine (log_event e)" for e by (rule same) (simp add: identities_def state_simps)
  show "ids_logic.fine (d_problem_update (\<lambda>_. e))" "ids_logic.fine (d_ready_update (\<lambda>_. True))"
    "ids_logic.fine (\<lambda>d. snd (next_id d))" for e
    by (rule same, simp add: identities_def next_id_def)+
  show "ids_logic.fine (add_phone p)" for p
    by (simp add: ids_logic.fine_def any_dash_def ids_grow_def identities_def add_phone_def)
  show "ids_logic.fine (store_received i peer body t)" for i peer body t
  proof (rule same)
    fix d
    have "identities (d\<lparr>d_next := d_next d + 1\<rparr>) = identities d" by (simp add: identities_def)
    then show "identities (store_received i peer body t d) = identities d"
      by (simp add: store_received_def next_id_def identities_upd state_simps)
  qed
  show "ids_logic.fine (upd_phone i (add_message m))" for i m by (rule upd) (simp add: state_simps)
  show "ids_logic.fine (upd_phone i (set_status mid status))" for i mid status
    by (rule upd) (simp add: set_status_def)
  show "ids_logic.fine (upd_phone i (confirm_delivery number body))" for i number body
    by (rule upd) (simp add: confirm_delivery_def)
  show "ids_logic.fine (upd_phone i (\<lambda>p. p\<lparr>p_messages := mark_id mid (p_messages p)\<rparr>))" for i mid
    by (rule upd) simp
  show "ids_logic.fine (upd_phone i f)" if "\<And>p. frame p (f p)" for i f
    by (rule upd) (use that in \<open>simp add: frame_def\<close>)
qed

lemma keeps_exec_rel:
  assumes "keeps J G p" and "exec p s = Some (s', ts, r)" and "\<And>n s. J n s"
  shows "G\<^sup>*\<^sup>* s s'"
  using assms(1,2)
proof (induction p arbitrary: s ts)
  case (Act f)
  then obtain s1 p where f: "f s = Some (s1, p)" "exec p s1 = Some (s', ts, r)"
    by (auto simp: exec_Act simp del: exec.simps split: option.splits)
  have "J 0 s" by (rule assms(3))
  with Act.prems(1) f(1) have "G s s1" "keeps J G p" unfolding keeps_Act by blast+
  with Act.IH [OF f(1) _ f(2)] show ?case by (blast intro: converse_rtranclp_into_rtranclp)
qed auto

lemma dash_moves_ids: "(dash_moves ids_grow)\<^sup>*\<^sup>* s s' \<Longrightarrow> ids_grow (dash s) (dash s')"
  by (induction rule: rtranclp_induct) (auto simp: dash_moves_def ids_grow_refl intro: ids_grow_trans)

lemma perform_ids:
  assumes "exec (perform api env i r call) s = Some (s', ts, err)"
  shows "ids_grow (dash s) (dash s')"
  using keeps_exec_rel [OF ids_frame.ok_perform assms] by (simp add: on_dash_def any_dash_def dash_moves_ids)

lemma ids_grow_nth:
  assumes "ids_grow d d'" and "i < length (d_phones d)"
  shows "i < length (d_phones d') \<and> p_id (d_phones d' ! i) = p_id (d_phones d ! i)
    \<and> p_endpoint (d_phones d' ! i) = p_endpoint (d_phones d ! i)"
proof -
  obtain new where new: "identities d' = identities d @ new" using assms(1) by (auto simp: ids_grow_def)
  have len: "length (identities x) = length (d_phones x)" for x by (simp add: identities_def)
  have i: "i < length (d_phones d')"
    using arg_cong [OF new, of length] assms(2) unfolding length_append len by simp
  have "identities d' ! i = identities d ! i" using assms(2) by (simp add: new nth_append len)
  with i assms(2) show ?thesis by (simp add: identities_def)
qed

definition ok_reply :: http_response where
  "ok_reply = json_reply 200 (JObj [(''ok'', JBool True)])"

text \<open>C22. The outcome of an action is reported consistently: the reply, the phone's error line and
the newest event tell of the same outcome, the reply being 200 exactly for the outcome without an
error, which also clears the error line of an earlier action.\<close>

theorem action_outcome:
  assumes "known_action (a_action r)" and "i < length (d_phones (dash s))"
    and "exec (dispatch api env i r call) s = Some (s', ts, resp)"
  shows "\<exists>err s1. exec (perform api env i r call) s = Some (s1, ts, err)
     \<and> resp = (case err of None \<Rightarrow> ok_reply | Some e \<Rightarrow> json_error 409 e)
     \<and> p_error_text (d_phones (dash s') ! i) = (case err of None \<Rightarrow> [] | Some e \<Rightarrow> e)
     \<and> e_phone (last (d_events (dash s'))) = p_id (d_phones (dash s) ! i)
     \<and> e_text (last (d_events (dash s'))) = a_action r @ (case err of None \<Rightarrow> '' succeeded'' | Some e \<Rightarrow> '': '' @ e)"
proof -
  obtain s1 ts1 err ts2 where p: "exec (perform api env i r call) s = Some (s1, ts1, err)"
    and f: "exec (finish_action api i (a_action r) err) s1 = Some (s', ts2, resp)" and ts: "ts = ts1 @ ts2"
    using assms(1,3) by (auto simp: dispatch_def exec_bindp split: option.splits)
  have i: "i < length (d_phones (dash s1))" "p_id (d_phones (dash s1) ! i) = p_id (d_phones (dash s) ! i)"
    using ids_grow_nth [OF perform_ids [OF p] assms(2)] by simp_all
  obtain t w where t: "now api (world s1) = (t, w)" by force
  from f i t have "ts2 = [] \<and> resp = (case err of None \<Rightarrow> ok_reply | Some e \<Rightarrow> json_error 409 e)
     \<and> p_error_text (d_phones (dash s') ! i) = (case err of None \<Rightarrow> [] | Some e \<Rightarrow> e)
     \<and> e_phone (last (d_events (dash s'))) = p_id (d_phones (dash s) ! i)
     \<and> e_text (last (d_events (dash s'))) = a_action r @ (case err of None \<Rightarrow> '' succeeded'' | Some e \<Rightarrow> '': '' @ e)"
    by (cases err) (auto simp: finish_action_def run_simps state_simps ok_reply_def lastn_snoc)
  with p ts show ?thesis by (intro exI [of _ err] exI [of _ s1]) simp
qed

lemma action_outcome_witness:
  "known_action (a_action lab_req) \<and> (\<exists>err s1 s'. exec (perform lab_api lab_env 0 lab_req None) \<lparr>dash = lab_dash, world = 3\<rparr>
       = Some (s1, [], err)
     \<and> json_reply 200 (JObj [(''ok'', JBool True)]) = (case err of None \<Rightarrow> ok_reply | Some e \<Rightarrow> json_error 409 e)
     \<and> p_error_text (d_phones (dash (s' :: nat sys)) ! 0) = (case err of None \<Rightarrow> [] | Some e \<Rightarrow> e))"
proof -
  have known: "known_action (a_action lab_req)" by (simp add: known_action_def lab_req_def)
  have "0 < length (d_phones (dash \<lparr>dash = lab_dash, world = (3::nat)\<rparr>))" by (simp add: lab_dash_def)
  from action_outcome [OF known this lab_dispatch] known show ?thesis by blast
qed

section \<open>Sending messages\<close>

definition new_message :: "phone_dashboard \<Rightarrow> action_req \<Rightarrow> string \<Rightarrow> int \<Rightarrow> phone_message" where
  "new_message d r status t = \<lparr>m_id = d_next d + 1, m_direction = sent, m_peer = a_to r, m_text = a_text r,
     m_status = status, m_at = t\<rparr>"

text \<open>C10. A submitted message is recorded once, with its fate: after the action \<open>sms\<close> with a valid text
and recipient the phone's history is the newest hundred of the old one and the message, which
carries the next number and is accepted if the network took it and failed otherwise; no other phone
changes, and delivery is tracked exactly if the message was accepted and a peer is configured.\<close>

theorem sms_recorded:
  assumes "a_action r = ''sms''" and "0 < rune_count (a_text r)" and "rune_count (a_text r) \<le> 70"
    and "valid_phone_number (a_to r)" and "i < length (d_phones (dash s))"
    and "d_next (dash s) + 1 \<notin> m_id ` set (p_messages (d_phones (dash s) ! i))"
    and "now api (world s) = (t, w1)"
    and "sms_submit api (p_access (d_phones (dash s) ! i)) ''+15550000000'' (a_to r) (a_text r) w1 = (report, w2)"
  shows "\<exists>s'. exec (perform api env i r call) s =
       Some (s', if submit_error report = None \<and> env ''PEER_URL'' \<noteq> []
          then [TTrack i (d_next (dash s) + 1) (a_text r) (a_to r) 0] else [], submit_error report)
     \<and> world s' = w2 \<and> d_next (dash s') = d_next (dash s) + 1
     \<and> d_phones (dash s') = (d_phones (dash s))[i := (d_phones (dash s) ! i)\<lparr>p_messages :=
          lastn 100 (p_messages (d_phones (dash s) ! i)
            @ [new_message (dash s) r (if submit_error report = None then accepted else failed) t])\<rparr>]"
proof -
  let ?ms = "p_messages (d_phones (dash s) ! i)" and ?mid = "d_next (dash s) + 1"
  let ?st = "if submit_error report = None then accepted else failed"
  let ?m = "new_message (dash s) r submitting t"
  have old: "map (\<lambda>m. if m_id m = ?mid \<and> m_status m \<noteq> delivered then m\<lparr>m_status := st\<rparr> else m) xs = xs"
    if "set xs \<subseteq> set ?ms" for xs st
  proof (rule map_idI)
    fix x assume "x \<in> set xs"
    with that have "m_id x \<in> m_id ` set ?ms" by blast
    with assms(6) have "m_id x \<noteq> ?mid" by metis
    then show "(if m_id x = ?mid \<and> m_status x \<noteq> delivered then x\<lparr>m_status := st\<rparr> else x) = x" by simp
  qed
  have upd: "map (\<lambda>m. if m_id m = ?mid \<and> m_status m \<noteq> delivered then m\<lparr>m_status := st\<rparr> else m)
      (lastn 100 (?ms @ [?m])) = lastn 100 (?ms @ [?m\<lparr>m_status := st\<rparr>])" for st
    using old [OF set_lastn] by (simp add: lastn_snoc new_message_def)
  have "set_status ?mid st (add_message ?m p) = p\<lparr>p_messages := lastn 100 (?ms @ [?m\<lparr>m_status := st\<rparr>])\<rparr>"
    if "p = d_phones (dash s) ! i" for st p
    using upd [of st] by (simp add: that set_status_def add_message_lastn)
  then show ?thesis
    using assms by (auto simp: perform_def do_sms_def run_simps next_id_def state_simps upd_phone_def
        new_message_def Let_def)
qed

lemma sms_recorded_witness:
  "\<exists>s'. exec (perform lab_api lab_env 0 lab_req None) \<lparr>dash = lab_dash, world = 3\<rparr> = Some (s', [], None)
     \<and> world s' = 4 \<and> d_next (dash s') = d_next lab_dash + 1
     \<and> d_phones (dash s') = (d_phones lab_dash)[0 := (d_phones lab_dash ! 0)\<lparr>p_messages :=
          lastn 100 (p_messages (d_phones lab_dash ! 0) @ [new_message lab_dash lab_req accepted 3])\<rparr>]"
  using sms_recorded [of lab_req 0 "\<lparr>dash = lab_dash, world = 3\<rparr>" lab_api 3 4 "(None, None)" 4 lab_env None]
  by (simp add: lab_defs lab_req_def new_phone_def Let_def rune_count_def lab_runes lab_number submit_error_def)

text \<open>An invalid message is never submitted: with an empty text, a text of more than seventy characters
or a recipient that is not an international number the action ends with the reason, and neither
the dashboard nor the network sees anything.\<close>

theorem invalid_sms_rejected:
  assumes "a_action r = ''sms''"
    and "rune_count (a_text r) \<notin> {1..70} \<or> \<not> valid_phone_number (a_to r)"
  shows "exec (perform api env i r call) s = Some (s, [],
    Some (if rune_count (a_text r) \<in> {1..70} then err_recipient else err_length))"
  using assms by (auto simp: perform_def do_sms_def)

lemma invalid_sms_rejected_witness:
  "exec (perform lab_api lab_env 0 (lab_req\<lparr>a_to := ''15558400004''\<rparr>) None) \<lparr>dash = lab_dash, world = 3\<rparr>
    = Some (\<lparr>dash = lab_dash, world = 3\<rparr>, [], Some err_recipient)"
  using invalid_sms_rejected [of "lab_req\<lparr>a_to := ''15558400004''\<rparr>" lab_api lab_env 0 None "\<lparr>dash = lab_dash, world = 3\<rparr>"]
  by (simp add: lab_req_def rune_count_def lab_runes valid_phone_number_def)

section \<open>Calls\<close>

text \<open>C31. One call at a time: while the phone's call has not terminated, a new call and the removal of
the registration are refused, and nothing reaches the dashboard or the IMS client.\<close>

theorem active_call_guards:
  assumes "a_action r = ''call'' \<or> a_action r = ''unregister''" and "call_status api c (world s) \<noteq> CallTerminated"
  shows "\<exists>e. exec (perform api env i r (Some c)) s = Some (s, [], Some e)"
  using assms by (auto simp: perform_def do_call_def do_unregister_def if_call_active_def run_simps)

lemma active_call_guards_witness:
  "\<exists>e. exec (perform lab_api lab_env 0 (lab_req\<lparr>a_action := ''call''\<rparr>) (Some 7)) \<lparr>dash = lab_dash, world = 3\<rparr>
    = Some (\<lparr>dash = lab_dash, world = 3\<rparr>, [], Some e)"
  by (rule active_call_guards) (simp_all add: lab_api_def)

text \<open>C32. Hanging up ends a call in the way its state asks for: a confirmed call with BYE, an unanswered
incoming one by rejecting it with 486, an unanswered outgoing one with CANCEL, and none of these
without a live call; the dashboard's own state is left alone.\<close>

theorem hangup_by_state:
  assumes "a_action r = ''hangup''"
  shows "exec (perform api env i r call) s = (case call of
      None \<Rightarrow> Some (s, [], Some ''no active call'')
    | Some c \<Rightarrow>
        if call_status api c (world s) = CallTerminated then Some (s, [], Some ''no active call'')
        else (case (if call_status api c (world s) = CallConfirmed then call_bye api c
                    else if call_incoming api c (world s) then call_reject api c 486
                    else call_cancel api c) (world s) of
                (err, w) \<Rightarrow> Some (s\<lparr>world := w\<rparr>, [], err)))"
  using assms by (auto simp: perform_def do_hangup_def run_simps split: option.split prod.split)

lemma hangup_by_state_witness:
  "exec (perform lab_api lab_env 0 (lab_req\<lparr>a_action := ''hangup''\<rparr>) (Some 7)) \<lparr>dash = lab_dash, world = 3\<rparr>
    = Some (\<lparr>dash = lab_dash, world = 3\<rparr>, [], None)"
  using hangup_by_state [of "lab_req\<lparr>a_action := ''hangup''\<rparr>" lab_api lab_env 0 "Some 7" "\<lparr>dash = lab_dash, world = 3\<rparr>"]
  by (simp add: lab_api_def)



end
