(* ===== verification/Dash_Receive.thy ===== *)
theory Dash_Receive
  imports Dash_Actions
begin

text \<open>
  The background goroutines, one undisturbed round of each: receiving a message and
  confirming it at its sender, receiving a call, a tick of the media loop, a poll of the
  delivery tracker.
\<close>

section \<open>Confirming a message at its sender\<close>

text \<open>C24. A received message confirms exactly the oldest message the sender still waits for: the first one
sent to this number with this text whose status is submitting or accepted becomes delivered, every
other message is left alone, and without such a message nothing changes.\<close>

theorem oldest_confirmed:
  "mark_first peer text ms =
    (if list_ex (awaits_delivery peer text) ms
     then takeWhile (\<lambda>m. \<not> awaits_delivery peer text m) ms
       @ (hd (dropWhile (\<lambda>m. \<not> awaits_delivery peer text m) ms))\<lparr>m_status := delivered\<rparr>
       # tl (dropWhile (\<lambda>m. \<not> awaits_delivery peer text m) ms)
     else ms)"
  by (induction ms) auto

definition confirm_at :: "string \<Rightarrow> string \<Rightarrow> string \<Rightarrow> dashboard_phone \<Rightarrow> dashboard_phone" where
  "confirm_at from number text p = (if p_msisdn p = from then confirm_delivery number text p else p)"

lemma confirm_at_endpoint [simp]: "p_endpoint (confirm_at from number text p) = p_endpoint p"
  by (simp add: confirm_at_def confirm_delivery_def)

text \<open>The loop over the senders is a map over the phones it visits.\<close>

lemma exec_confirm_senders:
  assumes "distinct js" and "\<forall>j \<in> set js. j < length (d_phones (dash s))"
    and "i < length (d_phones (dash s))" and "p_msisdn (d_phones (dash s) ! i) = number"
  shows "exec (confirm_senders i from text js k) s = exec k (s\<lparr>dash := (dash s)\<lparr>d_phones :=
      map (\<lambda>j. if j \<in> set js then confirm_at from number text (d_phones (dash s) ! j) else d_phones (dash s) ! j)
        [0..<length (d_phones (dash s))]\<rparr>\<rparr>)"
  using assms
proof (induction js arbitrary: s)
  case Nil
  then show ?case by (simp add: map_nth)
next
  case (Cons j js)
  let ?q = "confirm_at from number text (d_phones (dash s) ! j)"
  let ?s1 = "s\<lparr>dash := (dash s)\<lparr>d_phones := (d_phones (dash s))[j := ?q]\<rparr>\<rparr>"
  have "exec (confirm_senders i from text (j # js) k) s = exec (confirm_senders i from text js k) ?s1"
    using Cons.prems by (auto simp: run_simps upd_phone_def confirm_at_def)
  also have "\<dots> = exec k (?s1\<lparr>dash := (dash ?s1)\<lparr>d_phones :=
      map (\<lambda>l. if l \<in> set js then confirm_at from number text (d_phones (dash ?s1) ! l) else d_phones (dash ?s1) ! l)
        [0..<length (d_phones (dash ?s1))]\<rparr>\<rparr>)"
    using Cons.prems by (intro Cons.IH) (auto simp: nth_update)
  also have "map (\<lambda>l. if l \<in> set js then confirm_at from number text (d_phones (dash ?s1) ! l) else d_phones (dash ?s1) ! l)
        [0..<length (d_phones (dash ?s1))]
      = map (\<lambda>l. if l \<in> set (j # js) then confirm_at from number text (d_phones (dash s) ! l) else d_phones (dash s) ! l)
        [0..<length (d_phones (dash s))]"
    using Cons.prems by (auto simp: nth_update)
  finally show ?case by simp
qed

lemma exec_confirm_all:
  assumes "i < length (d_phones (dash s))" and "p_msisdn (d_phones (dash s) ! i) = number"
  shows "exec (confirm_senders i from text [0..<length (d_phones (dash s))] k) s
    = exec k (s\<lparr>dash := (dash s)\<lparr>d_phones := map (confirm_at from number text) (d_phones (dash s))\<rparr>\<rparr>)"
proof -
  have all: "map (\<lambda>j. if j \<in> set [0..<length xs] then f (xs ! j) else xs ! j) [0..<length xs] = map f xs"
    for f and xs :: "dashboard_phone list" by (rule nth_equalityI) simp_all
  show ?thesis
    using exec_confirm_senders [of "[0..<length (d_phones (dash s))]" s i number "from" "text" k] assms
    unfolding all by simp
qed

text \<open>C11. One received message: it is stored at the receiver with the next number, the oldest matching
message of every phone that has the sender's number is confirmed, an event tells of it, and the
receiver goes on.\<close>

theorem message_received:
  assumes "i < length (d_phones (dash s))"
    and "sms_receive api (p_access (d_phones (dash s) ! i)) (world s) = Some (Inr (from, text), w1)"
    and "now api w1 = (t, w2)" and "now api w2 = (t2, w3)"
  shows "exec (receive_sms api i) s = Some (\<lparr>
      dash = log_event \<lparr>e_at = t2, e_phone = p_id (d_phones (dash s) ! i), e_text = ''SMS received from '' @ from\<rparr>
        ((dash s)\<lparr>d_next := d_next (dash s) + 1,
           d_phones := map (confirm_at from (p_msisdn (d_phones (dash s) ! i)) text)
             ((d_phones (dash s))[i := add_message (receive_message (d_next (dash s) + 1) from text t)
                (d_phones (dash s) ! i)])\<rparr>),
      world = w3\<rparr>, [], Some (TSms i))"
proof -
  let ?p = "d_phones (dash s) ! i"
  let ?d = "(dash s)\<lparr>d_next := d_next (dash s) + 1,
      d_phones := (d_phones (dash s))[i := add_message (receive_message (d_next (dash s) + 1) from text t) ?p]\<rparr>"
  have st: "store_received i from text t (dash s) = ?d"
    by (simp add: store_received_def next_id_def upd_phone_def)
  let ?s = "\<lparr>dash = ?d, world = w2\<rparr>"
  have s: "s\<lparr>dash := ?d, world := w2\<rparr> = ?s" by (cases s) simp
  have "exec (receive_sms api i) s = exec (confirm_senders i from text [0..<length (d_phones (dash ?s))]
      (emit_event api i (''SMS received from '' @ from) (Ret (Some (TSms i))))) ?s"
    using assms by (simp add: receive_sms_def run_simps st s)
  also have "\<dots> = exec (emit_event api i (''SMS received from '' @ from) (Ret (Some (TSms i))))
      (?s\<lparr>dash := (dash ?s)\<lparr>d_phones := map (confirm_at from (p_msisdn ?p) text) (d_phones (dash ?s))\<rparr>\<rparr>)"
    using assms(1) by (intro exec_confirm_all) (simp_all add: state_simps)
  also have "\<dots> = Some (\<lparr>dash = log_event \<lparr>e_at = t2, e_phone = p_id ?p, e_text = ''SMS received from '' @ from\<rparr>
      (?d\<lparr>d_phones := map (confirm_at from (p_msisdn ?p) text) (d_phones ?d)\<rparr>), world = w3\<rparr>, [], Some (TSms i))"
    using assms by (simp add: run_simps state_simps confirm_at_def confirm_delivery_def)
  finally show ?thesis by simp
qed

definition lab_inbox :: "nat phone_api" where
  "lab_inbox = lab_api\<lparr>sms_receive := (\<lambda>u w. Some (Inr (''+15558400004'', ''hello''), w))\<rparr>"

lemma message_received_witness:
  "\<exists>s'. exec (receive_sms lab_inbox 0) \<lparr>dash = lab_dash, world = 3\<rparr> = Some (s', [], Some (TSms 0))
     \<and> d_next (dash s') = d_next lab_dash + 1 \<and> world s' = 5"
  using message_received [of 0 "\<lparr>dash = lab_dash, world = 3\<rparr>" lab_inbox "''+15558400004''" "''hello''" 3 3 4 4 5]
  by (simp add: lab_inbox_def) (simp add: lab_api_def lab_dash_def log_event_sel)

section \<open>Calls\<close>

text \<open>C34. An incoming call never displaces a live one: while the phone's call has not terminated, a new
call is rejected with 486 and the phone is left alone; otherwise it becomes the phone's call,
incoming, with its counters at zero, and its media starts, whether or not ringing succeeded.\<close>

theorem call_received:
  assumes "next_call api (p_ims (d_phones (dash s) ! i)) (world s) = Some (Some c, w1)"
  shows "\<exists>s'. if (case p_call (d_phones (dash s) ! i) of None \<Rightarrow> False | Some c' \<Rightarrow> call_status api c' w1 \<noteq> CallTerminated)
     then exec (receive_call api i) s = Some (s', [], Some (TCalls i)) \<and> dash s' = dash s
       \<and> world s' = snd (call_reject api c 486 w1)
     else exec (receive_call api i) s = Some (s', [TMedia i c 0 0 0], Some (TCalls i))
       \<and> d_phones (dash s') = (d_phones (dash s))[i := start_call c True ''Incoming call'' (d_phones (dash s) ! i)]"
proof -
  obtain e w2 where r: "call_reject api c 486 w1 = (e, w2)" by force
  obtain t3 w3 where n3: "now api w1 = (t3, w3)" by force
  obtain e4 w4 where n4: "call_ring api c w3 = (e4, w4)" by force
  obtain t5 w5 where n5: "now api w4 = (t5, w5)" by force
  show ?thesis
    using assms r n3 n4 n5
    by (cases "case p_call (d_phones (dash s) ! i) of None \<Rightarrow> False | Some c' \<Rightarrow> call_status api c' w1 \<noteq> CallTerminated";
        cases e4) (auto simp: receive_call_def run_simps take_call_def Let_def state_simps)
qed

definition lab_ringing :: "nat phone_api" where
  "lab_ringing = lab_api\<lparr>next_call := (\<lambda>u w. Some (Some 9, w))\<rparr>"

lemma call_received_witness:
  "\<exists>s'. exec (receive_call lab_ringing 0) \<lparr>dash = lab_dash, world = 3\<rparr> = Some (s', [TMedia 0 9 0 0 0], Some (TCalls 0))
     \<and> d_phones (dash s') = (d_phones lab_dash)[0 := start_call 9 True ''Incoming call'' (d_phones lab_dash ! 0)]"
  using call_received [of lab_ringing "\<lparr>dash = lab_dash, world = 3\<rparr>" 0 9 3]
  by (simp add: lab_ringing_def lab_dash_def lab_phone_def new_phone_def Let_def)

section \<open>Media\<close>

text \<open>C35. No packet without a voice bearer: on a tick at which the call is not confirmed, has no audio
stream with a valid remote address or no dedicated flow, the media loop sends nothing, changes
nothing and keeps its sequence number and timestamp.\<close>

theorem media_silent:
  assumes "media_select api c (world s) = Some (False, w1)"
    and "call_status api c w1 \<noteq> CallConfirmed
      \<or> (case audio_stream api c w1 of None \<Rightarrow> True | Some str \<Rightarrow> \<not> ms_remote_valid str)
      \<or> leg_flows api (p_access (d_phones (dash s) ! i)) w1 = []"
  shows "exec (media api i c seq stamp qfi) s = Some (s\<lparr>world := w1\<rparr>, [], Some (TMedia i c seq stamp qfi))"
  using assms by (auto simp: media_def run_simps Let_def split: option.split list.split)

lemma media_silent_witness:
  "exec (media lab_api 0 9 7 2240 1) lab_start = Some (lab_start, [], Some (TMedia 0 9 7 2240 1))"
  using media_silent [of lab_api 9 lab_start 0 0 7 2240 1] by (simp add: lab_api_def lab_start_def)

text \<open>C36. On every tick with a confirmed call, a valid remote address and a dedicated flow (and a UPF address
that parses) the loop sends exactly one RTP packet with its sequence number and timestamp through the
first flow to the call's remote address, and counts it if the gNB took it.  If the flow is not that
of the last tick, as on the first packet of a call, the downlink count of this moment becomes the
base and the event ``Voice QoS active'' is recorded first; then the downlink packets since the base are
noted.  The loop goes on with the sequence number advanced by one, the timestamp by 320 and this flow.\<close>

theorem media_sends:
  assumes "p = d_phones (dash s) ! i" and "i < length (d_phones (dash s))"
    and "media_select api c (world s) = Some (False, w1)" and "call_status api c w1 = CallConfirmed"
    and "audio_stream api c w1 = Some str" and "ms_remote_valid str"
    and "leg_flows api (p_access p) w1 = qfi # flows" and "upf_parses api (ses_upf_address (p_leg_session p))"
    and "(t, w2) = (if last_qfi = qfi then (0, w1) else now api w1)"
    and "send_gpdu api (p_access p) (ses_ulteid (p_leg_session p)) (ses_upf_address (p_leg_session p)) qfi
        (udp_packet api (ms_local str) (ms_remote str) (rtp_packet seq stamp)) w2 = (err, w3)"
    and "count = downlink_count api (p_access p) (ses_dlteid (p_leg_session p)) qfi"
    and "base = (if last_qfi = qfi then p_rx_base p else count w1)"
  shows "exec (media api i c seq stamp last_qfi) s = Some (s\<lparr>world := w3,
      dash := (if last_qfi = qfi then dash s else log_event
          \<lparr>e_at = t, e_phone = p_id p, e_text = ''Voice QoS active on QFI '' @ itoa (unat qfi)\<rparr> (dash s))
        \<lparr>d_phones := (d_phones (dash s))[i := p\<lparr>p_rx_base := base, p_rx := count w2 - base,
           p_tx := (if err = None then p_tx p + 1 else p_tx p)\<rparr>]\<rparr>\<rparr>,
      [], Some (TMedia i c (seq + 1) (stamp + 320) qfi))"
proof -
  have log: "log_event e (d\<lparr>d_phones := ps\<rparr>) = (log_event e d)\<lparr>d_phones := ps\<rparr>" for e d ps
    by (simp add: log_event_def Let_def)
  show ?thesis
  proof (cases "last_qfi = qfi")
    case True
    with assms show ?thesis
      by (auto simp: media_def send_media_def run_simps Let_def upd_phone_def next_packet_def)
  next
    case False
    then have "now api w1 = (t, w2)" using assms(9) by simp
    with False assms show ?thesis
      by (auto simp: media_def send_media_def run_simps Let_def upd_phone_def next_packet_def log state_simps)
  qed
qed

definition lab_voice :: "nat phone_api" where
  "lab_voice = lab_api\<lparr>audio_stream := (\<lambda>c w. Some \<lparr>ms_local = (''10.46.0.2'', 4000),
     ms_remote = (''10.46.0.3'', 4002), ms_remote_valid = True\<rparr>), leg_flows := (\<lambda>u w. [5]),
     downlink_count := (\<lambda>u t q w. int w)\<rparr>"

lemma media_sends_witness:
  "\<exists>s'. exec (media lab_voice 0 9 0xFFFF 0 0) \<lparr>dash = lab_dash, world = 3\<rparr>
      = Some (s', [], Some (TMedia 0 9 (0xFFFF + 1) (0 + 320) 5))
    \<and> map e_text (d_events (dash s')) = map e_text (d_events lab_dash) @ [''Voice QoS active on QFI 5'']
    \<and> p_rx_base (d_phones (dash s') ! 0) = 3 \<and> p_rx (d_phones (dash s') ! 0) = 1 \<and> p_tx (d_phones (dash s') ! 0) = 1"
proof -
  let ?p = "d_phones lab_dash ! 0" and ?s = "\<lparr>dash = lab_dash, world = 3 :: nat\<rparr>"
  let ?e = "\<lparr>e_at = 3, e_phone = p_id ?p, e_text = ''Voice QoS active on QFI '' @ itoa (unat (5 :: u8))\<rparr>"
  define s' where "s' = ?s\<lparr>world := 4,
    dash := (if (0 :: u8) = 5 then dash ?s else log_event ?e (dash ?s))\<lparr>d_phones := (d_phones (dash ?s))[0 :=
      ?p\<lparr>p_rx_base := 3, p_rx := int 4 - 3, p_tx := (if (None :: string option) = None then p_tx ?p + 1 else p_tx ?p)\<rparr>]\<rparr>\<rparr>"
  have "exec (media lab_voice 0 9 0xFFFF 0 0) ?s = Some (s', [], Some (TMedia 0 9 (0xFFFF + 1) (0 + 320) 5))"
    unfolding s'_def
    by (rule media_sends [where ?w1.0 = 3 and ?w2.0 = 4 and flows = "[]" and count = int
        and str = "\<lparr>ms_local = (''10.46.0.2'', 4000), ms_remote = (''10.46.0.3'', 4002), ms_remote_valid = True\<rparr>"])
      (simp_all add: lab_voice_def lab_api_def lab_dash_def)
  moreover have "itoa 5 = ''5''" by code_simp
  then have "map e_text (d_events (dash s')) = map e_text (d_events lab_dash) @ [''Voice QoS active on QFI 5'']"
    by (simp add: s'_def log_event_def Let_def lab_dash_def)
  moreover have "p_rx_base (d_phones (dash s') ! 0) = 3 \<and> p_rx (d_phones (dash s') ! 0) = 1 \<and> p_tx (d_phones (dash s') ! 0) = 1"
    by (simp add: s'_def lab_dash_def lab_phone_def new_phone_def Let_def)
  ultimately show ?thesis by blast
qed

section \<open>Tracking a delivery\<close>

text \<open>Only the first message of that number is marked.\<close>

lemma mark_id_first:
  "find (\<lambda>r. m_id r = mid) ms = Some m \<Longrightarrow> mark_id mid ms
     = takeWhile (\<lambda>r. m_id r \<noteq> mid) ms @ m\<lparr>m_status := delivered\<rparr> # tl (dropWhile (\<lambda>r. m_id r \<noteq> mid) ms)"
  by (induction ms) (auto split: if_splits)

lemma peer_received_iff:
  "peer_received recipient number text at peers \<longleftrightarrow> (\<exists>ms r. (recipient, ms) \<in> set peers \<and> r \<in> set ms
     \<and> m_direction r = received \<and> m_peer r = number \<and> m_text r = text \<and> at \<le> m_at r)"
  by (auto simp: peer_received_def list_ex_iff not_less; force)

text \<open>C37. A poll of the tracker, in full.  It asks the peer's state page after a second.  If the page, as the
peer answered it, shows under the recipient's number a received message from this phone's number with
this text and not before it was sent, the phone's message of this number becomes delivered, nothing
else changes, and the tracker ends; if it shows none, or there is no usable answer, nothing changes
and the next attempt follows; if the message is gone, nothing changes and the tracker ends.  There
are at most thirty polls: attempt thirty asks nothing and ends.\<close>

theorem tracker_poll:
  assumes "peer_state api (env ''PEER_URL'' @ ''/api/state'') (sleep api 1 (world s)) = (poll, w1)"
    and "p = d_phones (dash s) ! i" and "again = TTrack i mid text recipient (Suc attempt)"
  shows "exec (track_delivery api env i mid text recipient attempt) s =
    (if 30 \<le> attempt then Some (s, [], None)
     else case poll of
       PollState peers \<Rightarrow>
         (case find (\<lambda>r. m_id r = mid) (p_messages p) of
            None \<Rightarrow> Some (s\<lparr>world := w1\<rparr>, [], None)
          | Some m \<Rightarrow>
              if \<exists>ms r. (recipient, ms) \<in> set peers \<and> r \<in> set ms \<and> m_direction r = received
                \<and> m_peer r = p_msisdn p \<and> m_text r = text \<and> m_at m \<le> m_at r
              then Some (s\<lparr>world := w1, dash := (dash s)\<lparr>d_phones := (d_phones (dash s))[i := p\<lparr>p_messages :=
                  takeWhile (\<lambda>r. m_id r \<noteq> mid) (p_messages p) @ m\<lparr>m_status := delivered\<rparr>
                    # tl (dropWhile (\<lambda>r. m_id r \<noteq> mid) (p_messages p))\<rparr>]\<rparr>\<rparr>, [], None)
              else Some (s\<lparr>world := w1\<rparr>, [], Some again))
     | _ \<Rightarrow> Some (s\<lparr>world := w1\<rparr>, [], Some again))"
proof (cases poll)
  case (PollState peers)
  then show ?thesis
    unfolding peer_received_iff [symmetric]
    using assms
    by (cases "find (\<lambda>r. m_id r = mid) (p_messages p)")
      (simp_all add: track_delivery_def run_simps Let_def check_delivery_def upd_phone_def mark_id_first)
qed (use assms in \<open>simp_all add: track_delivery_def run_simps Let_def\<close>)

definition lab_peer :: "nat phone_api" where
  "lab_peer = lab_api\<lparr>peer_state := (\<lambda>u w. (PollState [(''+15558400003'', []),
     (''+15558400004'', [\<lparr>m_id = 7, m_direction = received, m_peer = ''+15558400003'', m_text = ''hello'',
        m_status = received, m_at = 5\<rparr>])], w))\<rparr>"

text \<open>The message of the laboratory, sent at 3, is shown by its recipient as received at 5.\<close>

lemma tracker_poll_witness:
  "\<exists>s'. exec (track_delivery lab_peer lab_env 0 1 ''hello'' ''+15558400004'' 29)
        \<lparr>dash = upd_phone 0 (add_message (lab_message accepted)) lab_dash, world = 5\<rparr> = Some (s', [], None)
     \<and> map m_status (p_messages (d_phones (dash s') ! 0)) = [delivered]"
proof -
  let ?d = "upd_phone 0 (add_message (lab_message accepted)) lab_dash"
  let ?p = "d_phones ?d ! 0" and ?peers = "[(''+15558400003'', []), (''+15558400004'', [\<lparr>m_id = 7, m_direction = received,
     m_peer = ''+15558400003'', m_text = ''hello'', m_status = received, m_at = 5\<rparr>])]"
  have m: "p_messages ?p = [lab_message accepted]" "p_msisdn ?p = ''+15558400003''"
    by (simp_all add: upd_phone_def lab_dash_def lab_phone_def new_phone_def Let_def add_message_def trim_def)
  have "peer_state lab_peer (lab_env ''PEER_URL'' @ ''/api/state'') (sleep lab_peer 1 (world \<lparr>dash = ?d, world = 5\<rparr>))
      = (PollState ?peers, 6)"
    by (simp add: lab_peer_def lab_api_def)
  from tracker_poll [where env = lab_env, OF this, of ?p 0 "TTrack 0 1 ''hello'' ''+15558400004'' (Suc 29)" 1 "''hello''" "''+15558400004''" 29] m
  show ?thesis by (simp add: lab_message_def) (simp add: upd_phone_def lab_dash_def)
qed

end
