(* ===== verification/Attach_Props.thy ===== *)
theory Attach_Props
  imports Lab
begin

text \<open>
  What bringing the phones up achieves: it always comes to an end, which the dashboard
  shows, and the routes and rules of a phone keep its traffic in its tunnel.
\<close>

section \<open>How initialisation ends\<close>

fun is_receiver :: "task \<Rightarrow> bool" where
  "is_receiver (TSms i) = True"
| "is_receiver (TCalls i) = True"
| "is_receiver _ = False"

definition receivers :: "environment \<Rightarrow> nat \<Rightarrow> nat \<Rightarrow> task list" where
  "receivers env a b = (if services_enabled env then concat (map (\<lambda>i. [TSms i, TCalls i]) [a..<b]) else [])"

lemma receivers_Cons: "a < b \<Longrightarrow> receivers env a b =
    (if services_enabled env then [TSms a, TCalls a] else []) @ receivers env (Suc a) b"
  by (simp add: receivers_def upt_conv_Cons)

text \<open>
  From a dashboard with \<open>n\<close> phones: the newest event is one of the network, tells of the
  failure or comes with readiness, and the goroutines started are the receivers of the
  phones published since.
\<close>

definition outcome :: "environment \<Rightarrow> nat \<Rightarrow> phone_dashboard \<Rightarrow> task list \<Rightarrow> bool" where
  "outcome env n d ts \<longleftrightarrow> n \<le> length (d_phones d) \<and> filter is_receiver ts = receivers env n (length (d_phones d))
     \<and> d_events d \<noteq> [] \<and> e_phone (last (d_events d)) = ''network''
     \<and> d_problem d = (if d_ready d then [] else e_text (last (d_events d)))"

definition starts_up :: "environment \<Rightarrow> nat \<Rightarrow> ('w, task option) goroutine \<Rightarrow> bool" where
  "starts_up env n p \<longleftrightarrow> (\<forall>s :: 'w sys. \<not> d_ready (dash s) \<longrightarrow> d_problem (dash s) = [] \<longrightarrow> length (d_phones (dash s)) = n \<longrightarrow>
     (\<exists>s' ts. exec p s = Some (s', ts, None) \<and> outcome env n (dash s') ts))"

named_theorems starts \<open>programs that come to an outcome\<close>

lemma starts_upI:
  assumes "\<And>s. \<not> d_ready (dash s) \<Longrightarrow> d_problem (dash s) = [] \<Longrightarrow> length (d_phones (dash s)) = n \<Longrightarrow>
     \<exists>s' ts. exec p s = Some (s', ts, None) \<and> outcome env n (dash s') ts"
  shows "starts_up env n p"
  using assms by (simp add: starts_up_def)

lemma starts_upE:
  assumes "starts_up env n p" and "\<not> d_ready (dash s)" and "d_problem (dash s) = []" and "length (d_phones (dash s)) = n"
  shows "\<exists>s' ts. exec p s = Some (s', ts, None) \<and> outcome env n (dash s') ts"
  using assms by (simp add: starts_up_def)

lemma starts_call [starts]:
  assumes "\<And>a. starts_up env n (k a)"
  shows "starts_up env n (call_world f k)"
proof (rule starts_upI)
  fix s :: "'b sys"
  assume s: "\<not> d_ready (dash s)" "d_problem (dash s) = []" "length (d_phones (dash s)) = n"
  obtain a w where "f (world s) = (a, w)" by force
  with s show "\<exists>s' ts. exec (call_world f k) s = Some (s', ts, None) \<and> outcome env n (dash s') ts"
    using starts_upE [OF assms, of "s\<lparr>world := w\<rparr>" a] by (simp add: run_simps)
qed

lemma starts_try [starts]:
  assumes "\<And>e. starts_up env n (bad e)" and "\<And>a. starts_up env n (k a)"
  shows "starts_up env n (try_world f bad k)"
  unfolding try_world_def by (rule starts_call) (simp add: assms split: sum.split)

lemma starts_read [starts]:
  assumes "\<And>a. starts_up env n (k a)"
  shows "starts_up env n (read_dash f k)"
  by (rule starts_upI) (simp add: run_simps starts_upE [OF assms])

lemma starts_accept [starts]:
  assumes "starts_up env n k"
  shows "starts_up env n (Go (TAccept l i) k)"
proof (rule starts_upI)
  fix s :: "'a sys"
  assume "\<not> d_ready (dash s)" "d_problem (dash s) = []" "length (d_phones (dash s)) = n"
  from starts_upE [OF assms this] obtain s' ts where "exec k s = Some (s', ts, None)" "outcome env n (dash s') ts"
    by blast
  then show "\<exists>s' ts. exec (Go (TAccept l i) k) s = Some (s', ts, None) \<and> outcome env n (dash s') ts"
    by (simp add: outcome_def)
qed

lemma last_event: "d_events (log_event e d) \<noteq> [] \<and> last (d_events (log_event e d)) = e"
  by (simp add: log_event_sel lastn_snoc)

lemma outcome_now:
  assumes "length (d_phones d) = n" and "d_problem d = (if d_ready d then [] else e_text e)" and "e_phone e = ''network''"
  shows "outcome env n (log_event e d) []"
  using assms last_event [of e d] by (simp add: outcome_def log_event_sel receivers_def)

lemma starts_fail [starts]: "starts_up env n (fail_dash api e)"
proof (rule starts_upI)
  fix s :: "'a sys"
  assume "\<not> d_ready (dash s)" "d_problem (dash s) = []" "length (d_phones (dash s)) = n"
  then show "\<exists>s' ts. exec (fail_dash api e) s = Some (s', ts, None) \<and> outcome env n (dash s') ts"
    by (auto simp: fail_dash_def network_event_def run_simps intro!: outcome_now split: prod.split)
qed

lemma starts_ready [starts]: "starts_up env n (ready_dash api env)"
proof (rule starts_upI)
  fix s :: "'a sys"
  assume "\<not> d_ready (dash s)" "d_problem (dash s) = []" "length (d_phones (dash s)) = n"
  then show "\<exists>s' ts. exec (ready_dash api env) s = Some (s', ts, None) \<and> outcome env n (dash s') ts"
    by (auto simp: ready_dash_def network_event_def run_simps intro!: outcome_now split: prod.split)
qed

lemma starts_publish [starts]:
  assumes "starts_up env (Suc n) k"
  shows "starts_up env n (publish_phone api env n leg p k)"
  unfolding publish_phone_def
proof (rule starts_call, rule starts_upI)
  fix s :: "'a sys" and a :: "string + nat"
  assume s: "\<not> d_ready (dash s)" "d_problem (dash s) = []" "length (d_phones (dash s)) = n"
  obtain t w where t: "now api (world s) = (t, w)" by force
  define s1 where "s1 x = s\<lparr>dash := log_event \<lparr>e_at = t, e_phone = p_id ((d_phones (dash s) @ [p]) ! n), e_text = x\<rparr>
     (add_phone p (dash s)), world := w\<rparr>" for x
  have s1: "\<not> d_ready (dash (s1 x))" "d_problem (dash (s1 x)) = []" "length (d_phones (dash (s1 x))) = Suc n" for x
    using s by (simp_all add: s1_def log_event_sel add_phone_def)
  define evt where "evt = (if services_enabled env then ''5G attached; internet and IMS PDU sessions established''
     else ''5G attached; internet-only PDU session established'')"
  from starts_upE [OF assms s1] obtain s' ts where
    k: "exec k (s1 evt) = Some (s', ts, None)" "outcome env (Suc n) (dash s') ts" by blast
  define ts' where "ts' = (if services_enabled env then [TSms n, TCalls n] else []) @ ts"
  have "exec (step_dash (\<lambda>d. ((), add_phone p d)) (\<lambda>_.
        if services_enabled env
        then emit_event api n ''5G attached; internet and IMS PDU sessions established'' (Go (TSms n) (Go (TCalls n) k))
        else emit_event api n ''5G attached; internet-only PDU session established'' k)) s = Some (s', ts', None)"
    using k(1) by (cases "services_enabled env") (auto simp: run_simps t s1_def evt_def ts'_def add_phone_def)
  moreover have "outcome env n (dash s') ts'"
    using k(2) by (auto simp: outcome_def ts'_def receivers_Cons)
  ultimately show "\<exists>s' ts. exec (step_dash (\<lambda>d. ((), add_phone p d)) (\<lambda>_.
        if services_enabled env
        then emit_event api n ''5G attached; internet and IMS PDU sessions established'' (Go (TSms n) (Go (TCalls n) k))
        else emit_event api n ''5G attached; internet-only PDU session established'' k)) s = Some (s', ts, None)
      \<and> outcome env n (dash s') ts" by blast
qed

lemma starts_if [starts]: "(b \<Longrightarrow> starts_up env n p) \<Longrightarrow> (\<not> b \<Longrightarrow> starts_up env n q) \<Longrightarrow> starts_up env n (if b then p else q)"
  by simp

lemma starts_option [starts]:
  "starts_up env n p \<Longrightarrow> (\<And>a. starts_up env n (q a)) \<Longrightarrow> starts_up env n (case x of None \<Rightarrow> p | Some a \<Rightarrow> q a)"
  by (cases x) simp_all

lemma starts_stale_tunnel [starts]:
  assumes "\<And>e. starts_up env n (bad e)" and "starts_up env n k"
  shows "starts_up env n (remove_stale_tunnel ra name bad k)"
  unfolding remove_stale_tunnel_def by (intro starts assms)

lemma starts_attach_internet [starts]:
  assumes "\<And>e. starts_up env n (bad e)" and "\<And>p. starts_up env n (k p)"
  shows "starts_up env n (attach_internet ra leg p i bad k)"
  unfolding attach_internet_def Let_def by (intro starts assms)

lemma starts_bring_up [starts]:
  assumes "\<And>m e. starts_up env m (bad e)" and "\<And>m. starts_up env m k"
  shows "starts_up env n (bring_up api env n ues bad k)"
proof (induction ues arbitrary: n)
  case (Cons u ues)
  obtain e leg where u: "u = (e, leg)" by force
  show ?case unfolding u bring_up.simps open_ims_def Let_def by (intro starts assms Cons.IH)
qed (simp add: assms)

lemma starts_commands [starts]:
  assumes "\<And>e. starts_up env n (bad e)" and "starts_up env n k"
  shows "starts_up env n (run_commands ra fw cmds bad k)"
proof (induction cmds)
  case (Cons c cmds)
  show ?case unfolding run_commands.simps
  proof (rule starts_call)
    fix r :: "string \<times> string option"
    show "starts_up env n (case r of (out, err) \<Rightarrow> case err of
        None \<Rightarrow> run_commands ra fw cmds bad k
      | Some e \<Rightarrow> if hd c \<noteq> ''-N'' then bad (''browser firewall: '' @ out @ '': '' @ e) else run_commands ra fw cmds bad k)"
      by (cases r) (simp, intro starts assms Cons.IH)
  qed
qed (simp add: assms)

lemma starts_hook [starts]:
  assumes "\<And>e. starts_up env n (bad e)" and "starts_up env n k"
  shows "starts_up env n (hook_chain ra fw bad k)"
  unfolding hook_chain_def split_def by (intro starts assms)

lemma starts_firewalls [starts]:
  assumes "\<And>e. starts_up env n (bad e)" and "starts_up env n k"
  shows "starts_up env n (firewall_each ra fws bad k)"
  by (induction fws) (simp_all add: assms starts)

lemma starts_proxy [starts]:
  assumes "\<And>e. starts_up env n (bad e)" and "starts_up env n k"
  shows "starts_up env n (start_browser_proxy ra bad k)"
  unfolding start_browser_proxy_def by (intro starts assms)

lemma starts_internet_ues [starts]:
  assumes "\<And>e. starts_up env n (bad e)" and "\<And>us. starts_up env n (k us)"
  shows "starts_up env n (attach_internet_ues ra g i ss ues bad k)"
proof (induction ss arbitrary: i ues)
  case (Cons a ss)
  show ?case unfolding attach_internet_ues.simps Let_def by (intro starts assms Cons.IH)
qed (simp add: assms)

lemma starts_gnb [starts]:
  assumes "\<And>e. starts_up env n (bad e)" and "\<And>g. starts_up env n (k g)"
  shows "starts_up env n (start_phone_gnb ra env g bad k)"
  unfolding start_phone_gnb_def by (intro starts assms)

lemma starts_initialize: "starts_up env 0 (initialize api env)"
  unfolding initialize_def attach_ues_def Let_def by (intro starts)

section \<open>The routes of a phone\<close>

text \<open>
  The part of the Linux network stack that \<open>attachInternet\<close> programs: rules, the default
  route of each numbered table, and links.  Adding an existing rule or link and deleting a
  missing one is an error; a link takes its routes with it.
\<close>

record host =
  h_rules :: "policy_rule list"
  h_routes :: "nat \<rightharpoonup> route"
  h_links :: "(string \<times> nat) list"

definition new_index :: "host \<Rightarrow> nat" where
  "new_index h = Suc (foldr max (map snd (h_links h)) 0)"

definition drop_link :: "nat \<Rightarrow> host \<Rightarrow> host" where
  "drop_link l h = h\<lparr>h_links := filter (\<lambda>x. snd x \<noteq> l) (h_links h),
     h_routes := (\<lambda>t. case h_routes h t of Some (ViaLink l' t') \<Rightarrow> if l' = l then None else Some (ViaLink l' t') | r \<Rightarrow> r)\<rparr>"

fun host_step :: "host_call \<Rightarrow> host \<Rightarrow> (string + nat) \<times> host" where
  "host_step (RuleDel r) h = (if r \<in> set (h_rules h) then (Inr 0, h\<lparr>h_rules := remove1 r (h_rules h)\<rparr>) else (Inl ''ENOENT'', h))"
| "host_step (RuleAdd r) h = (if r \<in> set (h_rules h) then (Inl ''EEXIST'', h) else (Inr 0, h\<lparr>h_rules := h_rules h @ [r]\<rparr>))"
| "host_step (LinkByName n) h = (case map_of (h_links h) n of None \<Rightarrow> (Inl ''ENODEV'', h) | Some l \<Rightarrow> (Inr l, h))"
| "host_step (LinkDel l) h = (Inr 0, drop_link l h)"
| "host_step (AddTunnel g t) h =
    (if map_of (h_links h) (tun_name t) \<noteq> None then (Inl ''EEXIST'', h)
     else (Inr 0, h\<lparr>h_links := (tun_name t, new_index h) # h_links h\<rparr>))"
| "host_step (RouteReplace (ViaLink l t)) h =
    (if l \<in> snd ` set (h_links h) then (Inr 0, h\<lparr>h_routes := (h_routes h)(t \<mapsto> ViaLink l t)\<rparr>) else (Inl ''ENODEV'', h))"
| "host_step (RouteReplace (Unreachable t)) h = (Inr 0, h\<lparr>h_routes := (h_routes h)(t \<mapsto> Unreachable t)\<rparr>)"
| "host_step (WatchTEID g t) h = (Inr 0, h)"

text \<open>
  The route of packets from an address: the rules that match it, by priority, up to the
  first whose table has a route; \<open>None\<close> stands for the main table.
\<close>

definition policy_route :: "host \<Rightarrow> string \<Rightarrow> route option" where
  "policy_route h src =
    (case find (\<lambda>r. h_routes h (rule_table r) \<noteq> None) (sort_key rule_priority (filter (\<lambda>r. rule_src r = src) (h_rules h))) of
       None \<Rightarrow> None | Some r \<Rightarrow> h_routes h (rule_table r))"

text \<open>No rule is left for the address but those of an earlier attachment of the same phone; a name is one link.\<close>

definition host_ready :: "host \<Rightarrow> nat \<Rightarrow> string \<Rightarrow> bool" where
  "host_ready h i src \<longleftrightarrow> distinct (h_rules h) \<and> distinct (map fst (h_links h))
     \<and> (\<forall>r \<in> set (h_rules h). rule_src r = src \<longrightarrow> r = web_rule i src \<or> r = fallback_rule i src)"

lemma rule_differs: "web_rule i src \<noteq> fallback_rule j src'"
  by (simp add: web_rule_def fallback_rule_def)

definition without_rules :: "host \<Rightarrow> nat \<Rightarrow> string \<Rightarrow> host" where
  "without_rules h i src = h\<lparr>h_rules := filter (\<lambda>r. r \<noteq> web_rule i src \<and> r \<noteq> fallback_rule i src) (h_rules h)\<rparr>"

lemma rule_dels:
  assumes "distinct (h_rules h)"
  shows "snd (host_step (RuleDel (fallback_rule i src)) (snd (host_step (RuleDel (web_rule i src)) h))) = without_rules h i src"
proof -
  have del: "snd (host_step (RuleDel r) h') = h'\<lparr>h_rules := filter (\<lambda>x. x \<noteq> r) (h_rules h')\<rparr>"
    if "distinct (h_rules h')" for r h'
  proof (cases "r \<in> set (h_rules h')")
    case True
    with that show ?thesis by (simp add: distinct_remove1_removeAll removeAll_filter_not_eq eq_commute)
  next
    case False
    then have "filter (\<lambda>x. x \<noteq> r) (h_rules h') = h_rules h'" by (auto simp: filter_id_conv)
    with False show ?thesis by simp
  qed
  show ?thesis using assms by (simp add: del without_rules_def del: host_step.simps)
qed

lemma exec_stale:
  assumes "kernel ra = host_step" and "distinct (map fst (h_links (world s)))"
  shows "\<exists>h. (\<forall>bad k. exec (remove_stale_tunnel ra name bad k) s = exec k (s\<lparr>world := h\<rparr>))
    \<and> map_of (h_links h) name = None \<and> h_rules h = h_rules (world s)"
proof (cases "map_of (h_links (world s)) name")
  case None
  with assms(1) show ?thesis
    by (intro exI [of _ "world s"]) (simp add: remove_stale_tunnel_def run_simps)
next
  case (Some l)
  have "(name, x) \<notin> set (filter (\<lambda>x. snd x \<noteq> l) (h_links (world s)))" for x
    using Some assms(2) by (auto simp: map_of_eq_Some_iff dest: eq_key_imp_eq_value)
  then have "map_of (filter (\<lambda>x. snd x \<noteq> l) (h_links (world s))) name = None"
    by (auto simp: map_of_eq_None_iff)
  with Some assms(1) show ?thesis
    by (intro exI [of _ "drop_link l (world s)"]) (simp add: remove_stale_tunnel_def run_simps drop_link_def)
qed

text \<open>What is left when the calls after the tunnel's creation have run.\<close>

definition routed :: "nat \<Rightarrow> pdu_session \<Rightarrow> host \<Rightarrow> host" where
  "routed i ses h = h\<lparr>h_links := (''ellaweb'' @ itoa i, new_index h) # h_links h,
     h_routes := (h_routes h)(200 + i \<mapsto> ViaLink (new_index h) (200 + i), 400 + i \<mapsto> Unreachable (400 + i)),
     h_rules := h_rules h @ [web_rule i (ses_ue_ipv4 ses), fallback_rule i (ses_ue_ipv4 ses)]\<rparr>"

lemma exec_attach_internet:
  fixes k :: "dashboard_phone \<Rightarrow> (host, 'r) goroutine"
  assumes ker: "kernel ra = host_step"
    and ses: "internet_session ra (leg_gnb leg) (leg_ue leg) (leg_ran_id leg) (world s) = (Inr ses, h)"
    and h: "host_ready h i (ses_ue_ipv4 ses)"
  shows "\<exists>h1. exec (attach_internet ra leg p i bad k) s
      = exec (k (p\<lparr>p_internet_ip := ses_ue_ipv4 ses, p_internet_session := ses\<rparr>)) (s\<lparr>world := routed i ses h1\<rparr>)
    \<and> h_rules h1 = h_rules (without_rules h i (ses_ue_ipv4 ses))"
proof -
  let ?src = "ses_ue_ipv4 ses" and ?name = "''ellaweb'' @ itoa i"
  let ?h2 = "without_rules h i ?src"
  have call: "exec (call_world f c) s' = exec (c (fst (f (world s')))) (s'\<lparr>world := snd (f (world s'))\<rparr>)" for f c s'
    by (simp add: run_simps split_beta)
  have "distinct (map fst (h_links (world (s\<lparr>world := ?h2\<rparr>))))" using h by (simp add: host_ready_def without_rules_def)
  from exec_stale [OF ker this, of ?name] obtain h1 where
    stale: "\<And>bad (c :: (host, 'r) goroutine). exec (remove_stale_tunnel ra ?name bad c) (s\<lparr>world := ?h2\<rparr>) = exec c (s\<lparr>world := ?h2, world := h1\<rparr>)"
    and h1: "map_of (h_links h1) ?name = None" "h_rules h1 = h_rules ?h2" by auto
  have del: "snd (host_step (RuleDel (fallback_rule i ?src)) (snd (host_step (RuleDel (web_rule i ?src)) h))) = ?h2"
    using h by (intro rule_dels) (simp add: host_ready_def)
  have new: "web_rule i ?src \<notin> set (h_rules h1)" "fallback_rule i ?src \<notin> set (h_rules h1)"
    by (simp_all add: h1(2) without_rules_def)
  define rest where "rest = try_world (kernel ra (AddTunnel (leg_gnb leg) (web_tunnel i ses))) bad (\<lambda>_.
       try_world (kernel ra (LinkByName ?name)) bad (\<lambda>link.
       try_world (kernel ra (RouteReplace (ViaLink link (200 + i)))) bad (\<lambda>_.
       try_world (kernel ra (RuleAdd (web_rule i ?src))) bad (\<lambda>_.
       try_world (kernel ra (RouteReplace (Unreachable (400 + i)))) bad (\<lambda>_.
       try_world (kernel ra (RuleAdd (fallback_rule i ?src))) bad (\<lambda>_.
       call_world (kernel ra (WatchTEID (leg_gnb leg) (ses_dlteid ses))) (\<lambda>_.
       k (p\<lparr>p_internet_ip := ?src, p_internet_session := ses\<rparr>))))))))"
  have "exec (attach_internet ra leg p i bad k) s
      = exec (remove_stale_tunnel ra ?name bad rest) (s\<lparr>world := ?h2\<rparr>)"
    unfolding attach_internet_def Let_def rest_def
    by (simp add: exec_try_world ses call ker del del: host_step.simps)
  also have "\<dots> = exec rest (s\<lparr>world := ?h2, world := h1\<rparr>)" by (rule stale)
  also have "\<dots> = exec (k (p\<lparr>p_internet_ip := ?src, p_internet_session := ses\<rparr>)) (s\<lparr>world := routed i ses h1\<rparr>)"
    unfolding rest_def ker
    by (simp add: run_simps web_tunnel_def h1(1) [simplified] new rule_differs rule_differs [symmetric] routed_def fun_upd_twist)
  finally show ?thesis using h1(2) by blast
qed

lemma filter_own_rules: "filter (\<lambda>r. rule_src r = src) [web_rule i src, fallback_rule i src] = [web_rule i src, fallback_rule i src]"
  by (simp add: web_rule_def fallback_rule_def)

lemma routed_own_rules:
  assumes "host_ready h i (ses_ue_ipv4 ses)" and "h_rules h1 = h_rules (without_rules h i (ses_ue_ipv4 ses))"
  shows "filter (\<lambda>r. rule_src r = ses_ue_ipv4 ses) (h_rules (routed i ses h1))
    = [web_rule i (ses_ue_ipv4 ses), fallback_rule i (ses_ue_ipv4 ses)]"
proof -
  have "filter (\<lambda>r. rule_src r = ses_ue_ipv4 ses) (h_rules h1) = []"
    using assms by (auto simp: filter_empty_conv host_ready_def without_rules_def)
  moreover have "h_rules (routed i ses h1) = h_rules h1 @ [web_rule i (ses_ue_ipv4 ses), fallback_rule i (ses_ue_ipv4 ses)]"
    by (simp add: routed_def)
  ultimately show ?thesis by (simp only: filter_append filter_own_rules append_Nil)
qed

lemma routed_other_rules:
  assumes "src \<noteq> ses_ue_ipv4 ses" and "h_rules h1 = h_rules (without_rules h i (ses_ue_ipv4 ses))"
  shows "filter (\<lambda>r. rule_src r = src) (h_rules (routed i ses h1)) = filter (\<lambda>r. rule_src r = src) (h_rules h)"
  using assms by (auto simp: routed_def without_rules_def web_rule_def fallback_rule_def intro!: filter_cong)

section \<open>Properties\<close>

text \<open>C9. Initialisation always ends, in one of two ways that the dashboard shows: ready and without a problem,
or not ready and with the problem that the newest event reports; and the goroutines it has started
by then are exactly the receivers of the phones it has published, if there are services at all.\<close>

theorem initialize_outcome:
  "\<exists>s' ts. exec (initialize api env) \<lparr>dash = new_dashboard, world = w\<rparr> = Some (s', ts, None :: task option)
    \<and> filter is_receiver ts = receivers env 0 (length (d_phones (dash s')))
    \<and> d_events (dash s') \<noteq> [] \<and> e_phone (last (d_events (dash s'))) = ''network''
    \<and> d_problem (dash s') = (if d_ready (dash s') then [] else e_text (last (d_events (dash s'))))"
proof -
  let ?s = "\<lparr>dash = new_dashboard, world = w\<rparr>"
  have "\<not> d_ready (dash ?s)" "d_problem (dash ?s) = []" "length (d_phones (dash ?s)) = 0"
    by (simp_all add: new_dashboard_def)
  from starts_upE [OF starts_initialize [of env api] this] obtain s' ts where
    e: "exec (initialize api env) ?s = Some (s', ts, None :: task option)" and o: "outcome env 0 (dash s') ts" by blast
  show ?thesis using e o [unfolded outcome_def] by (intro exI [of _ s'] exI [of _ ts]) blast
qed

text \<open>C5. A phone's internet traffic stays in its tunnel: on a host whose rules and routes behave as documented,
where nothing but an earlier attachment of the phone has left rules for its address, attaching
succeeds, even over a stale tunnel, and then packets from the address take the phone's tunnel; when
the tunnel disappears they are unreachable rather than sent by the main table; and the rules of
every other address are what they were.\<close>

theorem attached_routes:
  assumes "kernel ra = host_step"
    and "internet_session ra (leg_gnb leg) (leg_ue leg) (leg_ran_id leg) (world s) = (Inr ses, h)"
    and "host_ready h i (ses_ue_ipv4 ses)"
  shows "\<exists>h' l. exec (attach_internet ra leg p i bad k) s
      = exec (k (p\<lparr>p_internet_ip := ses_ue_ipv4 ses, p_internet_session := ses\<rparr>)) (s\<lparr>world := h'\<rparr>)
    \<and> map_of (h_links h') (''ellaweb'' @ itoa i) = Some l
    \<and> policy_route h' (ses_ue_ipv4 ses) = Some (ViaLink l (200 + i))
    \<and> policy_route (drop_link l h') (ses_ue_ipv4 ses) = Some (Unreachable (400 + i))
    \<and> (\<forall>src. src = ses_ue_ipv4 ses
        \<or> filter (\<lambda>r. rule_src r = src) (h_rules h') = filter (\<lambda>r. rule_src r = src) (h_rules h))"
proof -
  from exec_attach_internet [OF assms] obtain h1 where
    h1: "exec (attach_internet ra leg p i bad k) s
      = exec (k (p\<lparr>p_internet_ip := ses_ue_ipv4 ses, p_internet_session := ses\<rparr>)) (s\<lparr>world := routed i ses h1\<rparr>)"
    "h_rules h1 = h_rules (without_rules h i (ses_ue_ipv4 ses))" by blast
  let ?l = "new_index h1"
  have links: "map_of (h_links (routed i ses h1)) (''ellaweb'' @ itoa i) = Some ?l" by (simp add: routed_def)
  have sorted: "sort_key rule_priority [web_rule i src, fallback_rule i src] = [web_rule i src, fallback_rule i src]" for src
    by (simp add: web_rule_def fallback_rule_def)
  have route: "policy_route (routed i ses h1) (ses_ue_ipv4 ses) = Some (ViaLink ?l (200 + i))"
    unfolding policy_route_def routed_own_rules [OF assms(3) h1(2)] sorted
    by (simp add: routed_def web_rule_def)
  have drop: "h_rules (drop_link ?l (routed i ses h1)) = h_rules (routed i ses h1)" by (simp add: drop_link_def)
  have gone: "policy_route (drop_link ?l (routed i ses h1)) (ses_ue_ipv4 ses) = Some (Unreachable (400 + i))"
    unfolding policy_route_def drop routed_own_rules [OF assms(3) h1(2)] sorted
    by (simp add: routed_def web_rule_def fallback_rule_def drop_link_def)
  have others: "src = ses_ue_ipv4 ses \<or> filter (\<lambda>r. rule_src r = src) (h_rules (routed i ses h1))
      = filter (\<lambda>r. rule_src r = src) (h_rules h)" for src
    using routed_other_rules [OF _ h1(2)] by blast
  from h1(1) links route gone others show ?thesis by blast
qed

definition lab_host :: host where
  "lab_host = \<lparr>h_rules = [web_rule 0 ''10.45.0.2''], h_routes = [200 \<mapsto> ViaLink 7 200], h_links = [(''ellaweb0'', 7), (''eth0'', 2)]\<rparr>"

text \<open>A radio over that host: only the parts that an internet attachment calls matter.\<close>

definition host_radio :: "host radio_api" where
  "host_radio = \<lparr>ims_subscriber = lab_subscriber, default_ran_id = 1,
     start_gnb = (\<lambda>g w. (Inr 0, w)), radio_start = (\<lambda>opts w. (Inr 0, w)), wait_setup = (\<lambda>g w. (None, w)),
     gnb_close = (\<lambda>g w. w), new_subscriber_ue = (\<lambda>g s w. (Inr 0, w)), add_ue = (\<lambda>g i u w. w),
     register_ue = (\<lambda>g u i w. (Inr (lab_session u), w)), attach_ims_ues = (\<lambda>e g ss w. (Inr (lab_attach ss), w)),
     dashboard_ims = (\<lambda>e w. (Inr 0, w)), internet_session = (\<lambda>g u i w. (Inr (lab_session u), w)),
     kernel = host_step, run_command = (\<lambda>fw args w. (([], None), w)), listen_tcp = (\<lambda>a w. (Inr 0, w))\<rparr>"

lemma attached_routes_witness:
  "\<exists>h' l. exec (attach_internet host_radio (lab_leg 0) (lab_phone 0 [] []) 0 (\<lambda>e. Ret None) (\<lambda>q. Ret (Some (p_internet_ip q))))
      \<lparr>dash = new_dashboard, world = lab_host\<rparr> = Some (\<lparr>dash = new_dashboard, world = h'\<rparr>, [], Some ''10.45.0.2'')
    \<and> policy_route h' ''10.45.0.2'' = Some (ViaLink l 200)"
proof -
  let ?s = "\<lparr>dash = new_dashboard, world = lab_host\<rparr>"
  have ip: "ses_ue_ipv4 (lab_session 0) = ''10.45.0.2''" by (simp add: lab_session_def lab_itoa)
  have k: "kernel host_radio = host_step" by (simp add: host_radio_def)
  have ses: "internet_session host_radio (leg_gnb (lab_leg 0)) (leg_ue (lab_leg 0)) (leg_ran_id (lab_leg 0)) (world ?s)
      = (Inr (lab_session 0), lab_host)" by (simp add: host_radio_def lab_leg_def)
  have h: "host_ready lab_host 0 (ses_ue_ipv4 (lab_session 0))" unfolding ip by (simp add: host_ready_def lab_host_def)
  from attached_routes [OF k ses h, of "lab_phone 0 [] []" "\<lambda>e. Ret None" "\<lambda>q. Ret (Some (p_internet_ip q))"]
  obtain h' l where "exec (attach_internet host_radio (lab_leg 0) (lab_phone 0 [] []) 0 (\<lambda>e. Ret None) (\<lambda>q. Ret (Some (p_internet_ip q)))) ?s
      = exec (Ret (Some ''10.45.0.2'')) (?s\<lparr>world := h'\<rparr>)" "policy_route h' ''10.45.0.2'' = Some (ViaLink l 200)"
    unfolding ip by auto
  then show ?thesis by (intro exI [of _ h'] exI [of _ l]) simp
qed

end
