(* ===== verification/Web_Props.thy ===== *)
theory Web_Props
  imports Web_Client Web_Reader
begin

text \<open>
  What the web client and the two page renderings guarantee: the addresses that can be
  reached, the requests that can be made, and what can be in a page that is shown.
\<close>

section \<open>Host and port\<close>

lemma takeWhile_notin: "c \<notin> set s \<Longrightarrow> takeWhile (\<lambda>x. x \<noteq> c) (s @ c # t) = s"
  by (induction s) auto

lemma last_index_append: "c \<notin> set t \<Longrightarrow> last_index c (s @ c # t) = Some (length s)"
  using takeWhile_notin [of c "rev t" "rev s"] by (simp add: last_index_def)

lemma index_of_append: "c \<notin> set s \<Longrightarrow> index_of c (s @ c # t) = Some (length s)"
  by (simp add: index_of_def takeWhile_notin)

text \<open>Characters that would make the joined form ambiguous.\<close>

definition plain_host :: "string \<Rightarrow> bool" where
  "plain_host h \<longleftrightarrow> CHR ''['' \<notin> set h \<and> CHR '']'' \<notin> set h"

lemma split_join_plain:
  assumes "plain_host host" and "plain_host port" and "CHR '':'' \<notin> set port" and "CHR '':'' \<notin> set host"
  shows "net_split_host_port (host @ '':'' @ port) = Some (host, port)"
  using assms last_index_append [of "CHR '':''" port host]
  by (cases host) (auto simp: net_split_host_port_def plain_host_def)

lemma split_join_bracketed:
  assumes "plain_host host" and "plain_host port" and "CHR '':'' \<notin> set port"
  shows "net_split_host_port (''['' @ host @ '']:'' @ port) = Some (host, port)"
proof -
  have l: "last_index (CHR '':'') (''['' @ host @ '']:'' @ port) = Some (length host + 2)"
    using last_index_append [OF assms(3), of "''['' @ host @ '']''"] by simp
  have i: "index_of (CHR '']'') (''['' @ host @ '']:'' @ port) = Some (length host + 1)"
    using index_of_append [of "CHR '']''" "''['' @ host" "'':'' @ port"] assms(1) by (simp add: plain_host_def)
  have "CHR '']'' \<notin> set (drop (length host + 2) (''['' @ host @ '']:'' @ port))"
    "CHR ''['' \<notin> set (drop 1 (''['' @ host @ '']:'' @ port))"
    using assms by (simp_all add: plain_host_def)
  with l i show ?thesis by (simp add: net_split_host_port_def)
qed

lemma host_port_roundtrip:
  assumes "plain_host host" and "plain_host port" and "CHR '':'' \<notin> set port"
  shows "net_split_host_port (join_host_port host port) = Some (host, port)"
  using split_join_plain [OF assms] split_join_bracketed [OF assms] by (simp add: join_host_port_def)

section \<open>Mapped addresses\<close>

lemma ucast_mapped: "ucast (push_bit 32 k OR ucast a :: 128 word) = (a :: u32)"
  by (rule bit_word_eqI) (auto simp: bit_simps bit_ucast_iff)

lemma drop_mapped: "drop_bit 32 (push_bit 32 0xFFFF OR ucast (a :: u32) :: 128 word) = 0xFFFF"
  by (rule bit_word_eqI) (auto simp: bit_simps bit_ucast_iff dest: bit_imp_le_length)

lemma unmap_mapped: "addr_unmap (IPv6 (push_bit 32 0xFFFF OR ucast (a :: u32)) zone) = IPv4 a"
  by (simp only: addr_unmap.simps drop_mapped ucast_mapped refl if_True)

section \<open>Markup\<close>

text \<open>
  What the rebuilt page may consist of: escaped text, allow-listed elements without
  attributes, links to public web URLs, properly nested.
\<close>

inductive safe_markup :: "html_api \<Rightarrow> string \<Rightarrow> bool" for api where
  nothing: "safe_markup api []"
| escaped: "safe_markup api (escape_html api s)"
| sequence: "safe_markup api a \<Longrightarrow> safe_markup api b \<Longrightarrow> safe_markup api (a @ b)"
| element: "tag \<in> set kept_tags \<Longrightarrow> safe_markup api m \<Longrightarrow>
    safe_markup api (''<'' @ tag @ ''>'' @ m @ close_element tag)"
| link: "public_web_url u = Inr v \<Longrightarrow> safe_markup api m \<Longrightarrow> safe_markup api (link_open api u @ m @ ''</a>'')"

lemma link_target_public: "link_target base val = Some u \<Longrightarrow> \<exists>v. public_web_url u = Inr v"
  by (auto simp: link_target_def Let_def split: option.splits sum.splits)

lemma open_element_safe:
  assumes "open_element api base tag attrs = (start, t)" and "safe_markup api m"
  shows "safe_markup api (start @ m @ close_element t)"
proof -
  have none: "safe_markup api ([] @ m @ close_element [])" by (simp add: close_element_def assms(2))
  consider "tag \<in> set kept_tags" | "tag \<notin> set kept_tags" "tag = ''a''" | "tag \<notin> set kept_tags" "tag \<noteq> ''a''" by blast
  then show ?thesis
  proof cases
    case 1
    with assms(1) have "start = ''<'' @ tag @ ''>''" "t = tag" by (auto simp: open_element_def)
    with safe_markup.element [OF 1 assms(2)] show ?thesis by simp
  next
    case 2
    show ?thesis
    proof (cases "first_href attrs")
      case None
      with 2 assms(1) none show ?thesis by (simp add: open_element_def)
    next
      case (Some val)
      show ?thesis
      proof (cases "link_target base val")
        case None
        with 2 Some assms(1) none show ?thesis by (simp add: open_element_def)
      next
        case (Some u)
        with 2 \<open>first_href attrs = Some val\<close> assms(1) have st: "start = link_open api u" "t = ''a''"
          by (simp_all add: open_element_def)
        from link_target_public [OF Some] obtain v where "public_web_url u = Inr v" by blast
        from safe_markup.link [OF this assms(2)] show ?thesis by (simp add: st close_element_def)
      qed
    qed
  next
    case 3
    with assms(1) none show ?thesis by (simp add: open_element_def)
  qed
qed

lemma rebuild_safe:
  "\<exists>m. rebuild api base n out = out @ m \<and> safe_markup api m"
  "\<exists>m. rebuild_all api base ns out = out @ m \<and> safe_markup api m"
proof (induction api base n out and api base ns out rule: rebuild_rebuild_all.induct)
  case (1 api base ty data attrs cs out)
  consider "128000 < length out" | "\<not> 128000 < length out" "ty = TextNode"
    | "\<not> 128000 < length out" "ty = ElementNode" "data \<in> set dropped_tags"
    | "\<not> 128000 < length out" "ty \<noteq> TextNode" "\<not> (ty = ElementNode \<and> data \<in> set dropped_tags)" by blast
  then show ?case
  proof cases
    case 4
    obtain start t where o: "(if ty = ElementNode then open_element api base data attrs else ([], [])) = (start, t)"
      by force
    from 1 [OF 4 o [symmetric]] obtain m where
      m: "rebuild_all api base cs (out @ start) = (out @ start) @ m" "safe_markup api m" by blast
    have "safe_markup api (start @ m @ close_element t)"
    proof (cases "ty = ElementNode")
      case True
      with o show ?thesis by (simp add: open_element_safe m(2))
    next
      case False
      with o m(2) show ?thesis by (simp add: close_element_def)
    qed
    with 4 o m(1) show ?thesis by auto
  qed (auto intro: safe_markup.intros)
next
  case (3 api base c cs out)
  then show ?case by (metis append.assoc rebuild_all.simps(2) safe_markup.sequence)
qed (auto intro: safe_markup.nothing)

section \<open>The links of a page\<close>

text \<open>Every link is public, has a text, and is listed once.\<close>

definition link_ok :: "web_link \<Rightarrow> bool" where
  "link_ok l \<longleftrightarrow> wl_text l \<noteq> [] \<and> (case public_web_url (wl_url l) of Inl _ \<Rightarrow> False | Inr _ \<Rightarrow> True)"

definition links_ok :: "reader_state \<Rightarrow> bool" where
  "links_ok st \<longleftrightarrow> list_all link_ok (r_links st) \<and> distinct (map wl_url (r_links st))
     \<and> set (map wl_url (r_links st)) \<subseteq> set (r_seen st)"

lemma add_link_ok: "links_ok st \<Longrightarrow> links_ok (add_link base label val st)"
  by (auto simp: add_link_def links_ok_def link_ok_def dest!: link_target_public split: option.splits)

lemma add_links_ok: "links_ok st \<Longrightarrow> links_ok (add_links base label as st)"
  by (induction base label as st rule: add_links.induct) (auto simp: add_link_ok)

lemma read_element_ok: "links_ok st \<Longrightarrow> links_ok (read_element base n st)"
  using add_links_ok by (auto simp: read_element_def Let_def links_ok_def)

lemma read_text_links: "r_links (read_text data st) = r_links st" "r_seen (read_text data st) = r_seen st"
  by (simp_all add: read_text_def Let_def)

lemma read_ok:
  "links_ok st \<Longrightarrow> links_ok (read_node base n st)"
  "links_ok st \<Longrightarrow> links_ok (read_all base ns st)"
proof (induction base n st and base ns st rule: read_node_read_all.induct)
  case (1 base ty data attrs cs st)
  have t: "links_ok st' \<Longrightarrow> links_ok (read_text d st')" for st' d
    by (simp add: links_ok_def read_text_links)
  have e: "links_ok (read_element base (Node ty data attrs cs) st)" using 1(2) by (rule read_element_ok)
  show ?case
  proof (cases "32000 < length (r_text st) \<or> ty = ElementNode \<and> (data \<in> set skipped_tags \<or> data = ''title'')")
    case True
    with 1(2) show ?thesis by (auto simp: links_ok_def)
  next
    case False
    let ?st1 = "if ty = ElementNode then read_element base (Node ty data attrs cs) st else st"
    let ?st2 = "if ty = TextNode then read_text data ?st1 else ?st1"
    have "links_ok ?st2" using 1(2) e t by auto
    moreover from False have "\<not> 32000 < length (r_text st)" "\<not> (ty = ElementNode \<and> data \<in> set skipped_tags)"
      "\<not> (ty = ElementNode \<and> data = ''title'')" by auto
    ultimately show ?thesis using 1(1) [OF _ _ _ refl refl] by (cases ty) simp_all
  qed
qed simp_all

text \<open>Each element adds at most its \<open>href\<close> attributes; well-formed elements have one.\<close>

fun one_href :: "html \<Rightarrow> bool" where
  "one_href (Node ty data attrs cs) \<longleftrightarrow> length (filter (\<lambda>a. fst a = ''href'') attrs) \<le> 1 \<and> list_all one_href cs"

lemma add_links_count:
  "length (r_links (add_links base label as st)) \<le> length (r_links st) + length (filter (\<lambda>a. fst a = ''href'') as)"
proof (induction base label as st rule: add_links.induct)
  case (2 base label key val as st)
  have "length (r_links (add_link base label val st)) \<le> Suc (length (r_links st))"
    by (simp add: add_link_def split: option.split)
  with 2 show ?case by (auto split: if_splits)
qed simp

lemma read_element_count:
  assumes "length (r_links st) \<le> 30" and "one_href n"
  shows "length (r_links (read_element base n st)) \<le> 30"
  using assms add_links_count [of base "contents n" "n_attr n" st]
  by (cases n) (auto simp: read_element_def Let_def)

lemma read_count:
  "length (r_links st) \<le> 30 \<Longrightarrow> one_href n \<Longrightarrow> length (r_links (read_node base n st)) \<le> 30"
  "length (r_links st) \<le> 30 \<Longrightarrow> list_all one_href ns \<Longrightarrow> length (r_links (read_all base ns st)) \<le> 30"
proof (induction base n st and base ns st rule: read_node_read_all.induct)
  case (1 base ty data attrs cs st)
  have e: "length (r_links (read_element base (Node ty data attrs cs) st)) \<le> 30"
    using 1(2,3) by (rule read_element_count)
  show ?case
  proof (cases "32000 < length (r_text st) \<or> ty = ElementNode \<and> (data \<in> set skipped_tags \<or> data = ''title'')")
    case True
    with 1(2) show ?thesis by auto
  next
    case False
    let ?st1 = "if ty = ElementNode then read_element base (Node ty data attrs cs) st else st"
    let ?st2 = "if ty = TextNode then read_text data ?st1 else ?st1"
    have "length (r_links ?st2) \<le> 30" using 1(2) e by (cases ty) (simp_all add: read_text_links)
    moreover from False have "\<not> 32000 < length (r_text st)" "\<not> (ty = ElementNode \<and> data \<in> set skipped_tags)"
      "\<not> (ty = ElementNode \<and> data = ''title'')" by auto
    ultimately show ?thesis using 1(1) [OF _ _ _ refl refl] 1(3) by (cases ty) simp_all
  qed
qed simp_all

section \<open>Properties\<close>

text \<open>C20. Which IPv4 addresses are public, exactly: the bit tests of the code accept an address if and only if it
lies in none of ten ranges (this network, private, shared, loopback, link-local, protocol
assignments, benchmarking, and everything from the multicast addresses on), and an IPv6 address
that maps an IPv4 address is judged as that address.\<close>

theorem public_ipv4_exact:
  "(public_ip (IPv4 a) \<longleftrightarrow> list_all (\<lambda>(lo, hi). a < lo \<or> hi < a)
     [(ipv4 0 0 0 0, ipv4 0 255 255 255), (ipv4 10 0 0 0, ipv4 10 255 255 255),
      (ipv4 100 64 0 0, ipv4 100 127 255 255), (ipv4 127 0 0 0, ipv4 127 255 255 255),
      (ipv4 169 254 0 0, ipv4 169 254 255 255), (ipv4 172 16 0 0, ipv4 172 31 255 255),
      (ipv4 192 0 0 0, ipv4 192 0 0 255), (ipv4 192 168 0 0, ipv4 192 168 255 255),
      (ipv4 198 18 0 0, ipv4 198 19 255 255), (ipv4 224 0 0 0, ipv4 255 255 255 255)])
   \<and> public_ip (IPv6 (push_bit 32 0xFFFF OR ucast a) zone) = public_ip (IPv4 a)"
proof -
  have "public_ip (IPv6 (push_bit 32 0xFFFF OR ucast a) zone) = public_ip (IPv4 a)"
    unfolding public_ip_def unmap_mapped addr_unmap.simps(2,3) ..
  then show ?thesis unfolding public_ipv4_ranges refused_ranges_def by (rule conjI [OF refl])
qed

text \<open>C18. Only public addresses are dialled: whatever the name server answers, and whatever name or address was
asked for, every connection a phone opens is to a public address and from the phone's own address.\<close>

theorem dials_only_public:
  "\<exists>ips port. snd (snd (dial_context (watch_dials api) source address (w, l))) =
       l @ map (\<lambda>ip. Dialled \<lparr>d_bind = (TCP, parse_ip api source), d_timeout = 8\<rparr> ip port) ips
     \<and> list_all public_ip ips"
  using dial_context_log [of api source address w l] by (fastforce simp: ue_dialer_def list_all_iff)

text \<open>C19. At most five requests are made for one page, and every one after the first only to a URL that the
admission test accepts: a redirect cannot lead to a port, scheme or user the phone may not use.\<close>

theorem requests_admitted:
  "\<exists>es. snd (snd (client_do (watch_dials api) source 0 u (w, l))) = l @ Requested u # es
     \<and> list_all admitted_request es \<and> length es < 5"
  using client_do_log [of api source 0 u w l] by auto

text \<open>C30. The links of a page are fit to be offered: each has a text and a public web URL, none is listed twice,
and there are at most thirty, provided no element carries several \<open>href\<close> attributes.\<close>

theorem reader_links:
  assumes "parse_html api body = Some root" and "one_href root"
  shows "\<exists>title txt links. reader api body base = (title, txt, Some links)
    \<and> length links \<le> 30 \<and> distinct (map wl_url links) \<and> list_all link_ok links"
proof -
  let ?st = "\<lparr>r_text = [], r_title = [], r_links = [], r_seen = []\<rparr>"
  have "links_ok ?st" by (simp add: links_ok_def)
  then have "links_ok (read_node base root ?st)" by (rule read_ok)
  moreover have "length (r_links (read_node base root ?st)) \<le> 30" using assms(2) by (intro read_count) simp
  ultimately show ?thesis using assms(1) by (simp add: reader_def Let_def links_ok_def)
qed

definition page_base :: url where
  "page_base = \<lparr>u_scheme = ''http'', u_opaque = [], u_user = None, u_host = ''example.org'', u_path = ''/'', u_raw_path = [],
     u_omit_host = False, u_force_query = False, u_raw_query = [], u_fragment = [], u_raw_fragment = []\<rparr>"

lemma reader_links_witness:
  "\<exists>title txt links. reader \<lparr>parse_html = (\<lambda>s. Some (Node ElementNode ''a'' [(''href'', s)] [Node TextNode ''home'' [] []])),
      escape_html = id\<rparr> ''http://example.org/'' page_base = (title, txt, Some links) \<and> distinct (map wl_url links)"
proof -
  let ?api = "\<lparr>parse_html = (\<lambda>s. Some (Node ElementNode ''a'' [(''href'', s)] [Node TextNode ''home'' [] []])), escape_html = id\<rparr>"
  have p: "parse_html ?api ''http://example.org/'' =
      Some (Node ElementNode ''a'' [(''href'', ''http://example.org/'')] [Node TextNode ''home'' [] []])" by simp
  have "one_href (Node ElementNode ''a'' [(''href'', ''http://example.org/'')] [Node TextNode ''home'' [] []])" by simp
  from reader_links [OF p this, of page_base] show ?thesis by blast
qed

text \<open>C17. The rebuilt page is safe to show: whatever the fetched page contains, the result is escaped text,
properly nested elements of the allow list without any attribute, and links to public web URLs.\<close>

theorem mobile_reader_safe: "safe_markup api (mobile_reader api body base)"
proof (cases "parse_html api body")
  case (Some root)
  with rebuild_safe(1) [of api base root "[]"] show ?thesis by (auto simp: mobile_reader_def)
qed (simp add: mobile_reader_def safe_markup.nothing)

text \<open>Documentation and 6to4 relay addresses are among the accepted ones.\<close>

lemma special_use_accepted:
  "public_ip (IPv4 (ipv4 192 0 2 1)) \<and> public_ip (IPv4 (ipv4 198 51 100 1)) \<and> public_ip (IPv4 (ipv4 203 0 113 1))
   \<and> public_ip (IPv4 (ipv4 192 88 99 1))"
  by (simp add: public_ipv4_ranges refused_ranges_def ipv4_def)

end
