(* ===== verification/Socks_Props.thy ===== *)
theory Socks_Props
  imports Lab Web_Props
begin

text \<open>
  The wire formats of the phones: the SOCKS handshake read back from what a client encodes,
  the RTP packet and its counters, and phone numbers.
\<close>

section \<open>A connection as a byte stream\<close>

text \<open>What a client sends: the greeting with its methods, then a request for an address or a name.\<close>

definition socks_greeting :: "bytes \<Rightarrow> bytes" where
  "socks_greeting methods = [5, of_nat (length methods)] @ methods"

datatype socks_target = Ip4 bytes | Name bytes

fun target_ok :: "socks_target \<Rightarrow> bool" where
  "target_ok (Ip4 b) \<longleftrightarrow> length b = 4"
| "target_ok (Name b) \<longleftrightarrow> length b \<le> 255"

fun socks_ask :: "socks_target \<Rightarrow> u16 \<Rightarrow> bytes" where
  "socks_ask (Ip4 b) port = [5, 1, 0, 1] @ b @ put_u16 port"
| "socks_ask (Name b) port = [5, 1, 0, 3, of_nat (length b)] @ b @ put_u16 port"

fun target_text :: "socks_target \<Rightarrow> string" where
  "target_text (Ip4 b) = ipv4_text b"
| "target_text (Name b) = text_of b"

text \<open>Reads take the next bytes of the stream; writes leave it alone.\<close>

definition byte_stream :: "'w conn_api \<Rightarrow> nat \<Rightarrow> ('w \<Rightarrow> bytes) \<Rightarrow> bool" where
  "byte_stream ca c inbox \<longleftrightarrow>
     (\<forall>n w. n \<le> length (inbox w) \<longrightarrow>
        (\<exists>w'. read_full ca c n w = Some (Some (take n (inbox w)), w') \<and> inbox w' = drop n (inbox w)))
   \<and> (\<forall>bs w. inbox (write_conn ca c bs w) = inbox w)"

lemma stream_read:
  assumes "byte_stream (conns api) c inbox" and "inbox (world s) = bs @ rest" and "length bs = n"
  shows "\<exists>w. inbox w = rest \<and> (\<forall>k. exec (socks_read api c n k) s = exec (k bs) (s\<lparr>world := w\<rparr>))"
proof -
  have "n \<le> length (inbox (world s))" using assms(2,3) by simp
  with assms(1) obtain w' where
    "read_full (conns api) c n (world s) = Some (Some (take n (inbox (world s))), w')" "inbox w' = drop n (inbox (world s))"
    unfolding byte_stream_def by blast
  with assms(2,3) show ?thesis by (intro exI [of _ w']) (simp add: socks_read_def run_simps)
qed

lemma exec_socks_write: "exec (socks_write api c bs k) s = exec k (s\<lparr>world := write_conn (conns api) c bs (world s)\<rparr>)"
  by (simp add: socks_write_def run_simps)

lemma exec_close_socks: "exec (close_socks api c) s = Some (s\<lparr>world := close_conn (conns api) c (world s)\<rparr>, [], None)"
  by (simp add: close_socks_def run_simps)

lemma unat_of_length: "length bs \<le> 255 \<Longrightarrow> unat (of_nat (length bs) :: u8) = length bs"
  by (simp add: unsigned_of_nat take_bit_nat_eq_self)

lemma stream_host:
  assumes "byte_stream (conns api) c inbox" and "target_ok t"
    and "inbox (world s) = drop 4 (socks_ask t port) @ rest"
  shows "\<exists>w. exec (socks_host api c (socks_ask t port ! 3) k) s = exec (k (target_text t)) (s\<lparr>world := w\<rparr>)
    \<and> inbox w = put_u16 port @ rest"
proof (cases t)
  case (Ip4 b)
  with assms stream_read [OF assms(1), of s b "put_u16 port @ rest" 4] show ?thesis
    by (auto simp: socks_host_def)
next
  case (Name b)
  then have len: "length b \<le> 255" using assms(2) by simp
  from stream_read [OF assms(1), of s "[of_nat (length b)]" "b @ put_u16 port @ rest" 1] assms(3) Name
  obtain w1 where w1: "inbox w1 = b @ put_u16 port @ rest"
    "\<And>k. exec (socks_read api c 1 k) s = exec (k [of_nat (length b)]) (s\<lparr>world := w1\<rparr>)" by auto
  from stream_read [OF assms(1), of "s\<lparr>world := w1\<rparr>" b "put_u16 port @ rest" "length b"] w1(1)
  obtain w2 where "inbox w2 = put_u16 port @ rest"
    "\<And>k. exec (socks_read api c (length b) k) (s\<lparr>world := w1\<rparr>) = exec (k b) (s\<lparr>world := w2\<rparr>)" by auto
  with w1(2) Name len show ?thesis by (intro exI [of _ w2]) (simp add: socks_host_def unat_of_length)
qed

lemma stream_write: "byte_stream ca c inbox \<Longrightarrow> inbox (write_conn ca c bs w) = inbox w"
  by (simp add: byte_stream_def)

lemma ask_parts: "take 4 (socks_ask t port) = [5, 1, 0, socks_ask t port ! 3]"
    "socks_ask t port = [5, 1, 0, socks_ask t port ! 3] @ drop 4 (socks_ask t port)"
  by (cases t; simp)+

lemma stream_request:
  assumes st: "byte_stream (conns api) c inbox" and "target_ok t" and "inbox (world s) = socks_ask t port @ rest"
  shows "\<exists>w. inbox w = rest \<and> exec (socks_request api c i) s =
    (if unat port \<in> {80, 443} then exec (socks_connect api c i (target_text t) (unat port)) (s\<lparr>world := w\<rparr>)
     else Some (s\<lparr>world := close_conn (conns api) c (write_conn (conns api) c (reply 2) w)\<rparr>, [], None))"
proof -
  have "inbox (world s) = [5, 1, 0, socks_ask t port ! 3] @ (drop 4 (socks_ask t port) @ rest)"
    using assms(3) ask_parts(2) [of t port] by (metis append.assoc)
  from stream_read [OF st this, of 4] obtain w1 where w1: "inbox w1 = drop 4 (socks_ask t port) @ rest"
    "\<And>k. exec (socks_read api c 4 k) s = exec (k [5, 1, 0, socks_ask t port ! 3]) (s\<lparr>world := w1\<rparr>)" by auto
  define after where "after = (\<lambda>host. socks_read api c 2 (\<lambda>pb. (let port = get_uint pb in
      if port \<noteq> 80 \<and> port \<noteq> 443 then socks_write api c (reply 2) (close_socks api c)
      else socks_connect api c i host port)))"
  from stream_host [OF st assms(2), of "s\<lparr>world := w1\<rparr>" port rest after] w1(1) obtain w2 where
    w2: "exec (socks_host api c (socks_ask t port ! 3) after) (s\<lparr>world := w1\<rparr>) = exec (after (target_text t)) (s\<lparr>world := w2\<rparr>)"
    "inbox w2 = put_u16 port @ rest" by auto
  from stream_read [OF st, of "s\<lparr>world := w2\<rparr>" "put_u16 port" rest 2] w2(2) obtain w3 where
    w3: "inbox w3 = rest" "\<And>k. exec (socks_read api c 2 k) (s\<lparr>world := w2\<rparr>) = exec (k (put_u16 port)) (s\<lparr>world := w3\<rparr>)"
    by auto
  have "exec (socks_request api c i) s = exec (socks_host api c (socks_ask t port ! 3) after) (s\<lparr>world := w1\<rparr>)"
    by (simp add: socks_request_def w1(2) after_def)
  also have "\<dots> = exec (after (target_text t)) (s\<lparr>world := w2\<rparr>)" by (rule w2(1))
  also have "\<dots> = (if unat port \<in> {80, 443} then exec (socks_connect api c i (target_text t) (unat port)) (s\<lparr>world := w3\<rparr>)
     else Some (s\<lparr>world := close_conn (conns api) c (write_conn (conns api) c (reply 2) w3)\<rparr>, [], None))"
    by (simp add: after_def w3(2) get_put_u16 exec_socks_write exec_close_socks)
  finally show ?thesis using w3(1) by blast
qed

section \<open>What a connection can reach\<close>

text \<open>The port of a split address is what follows its last colon.\<close>

lemma split_port:
  assumes "CHR '':'' \<notin> set port" and "net_split_host_port (h @ '':'' @ port) = Some (h', port')"
  shows "port' = port"
proof -
  have "last_index (CHR '':'') (h @ '':'' @ port) = Some (length h)" using last_index_append [OF assms(1), of h] by simp
  with assms(2) show ?thesis by (auto simp: net_split_host_port_def split: if_splits option.splits)
qed

lemma join_as_append: "\<exists>h. join_host_port host port = h @ '':'' @ port"
  by (cases "CHR '':'' \<in> set host")
    (auto simp: join_host_port_def intro: exI [of _ "''['' @ host @ '']''"])

lemma itoa_ports: "itoa 80 = ''80''" "itoa 443 = ''443''"
  by code_simp+

text \<open>Every one of the addresses, asked in turn, refuses the connection.\<close>

fun refused :: "'w net_api \<Rightarrow> dialer \<Rightarrow> string \<Rightarrow> ip_addr list \<Rightarrow> 'w \<Rightarrow> 'w \<Rightarrow> bool" where
  "refused api d port [] w w' = (w' = w)"
| "refused api d port (ip # ips) w w' = (case dial_tcp api d ''tcp4'' (ip, port) w of
     (Inl e, w1) \<Rightarrow> refused api d port ips w1 w' | (Inr u, w1) \<Rightarrow> False)"

lemma refused_dial:
  "refused api d port tried w w1 \<Longrightarrow> dial_tcp api d ''tcp4'' (ip, port) w1 = (Inr u, w2)
    \<Longrightarrow> dial_each api d port (tried @ ip # rest) e w = (Inr u, w2)"
  by (induction tried arbitrary: w e) (auto split: prod.splits sum.splits)

lemma refused_dial_all: "refused api d port ips w w1 \<Longrightarrow> \<exists>e'. dial_each api d port ips e w = (Inl e', w1)"
  by (induction ips arbitrary: w e) (auto split: prod.splits sum.splits)

lemma accepted_context:
  assumes "net_split_host_port address = Some (host, port)"
    and "lookup_netip api (ue_resolver api source) ''ip4'' host w = (answer, w1)"
    and "answer = Inr (tried @ ip # rest) \<and> list_all public_ip (tried @ ip # rest)
      \<and> refused api (ue_dialer api source) port tried w1 w2
      \<and> dial_tcp api (ue_dialer api source) ''tcp4'' (ip, port) w2 = (Inr u, w3)"
  shows "dial_context api source address w = (Inr u, w3)"
  using assms by (auto simp: dial_context_def refused_dial list_ex_iff list_all_iff)

lemma refused_context:
  assumes "net_split_host_port address = Some (host, port)"
    and "lookup_netip api (ue_resolver api source) ''ip4'' host w = (answer, w1)"
    and "case answer of
        Inl e \<Rightarrow> w2 = w1
      | Inr ips \<Rightarrow> (if list_all public_ip ips then refused api (ue_dialer api source) port ips w1 w2 else w2 = w1)"
  shows "\<exists>e. dial_context api source address w = (Inl e, w2)"
  using assms refused_dial_all [of api "ue_dialer api source" port _ w1 w2 "[]"]
  by (cases answer) (auto simp: dial_context_def list_ex_iff list_all_iff split: if_splits)

lemma exec_socks_connect:
  "exec (socks_connect api c i host port) s =
    (case dial_context (net api) (p_internet_ip (d_phones (dash s) ! i)) (join_host_port host (itoa port)) (world s) of
       (Inl e, w2) \<Rightarrow> Some (s\<lparr>world := close_conn (conns api) c (write_conn (conns api) c (reply 4) w2)\<rparr>, [], None)
     | (Inr u, w3) \<Rightarrow>
        (case now api (write_conn (conns api) c (reply 0) w3) of (t, w4) \<Rightarrow>
          map_option (\<lambda>(_, w5). (s\<lparr>world := close_conn (conns api) c w5,
              dash := log_event \<lparr>e_at = t, e_phone = p_id (d_phones (dash s) ! i),
                e_text = ''Chromium via UE '' @ p_internet_ip (d_phones (dash s) ! i) @ '': '' @ host\<rparr> (dash s)\<rparr>, [], None))
            (relay (conns api) c u w4)))"
  by (auto simp: socks_connect_def run_simps exec_socks_write exec_close_socks split: prod.split sum.split option.split)

text \<open>A dial of the phone's web client, to a public address on a web port.\<close>

definition web_dial :: "'w net_api \<Rightarrow> string \<Rightarrow> net_event \<Rightarrow> bool" where
  "web_dial n source e = (case e of
     Dialled d ip port \<Rightarrow> d = ue_dialer n source \<and> public_ip ip \<and> port \<in> {''80'', ''443''}
   | Requested u \<Rightarrow> False)"

text \<open>The operations beside the network do not touch the record of its dials.\<close>

definition log_free :: "('w \<times> net_event list) phone_api \<Rightarrow> bool" where
  "log_free api \<longleftrightarrow>
     (\<forall>c n w r w'. read_full (conns api) c n w = Some (r, w') \<longrightarrow> snd w' = snd w)
   \<and> (\<forall>c bs w. snd (write_conn (conns api) c bs w) = snd w) \<and> (\<forall>c w. snd (close_conn (conns api) c w) = snd w)
   \<and> (\<forall>c u w r w'. relay (conns api) c u w = Some (r, w') \<longrightarrow> snd w' = snd w) \<and> (\<forall>w. snd (snd (now api w)) = snd w)"

definition web_only :: "'w net_api \<Rightarrow> nat \<Rightarrow> ('w \<times> net_event list, 'r) goroutine \<Rightarrow> bool" where
  "web_only n i p \<longleftrightarrow> (\<forall>s s' ts r. exec p s = Some (s', ts, r) \<longrightarrow>
     (\<exists>es. snd (world s') = snd (world s) @ es \<and> list_all (web_dial n (p_internet_ip (d_phones (dash s) ! i))) es))"

named_theorems reach_rules \<open>programs that dial the web only\<close>

lemma web_only_Ret [reach_rules]: "web_only n i (Ret r)"
  by (simp add: web_only_def)

lemma web_onlyE:
  assumes "web_only n i p" and "exec p s = Some (s', ts, r)"
  shows "\<exists>es. snd (world s') = snd (world s) @ es \<and> list_all (web_dial n (p_internet_ip (d_phones (dash s) ! i))) es"
  using assms unfolding web_only_def by blast

lemma web_only_wait:
  assumes "\<And>w a w'. f w = Some (a, w') \<Longrightarrow> snd w' = snd w" and "\<And>a. web_only n i (k a)"
  shows "web_only n i (wait_world f k)"
  unfolding web_only_def
proof (intro allI impI)
  fix s s' :: "('a \<times> net_event list) sys" and ts r
  assume "exec (wait_world f k) s = Some (s', ts, r)"
  then obtain a w where f: "f (world s) = Some (a, w)" and k: "exec (k a) (s\<lparr>world := w\<rparr>) = Some (s', ts, r)"
    by (auto simp only: exec_actions split: option.splits prod.splits)
  from web_onlyE [OF assms(2) k] assms(1) [OF f]
  show "\<exists>es. snd (world s') = snd (world s) @ es \<and> list_all (web_dial n (p_internet_ip (d_phones (dash s) ! i))) es"
    by simp
qed

lemma web_only_call:
  assumes "\<And>w. snd (snd (f w)) = snd w" and "\<And>a. web_only n i (k a)"
  shows "web_only n i (call_world f k)"
  unfolding web_only_def
proof (intro allI impI)
  fix s s' :: "('a \<times> net_event list) sys" and ts r
  assume "exec (call_world f k) s = Some (s', ts, r)"
  then have "exec (k (fst (f (world s)))) (s\<lparr>world := snd (f (world s))\<rparr>) = Some (s', ts, r)"
    by (simp only: exec_actions split_beta)
  from web_onlyE [OF assms(2) this] assms(1) [of "world s"]
  show "\<exists>es. snd (world s') = snd (world s) @ es \<and> list_all (web_dial n (p_internet_ip (d_phones (dash s) ! i))) es"
    by simp
qed

lemma log_freeD:
  assumes "log_free api"
  shows "read_full (conns api) c n w = Some (b, w') \<Longrightarrow> snd w' = snd w"
    "snd (write_conn (conns api) c bs w) = snd w" "snd (close_conn (conns api) c w) = snd w"
    "relay (conns api) c u w = Some (x, w') \<Longrightarrow> snd w' = snd w" "snd (snd (now api w)) = snd w"
  using assms unfolding log_free_def by metis+

lemma web_only_event:
  assumes "log_free api" and "web_only n i k"
  shows "web_only n i (emit_event api j evt k)"
  unfolding web_only_def
proof (intro allI impI)
  fix s s' :: "('a \<times> net_event list) sys" and ts r
  assume e: "exec (emit_event api j evt k) s = Some (s', ts, r)"
  obtain t w where t: "now api (world s) = (t, w)" by (metis surj_pair)
  then have "snd w = snd (world s)" using log_freeD(5) [OF assms(1), of "world s"] by simp
  moreover have "exec k (s\<lparr>dash := log_event \<lparr>e_at = t, e_phone = p_id (d_phones (dash s) ! j), e_text = evt\<rparr> (dash s),
      world := w\<rparr>) = Some (s', ts, r)" using e t by (simp add: run_simps)
  from web_onlyE [OF assms(2) this] have "\<exists>es. snd (world s') = snd w @ es
      \<and> list_all (web_dial n (p_internet_ip (d_phones (dash s) ! i))) es" by (simp add: log_event_sel)
  ultimately show "\<exists>es. snd (world s') = snd (world s) @ es
      \<and> list_all (web_dial n (p_internet_ip (d_phones (dash s) ! i))) es" by simp
qed

lemma web_only_close [reach_rules]: "log_free api \<Longrightarrow> web_only n i (close_socks api c)"
  unfolding close_socks_def by (rule web_only_call) (simp_all add: log_freeD web_only_Ret)

lemma web_only_write [reach_rules]: "log_free api \<Longrightarrow> web_only n i k \<Longrightarrow> web_only n i (socks_write api c bs k)"
  unfolding socks_write_def by (rule web_only_call) (simp_all add: log_freeD)

lemma web_only_relay [reach_rules]:
  "log_free api \<Longrightarrow> (\<And>b. web_only n i (k b)) \<Longrightarrow> web_only n i (wait_world (relay (conns api) c u) k)"
  by (rule web_only_wait) (auto dest: log_freeD(4))

lemma web_only_read [reach_rules]:
  "log_free api \<Longrightarrow> (\<And>b. web_only n i (k b)) \<Longrightarrow> web_only n i (socks_read api c m k)"
  unfolding socks_read_def
  by (rule web_only_wait) (auto dest: log_freeD(1) intro: reach_rules split: option.split)

lemma web_only_host [reach_rules]:
  "log_free api \<Longrightarrow> (\<And>h. web_only n i (k h)) \<Longrightarrow> web_only n i (socks_host api c kind k)"
  unfolding socks_host_def by (auto intro: reach_rules)

lemma dial_web:
  assumes "port = 80 \<or> port = 443"
    and "dial_context (watch_dials n) source (join_host_port host (itoa port)) w = (x, w')"
  shows "\<exists>es. snd w' = snd w @ es \<and> list_all (web_dial n source) es"
proof -
  obtain w0 l where w: "w = (w0, l)" by force
  from dial_context_log [of n source "join_host_port host (itoa port)" w0 l] obtain h p ips where
    es: "snd w' = l @ map (\<lambda>ip. Dialled (ue_dialer n source) ip p) ips" "\<forall>ip \<in> set ips. public_ip ip"
    and p: "ips \<noteq> [] \<longrightarrow> net_split_host_port (join_host_port host (itoa port)) = Some (h, p)"
    using assms(2) w by auto
  have c: "CHR '':'' \<notin> set (itoa port)" "itoa port = ''80'' \<or> itoa port = ''443''"
    using assms(1) by (auto simp: itoa_ports)
  from join_as_append obtain h0 where "join_host_port host (itoa port) = h0 @ '':'' @ itoa port" by blast
  with p split_port [OF c(1)] have "ips \<noteq> [] \<longrightarrow> p = itoa port" by metis
  with es c(2) w show ?thesis by (intro exI [of _ "map (\<lambda>ip. Dialled (ue_dialer n source) ip p) ips"])
    (auto simp: web_dial_def list_all_iff)
qed

lemma web_only_connect:
  assumes "net api = watch_dials n" and "log_free api" and "port = 80 \<or> port = 443"
  shows "web_only n i (socks_connect api c i host port)"
  unfolding web_only_def
proof (intro allI impI)
  fix s s' :: "('a \<times> net_event list) sys" and ts r
  assume e: "exec (socks_connect api c i host port) s = Some (s', ts, r)"
  let ?ip = "p_internet_ip (d_phones (dash s) ! i)"
  obtain x w where x: "dial_context (watch_dials n) ?ip (join_host_port host (itoa port)) (world s) = (x, w)"
    by (metis surj_pair)
  define rest where "rest = (case x of
      Inl e \<Rightarrow> socks_write api c (reply 4) (close_socks api c)
    | Inr u \<Rightarrow> socks_write api c (reply 0) (emit_event api i (''Chromium via UE '' @ ?ip @ '': '' @ host)
        (wait_world (relay (conns api) c u) (\<lambda>_. close_socks api c))))"
  have "web_only n i rest" using assms(2)
    by (auto simp: rest_def split: sum.split intro!: reach_rules web_only_event)
  moreover have "exec rest (s\<lparr>world := w\<rparr>) = Some (s', ts, r)"
    using e x by (auto simp: socks_connect_def run_simps assms(1) rest_def split: sum.splits)
  ultimately obtain es where "snd (world s') = snd w @ es" "list_all (web_dial n ?ip) es"
    by (fastforce simp: web_only_def)
  moreover from dial_web [OF assms(3) x] obtain es0 where "snd w = snd (world s) @ es0" "list_all (web_dial n ?ip) es0"
    by blast
  ultimately show "\<exists>es. snd (world s') = snd (world s) @ es \<and> list_all (web_dial n ?ip) es"
    by (intro exI [of _ "es0 @ es"]) simp
qed

lemma web_only_socks:
  assumes "net api = watch_dials n" and "log_free api"
  shows "web_only n i (socks api c i)"
proof -
  have "web_only n i (socks_request api c i)"
    unfolding socks_request_def Let_def using assms
    by (auto intro!: reach_rules web_only_connect)
  then show ?thesis unfolding socks_def using assms(2) by (auto intro!: reach_rules)
qed

section \<open>Properties\<close>

text \<open>C12. The SOCKS proxy reads what clients write: from the encoding of a greeting that offers no authentication
and of a request for any address or name and any port, the connection goes on to the destination
that was encoded if the port is 80 or 443, and is refused with code 2 and closed without any
connection otherwise; not a byte of what follows is consumed.\<close>

theorem socks_handshake:
  assumes "byte_stream (conns api) c inbox" and "length methods \<le> 255" and "0 \<in> set methods" and "target_ok t"
    and "inbox (world s) = socks_greeting methods @ socks_ask t port @ rest"
  shows "\<exists>w. inbox w = rest \<and> exec (socks api c i) s =
    (if unat port \<in> {80, 443} then exec (socks_connect api c i (target_text t) (unat port)) (s\<lparr>world := w\<rparr>)
     else Some (s\<lparr>world := close_conn (conns api) c (write_conn (conns api) c (reply 2) w)\<rparr>, [], None))"
proof -
  note st = assms(1)
  from stream_read [OF st, of s "[5, of_nat (length methods)]" "methods @ socks_ask t port @ rest" 2] assms(5)
  obtain w1 where w1: "inbox w1 = methods @ socks_ask t port @ rest"
    "\<And>k. exec (socks_read api c 2 k) s = exec (k [5, of_nat (length methods)]) (s\<lparr>world := w1\<rparr>)"
    by (auto simp: socks_greeting_def)
  from stream_read [OF st, of "s\<lparr>world := w1\<rparr>" methods "socks_ask t port @ rest" "length methods"] w1(1)
  obtain w2 where w2: "inbox w2 = socks_ask t port @ rest"
    "\<And>k. exec (socks_read api c (length methods) k) (s\<lparr>world := w1\<rparr>) = exec (k methods) (s\<lparr>world := w2\<rparr>)" by auto
  let ?s = "s\<lparr>world := write_conn (conns api) c [5, 0] w2\<rparr>"
  have "exec (socks api c i) s = exec (socks_request api c i) ?s"
    using assms(3) by (simp add: socks_def w1(2) unat_of_length [OF assms(2)] w2(2) exec_socks_write)
  moreover have "inbox (world ?s) = socks_ask t port @ rest" using w2(1) stream_write [OF st] by simp
  ultimately obtain w where "inbox w = rest" "exec (socks api c i) s =
    (if unat port \<in> {80, 443} then exec (socks_connect api c i (target_text t) (unat port)) (?s\<lparr>world := w\<rparr>)
     else Some (?s\<lparr>world := close_conn (conns api) c (write_conn (conns api) c (reply 2) w)\<rparr>, [], None))"
    using stream_request [OF st assms(4), of ?s port rest i] by auto
  then show ?thesis by (intro exI [of _ w]) simp
qed

text \<open>A world that is the stream itself, without its closing.\<close>

definition stream_conns :: "bytes conn_api" where
  "stream_conns = \<lparr>accept_conn = (\<lambda>l w. None),
     read_full = (\<lambda>c n w. if n \<le> length w then Some (Some (take n w), drop n w) else None),
     write_conn = (\<lambda>c bs w. w), close_conn = (\<lambda>c w. w), relay = (\<lambda>c u w. Some ((), w))\<rparr>"

lemma socks_handshake_witness:
  "\<forall>(api :: bytes phone_api) d. exec (socks (api\<lparr>conns := stream_conns\<rparr>) 0 0)
      \<lparr>dash = d, world = [5, 2, 1, 0, 5, 1, 0, 1, 93, 184, 216, 34, 0, 22, 7]\<rparr>
    = Some (\<lparr>dash = d, world = [7]\<rparr>, [], None)"
proof (intro allI)
  fix api :: "bytes phone_api" and d
  let ?api = "api\<lparr>conns := stream_conns\<rparr>"
  let ?s = "\<lparr>dash = d, world = [5, 2, 1, 0, 5, 1, 0, 1, 93, 184, 216, 34, 0, 22, 7]\<rparr>"
  have st: "byte_stream (conns ?api) 0 (\<lambda>w. w)" by (simp add: byte_stream_def stream_conns_def)
  have p: "put_u16 22 = [0, 22]" by (simp add: put_u16_def)
  have "(world ?s) = socks_greeting [1, 0] @ socks_ask (Ip4 [93, 184, 216, 34]) 22 @ [7]"
    by (simp add: socks_greeting_def p)
  from socks_handshake [OF st _ _ _ this, of 0]
  show "exec (socks ?api 0 0) ?s = Some (\<lparr>dash = d, world = [7]\<rparr>, [], None)" by (simp add: stream_conns_def)
qed

text \<open>C38. The SOCKS proxy connects to what it was asked for.  For every host without brackets (a name or an
address) and a web port, the UE's own name server is asked for exactly that host.  If all its answers
are public addresses and one of them accepts, the first that does, on exactly that port, is relayed
to the client after the success reply and the event ``Chromium via UE'', and the client's connection
is closed when the relay ends.  If the look-up fails, yields nothing or a non-public address, or
every address refuses, the client gets reply 4, its connection is closed and nothing else changes.\<close>

theorem socks_connects:
  assumes "plain_host host" and "port = 80 \<or> port = 443" and "source = p_internet_ip (d_phones (dash s) ! i)"
    and "lookup_netip (net api) (ue_resolver (net api) source) ''ip4'' host (world s) = (answer, w1)"
  shows "(answer = Inr (tried @ ip # rest) \<and> list_all public_ip (tried @ ip # rest)
      \<and> refused (net api) (ue_dialer (net api) source) (itoa port) tried w1 w2
      \<and> dial_tcp (net api) (ue_dialer (net api) source) ''tcp4'' (ip, itoa port) w2 = (Inr u, w3)
      \<longrightarrow> exec (socks_connect api c i host port) s =
        (case now api (write_conn (conns api) c (reply 0) w3) of (t, w4) \<Rightarrow>
          map_option (\<lambda>(_, w5). (s\<lparr>world := close_conn (conns api) c w5,
              dash := log_event \<lparr>e_at = t, e_phone = p_id (d_phones (dash s) ! i),
                e_text = ''Chromium via UE '' @ source @ '': '' @ host\<rparr> (dash s)\<rparr>, [], None))
            (relay (conns api) c u w4)))
    \<and> ((case answer of
          Inl e \<Rightarrow> w2 = w1
        | Inr ips \<Rightarrow> (if list_all public_ip ips
            then refused (net api) (ue_dialer (net api) source) (itoa port) ips w1 w2 else w2 = w1))
      \<longrightarrow> exec (socks_connect api c i host port) s =
        Some (s\<lparr>world := close_conn (conns api) c (write_conn (conns api) c (reply 4) w2)\<rparr>, [], None))"
proof -
  have "net_split_host_port (join_host_port host (itoa port)) = Some (host, itoa port)"
    using assms(1,2) by (intro host_port_roundtrip) (auto simp: itoa_ports plain_host_def)
  note dial = accepted_context [OF this assms(4)] refused_context [OF this assms(4)]
  show ?thesis
    unfolding exec_socks_connect assms(3) [symmetric]
    by (intro conjI impI) (use dial in \<open>fastforce split: option.split prod.split\<close>)+
qed

text \<open>A name with two addresses, the first of which refuses.\<close>

definition two_homes :: "nat phone_api" where
  "two_homes = lab_api\<lparr>net := lab_net\<lparr>
     lookup_netip := (\<lambda>r n h w. (if h = ''lab.example'' then Inr [IPv4 (ipv4 9 9 9 9), IPv4 (ipv4 8 8 8 8)] else Inl ''no such host'', w)),
     dial_tcp := (\<lambda>d n a w. if a = (IPv4 (ipv4 8 8 8 8), ''443'') then (Inr 5, w) else (Inl ''refused'', Suc w))\<rparr>\<rparr>"

lemma socks_connects_witness:
  "exec (socks_connect two_homes 0 0 ''lab.example'' 443) \<lparr>dash = lab_dash, world = 3\<rparr>
    = Some (\<lparr>dash = log_event \<lparr>e_at = 4, e_phone = p_id (d_phones lab_dash ! 0),
        e_text = ''Chromium via UE '' @ p_internet_ip (d_phones lab_dash ! 0) @ '': lab.example''\<rparr> lab_dash, world = 5\<rparr>, [], None)"
proof -
  let ?s = "\<lparr>dash = lab_dash, world = 3 :: nat\<rparr>" and ?ip = "p_internet_ip (d_phones lab_dash ! 0)"
  have pub: "public_ip (IPv4 (ipv4 9 9 9 9))" "public_ip (IPv4 (ipv4 8 8 8 8))"
    by (simp_all add: public_ipv4_ranges refused_ranges_def ipv4_def)
  have two: "net two_homes = lab_net\<lparr>
     lookup_netip := (\<lambda>r n h w. (if h = ''lab.example'' then Inr [IPv4 (ipv4 9 9 9 9), IPv4 (ipv4 8 8 8 8)] else Inl ''no such host'', w)),
     dial_tcp := (\<lambda>d n a w. if a = (IPv4 (ipv4 8 8 8 8), ''443'') then (Inr 5, w) else (Inl ''refused'', Suc w))\<rparr>"
    "now two_homes = (\<lambda>w. (int w, Suc w))" "conns two_homes = lab_conns"
    by (simp_all add: two_homes_def lab_api_def)
  have h: "plain_host ''lab.example''" by (simp add: plain_host_def)
  have l: "lookup_netip (net two_homes) (ue_resolver (net two_homes) ?ip) ''ip4'' ''lab.example'' (world ?s)
      = (Inr ([IPv4 (ipv4 9 9 9 9)] @ IPv4 (ipv4 8 8 8 8) # []), 3)" by (simp add: two)
  have ne: "ipv4 9 9 9 9 \<noteq> ipv4 8 8 8 8" by (simp add: ipv4_def)
  have r: "refused (net two_homes) (ue_dialer (net two_homes) ?ip) (itoa 443) [IPv4 (ipv4 9 9 9 9)] 3 4"
    "dial_tcp (net two_homes) (ue_dialer (net two_homes) ?ip) ''tcp4'' (IPv4 (ipv4 8 8 8 8), itoa 443) 4 = (Inr 5, 4)"
    using ne by (simp_all add: two itoa_ports)
  have "exec (socks_connect two_homes 0 0 ''lab.example'' 443) ?s =
      (case now two_homes (write_conn (conns two_homes) 0 (reply 0) 4) of (t, w4) \<Rightarrow>
        map_option (\<lambda>(_, w5). (?s\<lparr>world := close_conn (conns two_homes) 0 w5,
            dash := log_event \<lparr>e_at = t, e_phone = p_id (d_phones (dash ?s) ! 0),
              e_text = ''Chromium via UE '' @ ?ip @ '': '' @ ''lab.example''\<rparr> (dash ?s)\<rparr>, [], None))
          (relay (conns two_homes) 0 5 w4))"
    by (rule socks_connects [OF h _ _ l, THEN conjunct1, rule_format, OF _ _ conjI [OF refl conjI [OF _ conjI [OF r]]]])
      (simp_all add: pub)
  then show ?thesis by (simp add: two lab_conns_def)
qed

text \<open>C39. The synthetic voice packet is well formed and its counters wrap: for every sequence number and
timestamp it has 32 bytes, version 2, payload type 116, source 1, and a receiver reads back the
two numbers; the counters of packet \<open>n\<close> are \<open>n\<close> and \<open>320 n\<close> modulo their widths.\<close>

theorem rtp_stream:
  "length (rtp_packet seq stamp) = 32 \<and> rtp_version (rtp_packet seq stamp) = 2
   \<and> rtp_payload_type (rtp_packet seq stamp) = 116 \<and> rtp_ssrc (rtp_packet seq stamp) = 1
   \<and> rtp_sequence (rtp_packet seq stamp) = unat seq \<and> rtp_timestamp (rtp_packet seq stamp) = unat stamp
   \<and> (next_packet ^^ n) (0, 0) = (word_of_nat n, word_of_nat (320 * n))"
  by (simp add: rtp_packet_fields next_packet_counters)

text \<open>C40. The number check accepts exactly a plus sign followed by 2 to 15 decimal digits, although it ranges
over the characters of arbitrary, possibly ill-formed, UTF-8.\<close>

theorem phone_numbers_exact:
  "valid_phone_number s \<longleftrightarrow>
    (\<exists>ds. s = ''+'' @ ds \<and> length ds \<in> {2..15} \<and> list_all (\<lambda>c. in_range 48 57 (of_char c)) ds)"
  unfolding valid_phone_number_digits by auto

text \<open>C4. What the browser can reach: whatever bytes a client of the SOCKS proxy sends and whatever the name
server answers, everything the proxy connects to is a public address on port 80 or 443, from the
phone's own internet address; nothing else is dialled.\<close>

theorem socks_reaches_web_only:
  assumes "net api = watch_dials n" and "log_free api" and "exec (socks api c i) s = Some (s', ts, r)"
  shows "\<exists>es. snd (world s') = snd (world s) @ es
    \<and> list_all (web_dial n (p_internet_ip (d_phones (dash s) ! i))) es"
  by (rule web_onlyE [OF web_only_socks [OF assms(1,2)] assms(3)])

definition recorded_conns :: "(bytes \<times> net_event list) conn_api" where
  "recorded_conns = \<lparr>accept_conn = (\<lambda>l w. None),
     read_full = (\<lambda>c n (w, l). if n \<le> length w then Some (Some (take n w), (drop n w, l)) else None),
     write_conn = (\<lambda>c bs w. w), close_conn = (\<lambda>c w. w), relay = (\<lambda>c u w. Some ((), w))\<rparr>"

definition stream_net :: "bytes net_api" where
  "stream_net = \<lparr>parse_ip = (\<lambda>s. None), lookup_netip = (\<lambda>r net h w. (Inr [IPv4 (ipv4 93 184 216 34)], w)),
     dial_tcp = (\<lambda>d net a w. (Inr 0, w)), round_trip = (\<lambda>dial u w. (Inl [], w))\<rparr>"

lemma socks_reaches_web_only_witness:
  "\<forall>(api :: (bytes \<times> net_event list) phone_api) d. \<exists>s' ts r.
     exec (socks (api\<lparr>conns := recorded_conns, net := watch_dials stream_net, now := (\<lambda>w. (0, w))\<rparr>) 0 0)
       \<lparr>dash = d, world = ([5, 1, 0, 5, 1, 0, 1, 93, 184, 216, 34, 0, 80], [])\<rparr> = Some (s', ts, r)
     \<and> list_all (web_dial stream_net (p_internet_ip (d_phones d ! 0))) (snd (world s'))"
proof (intro allI)
  fix api :: "(bytes \<times> net_event list) phone_api" and d
  let ?api = "api\<lparr>conns := recorded_conns, net := watch_dials stream_net, now := (\<lambda>w. (0, w))\<rparr>"
  let ?s = "\<lparr>dash = d, world = ([5, 1, 0, 5, 1, 0, 1, 93, 184, 216, 34, 0, 80], [])\<rparr>"
  have n: "net ?api = watch_dials stream_net" by simp
  have l: "log_free ?api" by (auto simp: log_free_def recorded_conns_def split: if_splits)
  have "exec (socks ?api 0 0) ?s \<noteq> None"
    by (simp add: socks_def socks_request_def socks_host_def socks_read_def socks_connect_def exec_socks_write
        exec_close_socks run_simps recorded_conns_def del: not_None_eq split: prod.split sum.split)
  then obtain s' ts r where e: "exec (socks ?api 0 0) ?s = Some (s', ts, r)" by (metis not_None_eq surj_pair)
  from socks_reaches_web_only [OF n l e] e
  show "\<exists>s' ts r. exec (socks ?api 0 0) ?s = Some (s', ts, r)
      \<and> list_all (web_dial stream_net (p_internet_ip (d_phones d ! 0))) (snd (world s'))" by auto
qed

end
