(* ===== verification/Http_Proxy.thy ===== *)
theory Http_Proxy
  imports Go_Http
begin

text \<open>
  The HTTP proxy that sends its traffic through the tunnel interface of a UE
  (\<^verbatim>\<open>images/5g-ue-http-proxy/main.go\<close>): its settings, the wait for the interface, the sockets
  bound to it, the handling of headers, and the two kinds of request.  The network, the
  response writer's connection and the transports' exchanges are a parameter, \<open>proxy_api\<close>,
  over a world of arbitrary type.  Log lines are not modelled.
\<close>

section \<open>Sockets, dialers and transports\<close>

type_synonym 'w connect = "string \<Rightarrow> string \<Rightarrow> 'w \<Rightarrow> (string + nat) \<times> 'w"

type_synonym 'w control = "nat \<Rightarrow> 'w \<Rightarrow> string option \<times> 'w"

record 'w name_resolver =
  nr_prefer_go :: bool
  nr_dial :: "'w connect"

text \<open>\<open>net.Dialer\<close>; times are in seconds, and \<open>Control\<close> is run on every socket it makes.\<close>

record 'w socket_dialer =
  sd_timeout :: nat
  sd_keep_alive :: nat
  sd_resolver :: "'w name_resolver option"
  sd_control :: "'w control"

text \<open>\<open>http.Transport\<close>: \<open>ht_pool\<close> is the identity of its pool of idle connections.\<close>

record 'w http_transport =
  ht_pool :: nat
  ht_uses_proxy :: bool
  ht_dial :: "'w connect"
  ht_force_http2 :: bool
  ht_disable_keep_alives :: bool
  ht_max_idle :: int
  ht_max_idle_per_host :: int
  ht_idle_timeout :: nat
  ht_tls_timeout :: nat
  ht_expect_timeout :: nat

record 'w proxy =
  px_iface :: string
  px_dialer :: "'w socket_dialer"
  px_transport :: "'w http_transport"

section \<open>Requests and responses\<close>

text \<open>Bodies are readers, known by a number.\<close>

record proxy_request =
  pq_method :: string
  pq_url :: url
  pq_host :: string
  pq_uri :: string
  pq_header :: header
  pq_body :: nat
  pq_close :: bool

record upstream_response =
  ur_status :: nat
  ur_header :: header
  ur_body :: nat

text \<open>The response writer: what has been sent of the answer, and whether it can be hijacked.\<close>

record client_writer =
  cw_header :: header
  cw_code :: "nat option"
  cw_body :: string
  cw_hijacks :: bool

text \<open>
  The outside.  \<open>raw_control\<close> yields the descriptor of a raw connection or the reason why
  its callback was not run; \<open>hijack\<close> yields the client connection and the bytes that were
  read ahead; \<open>range_keys\<close> is the order in which a \<open>range\<close> loop meets the keys of a map;
  \<open>read_body\<close> yields a chunk, or \<open>None\<close> at the end or at an error.
\<close>

record 'w proxy_api =
  glob_paths :: "string \<Rightarrow> 'w \<Rightarrow> string list \<times> 'w"
  interface_by_name :: "string \<Rightarrow> 'w \<Rightarrow> nat option \<times> 'w"
  interface_addrs :: "nat \<Rightarrow> 'w \<Rightarrow> nat option \<times> 'w"
  sleep_second :: "'w \<Rightarrow> 'w"
  raw_control :: "nat \<Rightarrow> 'w \<Rightarrow> (string + nat) \<times> 'w"
  setsockopt_string :: "nat \<Rightarrow> nat \<Rightarrow> nat \<Rightarrow> string \<Rightarrow> 'w \<Rightarrow> string option \<times> 'w"
  dialer_dial :: "'w socket_dialer \<Rightarrow> 'w connect"
  new_pool :: "'w \<Rightarrow> nat \<times> 'w"
  transport_round_trip :: "'w http_transport \<Rightarrow> proxy_request \<Rightarrow> 'w \<Rightarrow> (string + upstream_response) \<times> 'w"
  close_idle :: "'w http_transport \<Rightarrow> 'w \<Rightarrow> 'w"
  range_keys :: "header \<Rightarrow> 'w \<Rightarrow> string list \<times> 'w"
  read_body :: "nat \<Rightarrow> 'w \<Rightarrow> string option \<times> 'w"
  close_body :: "nat \<Rightarrow> 'w \<Rightarrow> 'w"
  write_client :: "string \<Rightarrow> 'w \<Rightarrow> bool \<times> 'w"
  hijack :: "'w \<Rightarrow> (string + nat \<times> string) \<times> 'w"
  conn_write :: "nat \<Rightarrow> string \<Rightarrow> 'w \<Rightarrow> 'w"
  conn_close :: "nat \<Rightarrow> 'w \<Rightarrow> 'w"

section \<open>Settings\<close>

definition proxy_env :: "(string \<Rightarrow> string) \<Rightarrow> string \<Rightarrow> string \<Rightarrow> string" where
  "proxy_env getenv name fallback =
    (let value = trim_space (getenv name) in if value \<noteq> [] then value else fallback)"

section \<open>Waiting for the interface\<close>

text \<open>\<open>filepath.Join\<close> below the rooted directory, with its lexical cleaning, and \<open>filepath.Base\<close>.\<close>

fun clean_parts :: "string list \<Rightarrow> string list \<Rightarrow> string list" where
  "clean_parts acc [] = rev acc"
| "clean_parts acc (p # ps) =
    clean_parts (if p = [] \<or> p = ''.'' then acc else if p = ''..'' then tl acc else p # acc) ps"

definition join_below :: "string \<Rightarrow> string \<Rightarrow> string" where
  "join_below dir name = ''/'' @ join ''/'' (clean_parts [] (split_on (CHR ''/'') (dir @ ''/'' @ name)))"

definition path_base :: "string \<Rightarrow> string" where
  "path_base p =
    (let q = rev (dropWhile (\<lambda>c. c = CHR ''/'') (rev p)) in
     if p = [] then ''.'' else if q = [] then ''/'' else rev (takeWhile (\<lambda>c. c \<noteq> CHR ''/'') (rev q)))"

fun scan_matches :: "'w proxy_api \<Rightarrow> string list \<Rightarrow> 'w \<Rightarrow> string option \<times> 'w" where
  "scan_matches api [] w = (None, w)"
| "scan_matches api (m # ms) w =
    (case interface_by_name api (path_base m) w of
       (None, w1) \<Rightarrow> scan_matches api ms w1
     | (Some i, w1) \<Rightarrow>
         (case interface_addrs api i w1 of
            (Some n, w2) \<Rightarrow> if 0 < n then (Some (path_base m), w2) else scan_matches api ms w2
          | (None, w2) \<Rightarrow> scan_matches api ms w2))"

text \<open>One pass of the loop; without a hit it ends with the pause.\<close>

definition wait_round :: "'w proxy_api \<Rightarrow> string \<Rightarrow> 'w \<Rightarrow> string option \<times> 'w" where
  "wait_round api pattern w =
    (case glob_paths api (join_below ''/sys/class/net'' pattern) w of (matches, w1) \<Rightarrow>
       (case scan_matches api matches w1 of
          (Some name, w2) \<Rightarrow> (Some name, w2)
        | (None, w2) \<Rightarrow> (None, sleep_second api w2)))"

partial_function (option) wait_for_interface ::
  "'w proxy_api \<Rightarrow> string \<Rightarrow> 'w \<Rightarrow> (string \<times> 'w) option" where
  "wait_for_interface api pattern w =
    (case wait_round api pattern w of
       (Some name, w1) \<Rightarrow> Some (name, w1)
     | (None, w1) \<Rightarrow> wait_for_interface api pattern w1)"

section \<open>The proxy and its sockets\<close>

definition sol_socket :: nat where "sol_socket = 1"

definition bind_to_device :: nat where "bind_to_device = 25"

definition socket_control :: "'w proxy_api \<Rightarrow> string \<Rightarrow> 'w control" where
  "socket_control api iface raw w =
    (case raw_control api raw w of
       (Inl e, w1) \<Rightarrow> (Some e, w1)
     | (Inr fd, w1) \<Rightarrow> setsockopt_string api fd sol_socket bind_to_device iface w1)"

definition dns_dialer :: "'w proxy_api \<Rightarrow> string \<Rightarrow> 'w socket_dialer" where
  "dns_dialer api iface = \<lparr>sd_timeout = 5, sd_keep_alive = 0, sd_resolver = None,
     sd_control = socket_control api iface\<rparr>"

definition tunnel_dialer :: "'w proxy_api \<Rightarrow> string \<Rightarrow> string \<Rightarrow> 'w socket_dialer" where
  "tunnel_dialer api iface dns = \<lparr>sd_timeout = 20, sd_keep_alive = 30,
     sd_resolver = Some \<lparr>nr_prefer_go = True,
       nr_dial = (\<lambda>network address. dialer_dial api (dns_dialer api iface) ''udp'' dns)\<rparr>,
     sd_control = socket_control api iface\<rparr>"

definition new_proxy :: "'w proxy_api \<Rightarrow> string \<Rightarrow> string \<Rightarrow> 'w \<Rightarrow> 'w proxy \<times> 'w" where
  "new_proxy api iface dns w =
    (case new_pool api w of (pool, w1) \<Rightarrow>
      (\<lparr>px_iface = iface, px_dialer = tunnel_dialer api iface dns,
        px_transport = \<lparr>ht_pool = pool, ht_uses_proxy = False,
          ht_dial = dialer_dial api (tunnel_dialer api iface dns), ht_force_http2 = False,
          ht_disable_keep_alives = False, ht_max_idle = 100, ht_max_idle_per_host = 0,
          ht_idle_timeout = 90, ht_tls_timeout = 15, ht_expect_timeout = 1\<rparr>\<rparr>, w1))"

text \<open>A clone is another transport, with a pool of its own.\<close>

definition request_transport ::
  "'w proxy_api \<Rightarrow> 'w proxy \<Rightarrow> string \<Rightarrow> 'w \<Rightarrow> ('w http_transport \<times> bool) \<times> 'w" where
  "request_transport api x verb w =
    (if verb \<notin> {''POST'', ''PUT'', ''PATCH''} then ((px_transport x, False), w)
     else (case new_pool api w of (pool, w1) \<Rightarrow>
       (((px_transport x)\<lparr>ht_pool := pool, ht_disable_keep_alives := True, ht_max_idle := 0,
            ht_max_idle_per_host := -1\<rparr>, True), w1)))"

section \<open>Headers\<close>

definition hop_headers :: "string list" where
  "hop_headers = [''Connection'', ''Proxy-Connection'', ''Keep-Alive'', ''Proxy-Authenticate'',
     ''Proxy-Authorization'', ''TE'', ''Trailer'', ''Transfer-Encoding'', ''Upgrade'']"

definition remove_hop_headers :: "header \<Rightarrow> header" where
  "remove_hop_headers h = foldl header_del h hop_headers"

text \<open>\<open>keys\<close> is the order in which the loop meets the keys of the source.\<close>

definition copy_values :: "header \<Rightarrow> header \<Rightarrow> string \<Rightarrow> header" where
  "copy_values source dest name = (case source name of
     None \<Rightarrow> dest | Some values \<Rightarrow> foldl (\<lambda>h v. header_add h name v) dest values)"

definition copy_headers :: "string list \<Rightarrow> header \<Rightarrow> header \<Rightarrow> header" where
  "copy_headers keys dest source = foldl (copy_values source) dest keys"

section \<open>The response writer\<close>

text \<open>
  \<open>WriteHeader\<close>: a status outside the three-digit range panics; an informational one is sent
  at once and does not count; of the others the first counts.
\<close>

definition write_header :: "nat \<Rightarrow> client_writer \<Rightarrow> string + client_writer" where
  "write_header code wr =
    (if code < 100 \<or> 999 < code then Inl ''invalid WriteHeader code''
     else if code < 200 \<and> code \<noteq> 101 then Inr wr
     else Inr (wr\<lparr>cw_code := (case cw_code wr of None \<Rightarrow> Some code | Some c \<Rightarrow> Some c)\<rparr>))"

definition write_body :: "string \<Rightarrow> client_writer \<Rightarrow> client_writer" where
  "write_body chunk wr = wr\<lparr>cw_code := (case cw_code wr of None \<Rightarrow> Some 200 | Some c \<Rightarrow> Some c),
     cw_body := cw_body wr @ chunk\<rparr>"

text \<open>\<open>http.Error\<close>; the statuses used here are valid.\<close>

definition write_error :: "string \<Rightarrow> nat \<Rightarrow> client_writer \<Rightarrow> client_writer" where
  "write_error msg code wr =
    write_body (msg @ [CHR 0x0A]) (wr\<lparr>
      cw_header := header_set (header_set (header_del (cw_header wr) ''Content-Length'')
        ''Content-Type'' ''text/plain; charset=utf-8'') ''X-Content-Type-Options'' ''nosniff'',
      cw_code := (case cw_code wr of None \<Rightarrow> Some code | Some c \<Rightarrow> Some c)\<rparr>)"

section \<open>Tunnels\<close>

definition connect_target :: "string \<Rightarrow> string" where
  "connect_target host = (if contains host '':'' then host else host @ '':443'')"

definition established :: string where
  "established = ''HTTP/1.1 200 Connection Established'' @ [CHR 0x0D, CHR 0x0A, CHR 0x0D, CHR 0x0A]"

text \<open>The result names the upstream and the client connection that the two relays join.\<close>

definition connect_request ::
  "'w proxy_api \<Rightarrow> 'w proxy \<Rightarrow> client_writer \<Rightarrow> proxy_request \<Rightarrow> 'w \<Rightarrow> (client_writer \<times> (nat \<times> nat) option) \<times> 'w" where
  "connect_request api x wr q w =
    (case dialer_dial api (px_dialer x) ''tcp'' (connect_target (pq_host q)) w of
       (Inl e, w1) \<Rightarrow> ((write_error ''UE tunnel connection failed'' 502 wr, None), w1)
     | (Inr upstream, w1) \<Rightarrow>
         if \<not> cw_hijacks wr
         then ((write_error ''connection hijacking unsupported'' 500 wr, None), conn_close api upstream w1)
         else (case hijack api w1 of
            (Inl e, w2) \<Rightarrow> ((wr, None), conn_close api upstream w2)
          | (Inr (client, buffered), w2) \<Rightarrow>
              ((wr, Some (upstream, client)), conn_write api client established w2)))"

section \<open>Forwarding\<close>

definition outbound_request :: "proxy_request \<Rightarrow> proxy_request" where
  "outbound_request q =
    (let u = pq_url q;
         u1 = (if u_scheme u = [] then u\<lparr>u_scheme := ''http''\<rparr> else u);
         u2 = (if u_host u1 = [] then u1\<lparr>u_host := pq_host q\<rparr> else u1) in
     q\<lparr>pq_uri := [], pq_url := u2, pq_header := remove_hop_headers (pq_header q)\<rparr>)"

text \<open>\<open>io.Copy\<close> into the writer: it ends with the body, or when the client is gone.\<close>

partial_function (option) copy_body ::
  "'w proxy_api \<Rightarrow> nat \<Rightarrow> client_writer \<Rightarrow> 'w \<Rightarrow> (client_writer \<times> 'w) option" where
  "copy_body api b wr w =
    (case read_body api b w of
       (None, w1) \<Rightarrow> Some (wr, w1)
     | (Some chunk, w1) \<Rightarrow>
         (case write_client api chunk w1 of
            (ok, w2) \<Rightarrow> if ok then copy_body api b (write_body chunk wr) w2 else Some (wr, w2)))"

text \<open>The deferred call of a dedicated transport.\<close>

definition tidy_up :: "'w proxy_api \<Rightarrow> 'w http_transport \<times> bool \<Rightarrow> 'w \<Rightarrow> 'w" where
  "tidy_up api td w = (if snd td then close_idle api (fst td) w else w)"

text \<open>\<open>None\<close>: the handler never returns; \<open>Inl\<close>: it panics, after its deferred calls.\<close>

definition answer_forward ::
  "'w proxy_api \<Rightarrow> client_writer \<Rightarrow> upstream_response \<Rightarrow> 'w \<Rightarrow> ((string + client_writer) \<times> 'w) option" where
  "answer_forward api wr resp w =
    (let h = remove_hop_headers (ur_header resp) in
     case range_keys api h w of (keys, w1) \<Rightarrow>
       (case write_header (ur_status resp) (wr\<lparr>cw_header := copy_headers keys (cw_header wr) h\<rparr>) of
          Inl e \<Rightarrow> Some (Inl e, close_body api (ur_body resp) w1)
        | Inr wr1 \<Rightarrow>
            (case copy_body api (ur_body resp) wr1 w1 of
               None \<Rightarrow> None
             | Some (wr2, w2) \<Rightarrow> Some (Inr wr2, close_body api (ur_body resp) w2))))"

definition forward_request ::
  "'w proxy_api \<Rightarrow> 'w proxy \<Rightarrow> client_writer \<Rightarrow> proxy_request \<Rightarrow> 'w \<Rightarrow> ((string + client_writer) \<times> 'w) option" where
  "forward_request api x wr q w =
    (case request_transport api x (pq_method q) w of (td, w1) \<Rightarrow>
       (case transport_round_trip api (fst td) ((outbound_request q)\<lparr>pq_close := pq_close q \<or> snd td\<rparr>) w1 of
          (Inl e, w2) \<Rightarrow> Some (Inr (write_error ''UE tunnel request failed'' 502 wr), tidy_up api td w2)
        | (Inr resp, w2) \<Rightarrow>
            map_option (map_prod id (tidy_up api td)) (answer_forward api wr resp w2)))"

section \<open>The handler\<close>

definition health_reply :: "client_writer \<Rightarrow> client_writer" where
  "health_reply wr = write_body (''ok'' @ [CHR 0x0A]) (wr\<lparr>
     cw_header := header_set (cw_header wr) ''Content-Type'' ''text/plain'',
     cw_code := (case cw_code wr of None \<Rightarrow> Some 200 | Some c \<Rightarrow> Some c)\<rparr>)"

definition serve_http ::
  "'w proxy_api \<Rightarrow> 'w proxy \<Rightarrow> client_writer \<Rightarrow> proxy_request \<Rightarrow> 'w
     \<Rightarrow> ((string + client_writer \<times> (nat \<times> nat) option) \<times> 'w) option" where
  "serve_http api x wr q w =
    (if pq_method q \<noteq> ''CONNECT'' \<and> u_path (pq_url q) = ''/healthz'' \<and> u_host (pq_url q) = []
     then Some (Inr (health_reply wr, None), w)
     else if pq_method q = ''CONNECT''
     then Some (map_prod Inr id (connect_request api x wr q w))
     else map_option (map_prod (map_sum id (\<lambda>wr. (wr, None))) id) (forward_request api x wr q w))"

section \<open>Start\<close>

record 'w proxy_server =
  ps_address :: string
  ps_handler :: "'w proxy"
  ps_read_header_timeout :: nat
  ps_idle_timeout :: nat

definition proxy_main ::
  "'w proxy_api \<Rightarrow> (string \<Rightarrow> string) \<Rightarrow> 'w \<Rightarrow> ('w proxy_server \<times> 'w) option" where
  "proxy_main api getenv w =
    (let address = proxy_env getenv ''LISTEN_ADDRESS'' ''0.0.0.0:8118'';
         pattern = proxy_env getenv ''UE_INTERFACE_PATTERN'' ''uesimtun*'';
         dns = proxy_env getenv ''DNS_SERVER'' ''1.1.1.1:53'' in
     case wait_for_interface api pattern w of
       None \<Rightarrow> None
     | Some (iface, w1) \<Rightarrow>
         (case new_proxy api iface dns w1 of (x, w2) \<Rightarrow>
           Some (\<lparr>ps_address = address, ps_handler = x, ps_read_header_timeout = 10, ps_idle_timeout = 90\<rparr>, w2)))"

end
