(* ===== verification/Proxy_Props.thy ===== *)
theory Proxy_Props
  imports Http_Proxy
begin

text \<open>
  What the HTTP proxy guarantees: which headers cross it, what it answers and in whose name
  it asks, that uploads never share a connection, when its start-up ends, and that nothing
  it sends leaves by another interface than the UE's.
\<close>

section \<open>Headers\<close>

text \<open>The keys under which the hop-by-hop fields are stored.\<close>

definition hop_keys :: "string list" where
  "hop_keys = [''Connection'', ''Proxy-Connection'', ''Keep-Alive'', ''Proxy-Authenticate'',
     ''Proxy-Authorization'', ''Te'', ''Trailer'', ''Transfer-Encoding'', ''Upgrade'']"

lemma hop_keys_canonical: "map canonical_key hop_headers = hop_keys"
  by code_simp

lemma foldl_header_del: "foldl header_del h names k = (if k \<in> canonical_key ` set names then None else h k)"
  by (induction names arbitrary: h) (auto simp: header_del_def)

lemma remove_hop_headers_apply: "remove_hop_headers h k = (if k \<in> set hop_keys then None else h k)"
  by (simp add: remove_hop_headers_def foldl_header_del flip: hop_keys_canonical)

text \<open>The values of a key after a merge: those of the destination, then those of the source.\<close>

definition merged_values :: "string list option \<Rightarrow> string list option \<Rightarrow> string list option" where
  "merged_values old new = (case new of
     None \<Rightarrow> old
   | Some [] \<Rightarrow> old
   | Some (v # vs) \<Rightarrow> Some ((case old of None \<Rightarrow> [] | Some us \<Rightarrow> us) @ v # vs))"

lemma header_adds:
  assumes "canonical_key name = name"
  shows "foldl (\<lambda>h v. header_add h name v) h vs = (if vs = [] then h else h(name := merged_values (h name) (Some vs)))"
  using assms
  by (induction vs arbitrary: h) (auto simp: header_add_def merged_values_def fun_eq_iff split: option.splits list.splits)

lemma copy_values_apply:
  assumes "canonical_key name = name"
  shows "copy_values source dest name k = (if k = name then merged_values (dest k) (source k) else dest k)"
  using assms by (auto simp: copy_values_def header_adds merged_values_def split: option.splits list.splits)

lemma copy_headers_apply:
  assumes "distinct keys" and "\<forall>k \<in> set keys. canonical_key k = k"
  shows "copy_headers keys dest source k = (if k \<in> set keys then merged_values (dest k) (source k) else dest k)"
  using assms
proof (induction keys arbitrary: dest)
  case (Cons a keys)
  then show ?case using copy_values_apply [of a source dest] by (auto simp: copy_headers_def)
qed (simp add: copy_headers_def)

text \<open>An order of a \<open>range\<close> loop: every key of the map once.\<close>

definition key_order :: "string list \<Rightarrow> header \<Rightarrow> bool" where
  "key_order keys h \<longleftrightarrow> distinct keys \<and> set keys = dom h"

definition canonical_header :: "header \<Rightarrow> bool" where
  "canonical_header h \<longleftrightarrow> (\<forall>k \<in> dom h. canonical_key k = k)"

lemma copy_headers_any_order:
  assumes "key_order keys source" and "canonical_header source"
  shows "copy_headers keys dest source = (\<lambda>k. merged_values (dest k) (source k))"
proof
  fix k
  have "k \<notin> set keys \<Longrightarrow> source k = None" using assms(1) by (auto simp: key_order_def)
  then show "copy_headers keys dest source k = merged_values (dest k) (source k)"
    using assms by (auto simp: copy_headers_apply key_order_def canonical_header_def merged_values_def)
qed

lemma remove_hop_canonical: "canonical_header h \<Longrightarrow> canonical_header (remove_hop_headers h)"
  by (auto simp: canonical_header_def remove_hop_headers_apply split: if_splits)

section \<open>Copying a body\<close>

text \<open>The chunks that are read and written until the body ends or the client is gone.\<close>

inductive copies :: "'w proxy_api \<Rightarrow> nat \<Rightarrow> 'w \<Rightarrow> string list \<Rightarrow> 'w \<Rightarrow> bool" for api b where
  body_end: "read_body api b w = (None, w1) \<Longrightarrow> copies api b w [] w1"
| client_gone: "read_body api b w = (Some c, w1) \<Longrightarrow> write_client api c w1 = (False, w2) \<Longrightarrow> copies api b w [] w2"
| chunk: "read_body api b w = (Some c, w1) \<Longrightarrow> write_client api c w1 = (True, w2) \<Longrightarrow>
    copies api b w2 cs w3 \<Longrightarrow> copies api b w (c # cs) w3"

lemma copies_copy_body:
  "copies api b w cs w' \<Longrightarrow> copy_body api b wr w = Some (foldl (\<lambda>wr c. write_body c wr) wr cs, w')"
  by (induction arbitrary: wr rule: copies.induct) (simp_all add: copy_body.simps)

lemma copy_body_copies:
  assumes "copy_body api b wr w = Some (wr', w')"
  shows "\<exists>cs. copies api b w cs w' \<and> wr' = foldl (\<lambda>wr c. write_body c wr) wr cs"
proof -
  define P :: "'a proxy_api \<Rightarrow> nat \<Rightarrow> client_writer \<Rightarrow> 'a \<Rightarrow> client_writer \<times> 'a \<Rightarrow> bool" where
    "P = (\<lambda>api b wr w res. \<exists>cs. copies api b w cs (snd res) \<and> fst res = foldl (\<lambda>wr c. write_body c wr) wr cs)"
  have "P api b wr w (wr', w')"
  proof (rule copy_body.raw_induct [OF _ assms])
    fix f api b wr w res
    assume IH: "\<And>api b wr w res. f api b wr w = Some res \<Longrightarrow> P api b wr w res"
      and step: "(case read_body api b w of (None, w1) \<Rightarrow> Some (wr, w1)
        | (Some chunk, w1) \<Rightarrow> (case write_client api chunk w1 of
            (ok, w2) \<Rightarrow> if ok then f api b (write_body chunk wr) w2 else Some (wr, w2))) = Some res"
    obtain x w1 where r: "read_body api b w = (x, w1)" by force
    show "P api b wr w res"
    proof (cases x)
      case None
      with step r show ?thesis by (auto simp: P_def intro!: exI [of _ "[]"] copies.body_end)
    next
      case (Some c)
      obtain ok w2 where wc: "write_client api c w1 = (ok, w2)" by force
      show ?thesis
      proof (cases ok)
        case True
        with step r Some wc have "P api b (write_body c wr) w2 res" by (auto intro: IH)
        then obtain cs where "copies api b w2 cs (snd res)"
          "fst res = foldl (\<lambda>wr c. write_body c wr) (write_body c wr) cs" by (auto simp: P_def)
        with r Some wc True show ?thesis
          unfolding P_def by (intro exI [of _ "c # cs"]) (auto intro: copies.chunk)
      next
        case False
        with step r Some wc show ?thesis by (auto simp: P_def intro!: exI [of _ "[]"] copies.client_gone)
      qed
    qed
  qed
  then show ?thesis by (simp add: P_def)
qed

lemma foldl_write_body:
  "foldl (\<lambda>wr c. write_body c wr) wr cs = wr\<lparr>
     cw_code := (if cs = [] then cw_code wr else (case cw_code wr of None \<Rightarrow> Some 200 | Some c \<Rightarrow> Some c)),
     cw_body := cw_body wr @ concat cs\<rparr>"
  by (induction cs arbitrary: wr) (auto simp: write_body_def split: option.splits)

section \<open>Waiting for the interface\<close>

text \<open>The world after a number of passes without a hit.\<close>

primrec after_rounds :: "'w proxy_api \<Rightarrow> string \<Rightarrow> nat \<Rightarrow> 'w \<Rightarrow> 'w" where
  "after_rounds api pattern 0 w = w"
| "after_rounds api pattern (Suc k) w = after_rounds api pattern k (snd (wait_round api pattern w))"

lemma wait_after_rounds:
  assumes "\<forall>j < k. fst (wait_round api pattern (after_rounds api pattern j w)) = None"
  shows "wait_for_interface api pattern w = wait_for_interface api pattern (after_rounds api pattern k w)"
  using assms
proof (induction k arbitrary: w)
  case (Suc k)
  obtain x w1 where r: "wait_round api pattern w = (x, w1)" by force
  from Suc.prems r have "x = None" by force
  with r have "wait_for_interface api pattern w = wait_for_interface api pattern w1"
    by (simp add: wait_for_interface.simps [of api pattern w])
  moreover have "\<forall>j < k. fst (wait_round api pattern (after_rounds api pattern j w1)) = None"
    using Suc.prems r by force
  ultimately show ?case using Suc.IH [of w1] r by simp
qed simp

lemma wait_returns:
  assumes "wait_for_interface api pattern w = Some (name, w')"
  shows "\<exists>k. (\<forall>j < k. fst (wait_round api pattern (after_rounds api pattern j w)) = None)
    \<and> wait_round api pattern (after_rounds api pattern k w) = (Some name, w')"
proof -
  define P where "P = (\<lambda>api pattern w res. \<exists>k. (\<forall>j < k. fst (wait_round api pattern (after_rounds api pattern j w)) = None)
    \<and> wait_round api pattern (after_rounds api pattern k w) = (Some (fst res), snd (res :: string \<times> 'a)))"
  have "P api pattern w (name, w')"
  proof (rule wait_for_interface.raw_induct [OF _ assms])
    fix f api pattern w res
    assume IH: "\<And>api pattern w res. f api pattern w = Some res \<Longrightarrow> P api pattern w res"
      and step: "(case wait_round api pattern w of
         (None, w1) \<Rightarrow> f api pattern w1 | (Some name, w1) \<Rightarrow> Some (name, w1)) = Some res"
    obtain x w1 where r: "wait_round api pattern w = (x, w1)" by force
    show "P api pattern w res"
    proof (cases x)
      case None
      with step r have "P api pattern w1 res" by (simp add: IH)
      then obtain k where k: "\<forall>j < k. fst (wait_round api pattern (after_rounds api pattern j w1)) = None"
        "wait_round api pattern (after_rounds api pattern k w1) = (Some (fst res), snd res)" by (auto simp: P_def)
      have "fst (wait_round api pattern (after_rounds api pattern j w)) = None" if "j < Suc k" for j
        using that k(1) r None by (cases j) auto
      with k(2) r show ?thesis unfolding P_def by (intro exI [of _ "Suc k"]) simp
    next
      case (Some n)
      with step r show ?thesis unfolding P_def by (intro exI [of _ 0]) auto
    qed
  qed
  then show ?thesis by (simp add: P_def)
qed

text \<open>A match is usable if the interface exists and has an address.\<close>

definition usable :: "'w proxy_api \<Rightarrow> 'w \<Rightarrow> string \<Rightarrow> bool" where
  "usable api w m = (case interface_by_name api (path_base m) w of
     (None, _) \<Rightarrow> False
   | (Some i, _) \<Rightarrow> (case interface_addrs api i w of (Some n, _) \<Rightarrow> 0 < n | (None, _) \<Rightarrow> False))"

text \<open>Looking at an interface changes nothing.\<close>

definition passive_lookups :: "'w proxy_api \<Rightarrow> bool" where
  "passive_lookups api \<longleftrightarrow> (\<forall>name w. snd (interface_by_name api name w) = w) \<and> (\<forall>i w. snd (interface_addrs api i w) = w)"

lemma scan_matches_first:
  assumes "passive_lookups api"
  shows "scan_matches api ms w = (map_option path_base (find (usable api w) ms), w)"
proof (induction ms)
  case (Cons m ms)
  obtain x w1 where x: "interface_by_name api (path_base m) w = (x, w1)" by force
  then have w1: "w1 = w" using assms by (metis passive_lookups_def snd_conv)
  show ?case
  proof (cases x)
    case (Some i)
    obtain y w2 where y: "interface_addrs api i w = (y, w2)" by force
    then have "w2 = w" using assms by (metis passive_lookups_def snd_conv)
    with Cons x w1 Some y show ?thesis by (cases y) (simp_all add: usable_def)
  qed (use Cons x w1 in \<open>simp add: usable_def\<close>)
qed simp

section \<open>Egress\<close>

text \<open>
  What the code relies on to keep its traffic on the interface.  \<open>bound raw w\<close> says that
  the socket behind \<open>raw\<close> is bound to \<open>iface\<close>, \<open>safe w\<close> that only bound sockets have sent
  anything, \<open>literal a\<close> that the host of \<open>a\<close> is an address and needs no look-up.
\<close>

definition keeps_safe :: "('w \<Rightarrow> bool) \<Rightarrow> ('w \<Rightarrow> 'a \<times> 'w) \<Rightarrow> bool" where
  "keeps_safe safe f \<longleftrightarrow> (\<forall>w. safe w \<longrightarrow> safe (snd (f w)))"

text \<open>A control function that binds every socket for which it reports success.\<close>

definition binds :: "('w \<Rightarrow> bool) \<Rightarrow> (nat \<Rightarrow> 'w \<Rightarrow> bool) \<Rightarrow> 'w control \<Rightarrow> bool" where
  "binds safe bound ctl \<longleftrightarrow> (\<forall>raw. keeps_safe safe (ctl raw))
     \<and> (\<forall>raw w. safe w \<longrightarrow> fst (ctl raw w) = None \<longrightarrow> bound raw (snd (ctl raw w)))"

text \<open>SO\_BINDTODEVICE binds the socket, and sets nothing else in motion.\<close>

definition binding_option :: "'w proxy_api \<Rightarrow> string \<Rightarrow> ('w \<Rightarrow> bool) \<Rightarrow> (nat \<Rightarrow> 'w \<Rightarrow> bool) \<Rightarrow> bool" where
  "binding_option api iface safe bound \<longleftrightarrow>
     (\<forall>raw. keeps_safe safe (raw_control api raw))
   \<and> (\<forall>fd. keeps_safe safe (setsockopt_string api fd 1 25 iface))
   \<and> (\<forall>raw w fd w1 w2. safe w \<longrightarrow> raw_control api raw w = (Inr fd, w1)
        \<longrightarrow> setsockopt_string api fd 1 25 iface w1 = (None, w2) \<longrightarrow> bound raw w2)"

text \<open>
  A dialer runs its control function on each socket before it connects it, and gives the
  socket up if that fails; names are resolved over connections of its resolver's dial
  function, and an address needs no resolver.
\<close>

definition controlled_dialers ::
  "'w proxy_api \<Rightarrow> (string \<Rightarrow> bool) \<Rightarrow> ('w \<Rightarrow> bool) \<Rightarrow> (nat \<Rightarrow> 'w \<Rightarrow> bool) \<Rightarrow> bool" where
  "controlled_dialers api literal safe bound \<longleftrightarrow> (\<forall>d network address.
     binds safe bound (sd_control d) \<longrightarrow>
     (case sd_resolver d of
        None \<Rightarrow> literal address
      | Some v \<Rightarrow> nr_prefer_go v \<and> (\<forall>n a. keeps_safe safe (nr_dial v n a))) \<longrightarrow>
     keeps_safe safe (dialer_dial api d network address))"

text \<open>A transport without a proxy of its own connects with its dial function only.\<close>

definition dialing_transports :: "'w proxy_api \<Rightarrow> ('w \<Rightarrow> bool) \<Rightarrow> bool" where
  "dialing_transports api safe \<longleftrightarrow> (\<forall>t q. \<not> ht_uses_proxy t \<longrightarrow> (\<forall>n a. keeps_safe safe (ht_dial t n a)) \<longrightarrow>
     keeps_safe safe (transport_round_trip api t q))"

text \<open>The other operations open no connection.\<close>

definition quiet_rest :: "'w proxy_api \<Rightarrow> ('w \<Rightarrow> bool) \<Rightarrow> bool" where
  "quiet_rest api safe \<longleftrightarrow> keeps_safe safe (new_pool api) \<and> keeps_safe safe (hijack api)
   \<and> (\<forall>h. keeps_safe safe (range_keys api h)) \<and> (\<forall>b. keeps_safe safe (read_body api b))
   \<and> (\<forall>c. keeps_safe safe (write_client api c)) \<and> (\<forall>t w. safe w \<longrightarrow> safe (close_idle api t w))
   \<and> (\<forall>b w. safe w \<longrightarrow> safe (close_body api b w)) \<and> (\<forall>c w. safe w \<longrightarrow> safe (conn_close api c w))
   \<and> (\<forall>c s w. safe w \<longrightarrow> safe (conn_write api c s w))"

definition confining_network ::
  "'w proxy_api \<Rightarrow> string \<Rightarrow> (string \<Rightarrow> bool) \<Rightarrow> ('w \<Rightarrow> bool) \<Rightarrow> (nat \<Rightarrow> 'w \<Rightarrow> bool) \<Rightarrow> bool" where
  "confining_network api iface literal safe bound \<longleftrightarrow> binding_option api iface safe bound
     \<and> controlled_dialers api literal safe bound \<and> dialing_transports api safe \<and> quiet_rest api safe"

lemma keeps_safeD: "keeps_safe safe f \<Longrightarrow> f w = (x, w') \<Longrightarrow> safe w \<Longrightarrow> safe w'"
  by (metis keeps_safe_def snd_conv)

lemma socket_control_binds:
  assumes "binding_option api iface safe bound"
  shows "binds safe bound (socket_control api iface)"
proof -
  have "safe (snd (socket_control api iface raw w)) \<and>
      (fst (socket_control api iface raw w) = None \<longrightarrow> bound raw (snd (socket_control api iface raw w)))"
    if "safe w" for raw w
  proof -
    obtain x w1 where x: "raw_control api raw w = (x, w1)" by force
    have w1: "safe w1" using assms x that by (auto simp: binding_option_def dest: keeps_safeD)
    show ?thesis
    proof (cases x)
      case (Inr fd)
      obtain e w2 where e: "setsockopt_string api fd 1 25 iface w1 = (e, w2)" by force
      have "safe w2" using assms e w1 unfolding binding_option_def by (blast dest: keeps_safeD)
      moreover have "e = None \<Longrightarrow> bound raw w2"
        using assms x e that Inr unfolding binding_option_def by blast
      ultimately show ?thesis using x e Inr by (simp add: socket_control_def sol_socket_def bind_to_device_def)
    qed (use x w1 in \<open>simp add: socket_control_def\<close>)
  qed
  then show ?thesis by (auto simp: binds_def keeps_safe_def)
qed

lemma tunnel_dialer_safe:
  assumes "confining_network api iface literal safe bound" and "literal dns"
  shows "keeps_safe safe (dialer_dial api (tunnel_dialer api iface dns) network address)"
proof -
  have ctl: "binds safe bound (socket_control api iface)" and dial: "controlled_dialers api literal safe bound"
    using assms(1) socket_control_binds by (auto simp: confining_network_def)
  have dns: "keeps_safe safe (dialer_dial api (dns_dialer api iface) ''udp'' dns)"
    using dial ctl assms(2) by (simp add: controlled_dialers_def dns_dialer_def)
  with dial ctl show ?thesis by (simp add: controlled_dialers_def tunnel_dialer_def)
qed

lemma quiet_readD: "quiet_rest api safe \<Longrightarrow> read_body api b w = (x, w1) \<Longrightarrow> safe w \<Longrightarrow> safe w1"
  by (auto simp: quiet_rest_def dest: keeps_safeD)

lemma quiet_writeD: "quiet_rest api safe \<Longrightarrow> write_client api c w = (x, w1) \<Longrightarrow> safe w \<Longrightarrow> safe w1"
  by (auto simp: quiet_rest_def dest: keeps_safeD)

lemma copies_safe:
  assumes "quiet_rest api safe"
  shows "copies api b w cs w' \<Longrightarrow> safe w \<Longrightarrow> safe w'"
  by (induction rule: copies.induct) (use quiet_readD [OF assms] quiet_writeD [OF assms] in blast)+

lemma answer_forward_safe:
  assumes "quiet_rest api safe" and "answer_forward api wr resp w = Some (r, w')" and "safe w"
  shows "safe w'"
proof -
  obtain keys w1 where k: "range_keys api (remove_hop_headers (ur_header resp)) w = (keys, w1)" by force
  have "safe w1" using assms(1,3) k by (auto simp: quiet_rest_def dest: keeps_safeD)
  with assms k show ?thesis
    by (auto simp: answer_forward_def Let_def quiet_rest_def split: sum.splits option.splits
        dest!: copy_body_copies dest: copies_safe [OF assms(1)])
qed

lemma request_transport_dials:
  assumes "request_transport api x verb w = (td, w1)"
  shows "ht_dial (fst td) = ht_dial (px_transport x)" "ht_uses_proxy (fst td) = ht_uses_proxy (px_transport x)"
    "w1 = w \<or> w1 = snd (new_pool api w)"
  using assms by (auto simp: request_transport_def split: if_splits prod.splits)

lemma forward_safe:
  assumes net: "confining_network api iface literal safe bound" and "literal dns"
    and x: "fst (new_proxy api iface dns w0) = x"
    and "forward_request api x wr q w = Some (r, w')" and "safe w"
  shows "safe w'"
proof -
  have quiet: "quiet_rest api safe" and trips: "dialing_transports api safe"
    using net by (auto simp: confining_network_def)
  obtain td w1 where td: "request_transport api x (pq_method q) w = (td, w1)" by (metis surj_pair)
  obtain y w2 where y: "transport_round_trip api (fst td) ((outbound_request q)\<lparr>pq_close := pq_close q \<or> snd td\<rparr>) w1
      = (y, w2)" by force
  have "safe w1" using request_transport_dials(3) [OF td] quiet \<open>safe w\<close>
    by (auto simp: quiet_rest_def keeps_safe_def)
  moreover have "keeps_safe safe (ht_dial (fst td) n a)" "\<not> ht_uses_proxy (fst td)" for n a
    using tunnel_dialer_safe [OF net \<open>literal dns\<close>] x request_transport_dials(1,2) [OF td]
    by (auto simp: new_proxy_def split: prod.splits)
  ultimately have "safe w2" using trips y unfolding dialing_transports_def by (blast dest: keeps_safeD)
  moreover have "safe (tidy_up api td w3)" if "safe w3" for w3
    using that quiet by (simp add: tidy_up_def quiet_rest_def)
  ultimately show ?thesis using assms(4) td y answer_forward_safe [OF quiet]
    by (fastforce simp: forward_request_def split: sum.splits)
qed

lemma connect_safe:
  assumes net: "confining_network api iface literal safe bound" and "literal dns"
    and x: "fst (new_proxy api iface dns w0) = x" and "safe w"
  shows "safe (snd (connect_request api x wr q w))"
proof -
  have quiet: "quiet_rest api safe" using net by (simp add: confining_network_def)
  obtain y w1 where y: "dialer_dial api (px_dialer x) ''tcp'' (connect_target (pq_host q)) w = (y, w1)" by force
  have "px_dialer x = tunnel_dialer api iface dns" using x by (auto simp: new_proxy_def split: prod.splits)
  with y tunnel_dialer_safe [OF net \<open>literal dns\<close>] \<open>safe w\<close> have w1: "safe w1" by (auto dest: keeps_safeD)
  obtain z w2 where z: "hijack api w1 = (z, w2)" by force
  have "safe w2" using quiet z w1 by (auto simp: quiet_rest_def dest: keeps_safeD)
  with w1 quiet y z show ?thesis
    by (auto simp: connect_request_def quiet_rest_def split: sum.split prod.split)
qed

section \<open>A laboratory\<close>

text \<open>
  A network for the witnesses: a world is the devices its sockets are bound to and the
  sockets that have sent something.  A dial resolves over the resolver, makes a socket,
  runs the control function and connects; an exchange answers 201 with three header fields.
\<close>

type_synonym pxw = "string option list \<times> nat list"

definition lab_sends :: "pxw \<Rightarrow> nat \<Rightarrow> pxw" where
  "lab_sends w c = (fst w, snd w @ [c])"

definition lab_resolve :: "pxw socket_dialer \<Rightarrow> string \<Rightarrow> pxw \<Rightarrow> pxw" where
  "lab_resolve d address w = (case sd_resolver d of
     None \<Rightarrow> if hd address = CHR ''1'' then w else lab_sends (fst w @ [None], snd w) (length (fst w))
   | Some v \<Rightarrow> snd (nr_dial v ''udp'' ''9.9.9.9:53'' w))"

definition lab_dial :: "pxw socket_dialer \<Rightarrow> pxw connect" where
  "lab_dial d network address w =
    (let w1 = lab_resolve d address w; c = length (fst w1) in
     case sd_control d c (fst w1 @ [None], snd w1) of
       (Some e, w2) \<Rightarrow> (Inl e, w2)
     | (None, w2) \<Rightarrow> (Inr c, lab_sends w2 c))"

definition lab_answer_header :: header where
  "lab_answer_header = [''Connection'' \<mapsto> [''close''], ''X-Lab'' \<mapsto> [''5g''], ''Set-Cookie'' \<mapsto> [''a'', ''b'']]"

definition lab_proxy_api :: "pxw proxy_api" where
  "lab_proxy_api = \<lparr>
     glob_paths = (\<lambda>p w. ([''/sys/class/net/uesimtun0'', ''/sys/class/net/uesimtun1''], w)),
     interface_by_name = (\<lambda>name w. (Some (if name = ''uesimtun1'' then 1 else 0), w)),
     interface_addrs = (\<lambda>i w. (if length (fst w) < 2 then None else Some i, w)),
     sleep_second = (\<lambda>w. (fst w @ [None], snd w)),
     raw_control = (\<lambda>raw w. (if raw < length (fst w) then Inr raw else Inl ''closed'', w)),
     setsockopt_string = (\<lambda>fd l opt s w. if fd < length (fst w) \<and> l = 1 \<and> opt = 25
        then (None, ((fst w)[fd := Some s], snd w)) else (Some ''EBADF'', w)),
     dialer_dial = lab_dial,
     new_pool = (\<lambda>w. (7, w)),
     transport_round_trip = (\<lambda>t q w. (Inr \<lparr>ur_status = 201, ur_header = lab_answer_header, ur_body = 0\<rparr>,
        snd (ht_dial t ''tcp'' ''lab'' w))),
     close_idle = (\<lambda>t w. w),
     range_keys = (\<lambda>h w. (filter (\<lambda>k. h k \<noteq> None) [''X-Lab'', ''Connection'', ''Set-Cookie''], w)),
     read_body = (\<lambda>b w. (None, w)),
     close_body = (\<lambda>b w. w),
     write_client = (\<lambda>s w. (True, w)),
     hijack = (\<lambda>w. (Inr (99, []), w)),
     conn_write = (\<lambda>c s w. w),
     conn_close = (\<lambda>c w. w)\<rparr>"

definition lab_bound :: "nat \<Rightarrow> pxw \<Rightarrow> bool" where
  "lab_bound raw w \<longleftrightarrow> raw < length (fst w) \<and> fst w ! raw = Some ''uesimtun0''"

definition lab_safe :: "pxw \<Rightarrow> bool" where
  "lab_safe w \<longleftrightarrow> (\<forall>c \<in> set (snd w). lab_bound c w)"

lemma lab_safe_push: "lab_safe (l, ts) \<Longrightarrow> lab_safe (l @ [None], ts)"
  by (auto simp: lab_safe_def lab_bound_def nth_append)

lemma lab_dialers: "controlled_dialers lab_proxy_api (\<lambda>a. hd a = CHR ''1'') lab_safe lab_bound"
  unfolding controlled_dialers_def
proof (intro allI impI)
  fix d :: "pxw socket_dialer" and network address
  assume ctl: "binds lab_safe lab_bound (sd_control d)"
    and res: "case sd_resolver d of None \<Rightarrow> hd address = CHR ''1''
      | Some v \<Rightarrow> nr_prefer_go v \<and> (\<forall>n a. keeps_safe lab_safe (nr_dial v n a))"
  have "lab_safe (snd (lab_dial d network address w))" if "lab_safe w" for w
  proof -
    define w1 where "w1 = lab_resolve d address w"
    have w1: "lab_safe w1" using res that
      by (cases w) (auto simp: w1_def lab_resolve_def keeps_safe_def split: option.splits)
    obtain e w2 where e: "sd_control d (length (fst w1)) (fst w1 @ [None], snd w1) = (e, w2)"
      by (metis surj_pair)
    have start: "lab_safe (fst w1 @ [None], snd w1)" using w1 lab_safe_push [of "fst w1" "snd w1"] by simp
    have w2: "lab_safe w2" "e = None \<Longrightarrow> lab_bound (length (fst w1)) w2"
      using ctl start e by (auto simp: binds_def keeps_safe_def) (metis fst_conv snd_conv)+
    then have "e = None \<Longrightarrow> lab_safe (lab_sends w2 (length (fst w1)))"
      by (auto simp: lab_safe_def lab_sends_def lab_bound_def)
    with e w2(1) show ?thesis by (auto simp: lab_dial_def Let_def w1_def split: option.splits)
  qed
  then show "keeps_safe lab_safe (dialer_dial lab_proxy_api d network address)"
    by (simp add: keeps_safe_def lab_proxy_api_def)
qed

lemma lab_confines: "confining_network lab_proxy_api ''uesimtun0'' (\<lambda>a. hd a = CHR ''1'') lab_safe lab_bound"
proof -
  have "binding_option lab_proxy_api ''uesimtun0'' lab_safe lab_bound"
    by (auto simp: binding_option_def keeps_safe_def lab_proxy_api_def lab_safe_def lab_bound_def nth_list_update
        split: if_splits)
  moreover have "dialing_transports lab_proxy_api lab_safe" "quiet_rest lab_proxy_api lab_safe"
    by (auto simp: dialing_transports_def quiet_rest_def keeps_safe_def lab_proxy_api_def)
  ultimately show ?thesis by (simp add: confining_network_def lab_dialers)
qed

section \<open>Properties\<close>

text \<open>C28. Exactly the hop-by-hop fields are removed: of every header nothing is left under the nine names,
in the spelling under which they are stored, and every other field keeps its values; the request
that is sent on is stripped this way.\<close>

theorem hop_headers_removed:
  "remove_hop_headers h k =
     (if k \<in> {''Connection'', ''Proxy-Connection'', ''Keep-Alive'', ''Proxy-Authenticate'', ''Proxy-Authorization'',
        ''Te'', ''Trailer'', ''Transfer-Encoding'', ''Upgrade''} then None else h k)
   \<and> pq_header (outbound_request q) k = (if k \<in> set hop_keys then None else pq_header q k)"
  by (auto simp: remove_hop_headers_apply hop_keys_def outbound_request_def Let_def)

text \<open>C29. The copy of a header does not depend on the order in which the loop meets its keys: under every key
the destination ends with its own values followed by those of the source, in their order.\<close>

theorem headers_copied:
  assumes "key_order keys source" and "canonical_header source"
  shows "copy_headers keys dest source k = merged_values (dest k) (source k)"
  by (simp add: copy_headers_any_order [OF assms])

lemma headers_copied_witness:
  "copy_headers [''X-Lab''] [''X-Lab'' \<mapsto> [''a'']] [''X-Lab'' \<mapsto> [''b'', ''c'']] ''X-Lab'' = Some [''a'', ''b'', ''c'']"
proof -
  have "canonical_key ''X-Lab'' = ''X-Lab''" by code_simp
  then have "canonical_header [''X-Lab'' \<mapsto> [''b'', ''c'']]" by (simp add: canonical_header_def)
  from headers_copied [OF _ this, of "[''X-Lab'']" "[''X-Lab'' \<mapsto> [''a'']]" "''X-Lab''"] show ?thesis
    by (simp add: key_order_def merged_values_def)
qed

text \<open>C13. A forwarded request is answered with the upstream's answer: its status, its end-to-end fields after
those already set, and the chunks of its body in order, up to the end of the body or the
disappearance of the client; then the upstream body is closed and a dedicated connection dropped.\<close>

theorem request_forwarded:
  assumes "pq_method q \<noteq> ''CONNECT''" and "u_path (pq_url q) \<noteq> ''/healthz'' \<or> u_host (pq_url q) \<noteq> []"
    and "request_transport api x (pq_method q) w = (td, w1)"
    and "transport_round_trip api (fst td) ((outbound_request q)\<lparr>pq_close := pq_close q \<or> snd td\<rparr>) w1 = (Inr resp, w2)"
    and "200 \<le> ur_status resp" and "ur_status resp \<le> 999" and "canonical_header (ur_header resp)"
    and "range_keys api (remove_hop_headers (ur_header resp)) w2 = (keys, w3)"
    and "key_order keys (remove_hop_headers (ur_header resp))"
    and "copies api (ur_body resp) w3 cs w4" and "cw_code wr = None"
  shows "serve_http api x wr q w = Some (Inr (wr\<lparr>
      cw_header := (\<lambda>k. if k \<in> set hop_keys then cw_header wr k else merged_values (cw_header wr k) (ur_header resp k)),
      cw_code := Some (ur_status resp), cw_body := cw_body wr @ concat cs\<rparr>, None),
      tidy_up api td (close_body api (ur_body resp) w4))"
proof -
  have h: "copy_headers keys (cw_header wr) (remove_hop_headers (ur_header resp))
      = (\<lambda>k. if k \<in> set hop_keys then cw_header wr k else merged_values (cw_header wr k) (ur_header resp k))"
    using assms(7,9)
    by (auto simp: copy_headers_any_order remove_hop_canonical remove_hop_headers_apply merged_values_def fun_eq_iff)
  have "answer_forward api wr resp w2 = Some (Inr (wr\<lparr>
      cw_header := (\<lambda>k. if k \<in> set hop_keys then cw_header wr k else merged_values (cw_header wr k) (ur_header resp k)),
      cw_code := Some (ur_status resp), cw_body := cw_body wr @ concat cs\<rparr>), close_body api (ur_body resp) w4)"
    using assms(5,6,8,11) h
    by (simp add: answer_forward_def write_header_def copies_copy_body [OF assms(10)] foldl_write_body)
  with assms(1-4) show ?thesis by (auto simp: serve_http_def forward_request_def)
qed

definition px_writer :: client_writer where
  "px_writer = \<lparr>cw_header = Map.empty, cw_code = None, cw_body = [], cw_hijacks = True\<rparr>"

definition px_url :: url where
  "px_url = \<lparr>u_scheme = [], u_opaque = [], u_user = None, u_host = [], u_path = ''/x'', u_raw_path = [],
     u_omit_host = False, u_force_query = False, u_raw_query = [], u_fragment = [], u_raw_fragment = []\<rparr>"

definition px_request :: "string \<Rightarrow> proxy_request" where
  "px_request verb = \<lparr>pq_method = verb, pq_url = px_url, pq_host = ''host'', pq_uri = ''/x'',
     pq_header = [''Te'' \<mapsto> [''trailers'']], pq_body = 0, pq_close = False\<rparr>"

definition lab_proxy :: "pxw proxy" where
  "lab_proxy = fst (new_proxy lab_proxy_api ''uesimtun0'' ''1.1.1.1:53'' ([], []))"

lemma lab_header_canonical: "canonical_header lab_answer_header"
proof -
  have "canonical_key ''Connection'' = ''Connection''" "canonical_key ''X-Lab'' = ''X-Lab''"
    "canonical_key ''Set-Cookie'' = ''Set-Cookie''" by code_simp+
  then show ?thesis by (auto simp: canonical_header_def lab_answer_header_def)
qed

lemma request_forwarded_witness:
  "\<exists>wr w'. serve_http lab_proxy_api lab_proxy px_writer (px_request ''GET'') ([], []) = Some (Inr (wr, None), w')
    \<and> cw_code wr = Some 201 \<and> cw_header wr ''Set-Cookie'' = Some [''a'', ''b''] \<and> cw_header wr ''Connection'' = None"
proof -
  let ?api = lab_proxy_api and ?q = "px_request ''GET''" and ?w = "([], []) :: pxw"
  define resp where "resp = \<lparr>ur_status = 201, ur_header = lab_answer_header, ur_body = 0\<rparr>"
  define td where "td = (px_transport lab_proxy, False)"
  define w2 where "w2 = snd (ht_dial (fst td) ''tcp'' ''lab'' ?w)"
  have m: "pq_method ?q \<noteq> ''CONNECT''" "u_path (pq_url ?q) \<noteq> ''/healthz'' \<or> u_host (pq_url ?q) \<noteq> []"
    by (simp_all add: px_request_def px_url_def)
  have t: "request_transport ?api lab_proxy (pq_method ?q) ?w = (td, ?w)"
    by (simp add: request_transport_def px_request_def td_def)
  have r: "transport_round_trip ?api (fst td) ((outbound_request ?q)\<lparr>pq_close := pq_close ?q \<or> snd td\<rparr>) ?w = (Inr resp, w2)"
    by (simp add: lab_proxy_api_def w2_def resp_def)
  have d: "remove_hop_headers (ur_header resp) = [''X-Lab'' \<mapsto> [''5g''], ''Set-Cookie'' \<mapsto> [''a'', ''b'']]"
    by (rule ext) (simp add: remove_hop_headers_apply hop_keys_def lab_answer_header_def resp_def)
  have k: "range_keys ?api (remove_hop_headers (ur_header resp)) w2 = ([''X-Lab'', ''Set-Cookie''], w2)"
    by (simp add: d lab_proxy_api_def)
  have c: "copies ?api (ur_body resp) w2 [] w2" by (rule copies.body_end) (simp add: lab_proxy_api_def)
  have o: "key_order [''X-Lab'', ''Set-Cookie''] (remove_hop_headers (ur_header resp))"
    by (auto simp: d key_order_def)
  have s: "200 \<le> ur_status resp" "ur_status resp \<le> 999" "canonical_header (ur_header resp)" "cw_code px_writer = None"
    by (simp_all add: resp_def lab_header_canonical px_writer_def)
  from request_forwarded [OF m t r s(1-3) k o c s(4)] show ?thesis
    by (simp add: merged_values_def px_writer_def lab_answer_header_def hop_keys_def resp_def)
qed

text \<open>Every new pool of connections is another one; \<open>used w\<close> are those made so far.\<close>

definition fresh_pools :: "'w proxy_api \<Rightarrow> ('w \<Rightarrow> nat set) \<Rightarrow> bool" where
  "fresh_pools api used \<longleftrightarrow> (\<forall>w. fst (new_pool api w) \<notin> used w
     \<and> used (snd (new_pool api w)) = insert (fst (new_pool api w)) (used w))"

text \<open>C25. An upload never shares a connection: if every transport is given a pool that no transport had before
it, a POST, PUT or PATCH request is sent, marked to close its connection, over a transport that is the
shared one but for a pool of its own, different from that of the shared transport and of every earlier
upload, and for keeping no connection alive; its error is answered 502, its answer relayed, and
whenever the handler returns, the idle connections of that transport are closed last of all.\<close>

theorem uploads_isolated:
  assumes "pq_method q \<in> {''POST'', ''PUT'', ''PATCH''}"
    and "fresh_pools api used" and "ht_pool (px_transport x) \<in> used w"
  shows "\<exists>pool w1 t. new_pool api w = (pool, w1) \<and> pool \<notin> used w \<and> pool \<noteq> ht_pool (px_transport x) \<and> pool \<in> used w1
    \<and> t = (px_transport x)\<lparr>ht_pool := pool, ht_disable_keep_alives := True, ht_max_idle := 0, ht_max_idle_per_host := -1\<rparr>
    \<and> forward_request api x wr q w =
      (case transport_round_trip api t ((outbound_request q)\<lparr>pq_close := True\<rparr>) w1 of
         (Inl e, w2) \<Rightarrow> Some (Inr (write_error ''UE tunnel request failed'' 502 wr), close_idle api t w2)
       | (Inr resp, w2) \<Rightarrow> map_option (\<lambda>(r, w3). (r, close_idle api t w3)) (answer_forward api wr resp w2))"
proof -
  obtain pool w1 where p: "new_pool api w = (pool, w1)" by (metis surj_pair)
  from assms(2) have "fst (new_pool api w) \<notin> used w" "used (snd (new_pool api w)) = insert (fst (new_pool api w)) (used w)"
    by (simp_all add: fresh_pools_def)
  with p assms(3) have "pool \<notin> used w \<and> pool \<noteq> ht_pool (px_transport x) \<and> pool \<in> used w1" by auto
  moreover have "request_transport api x (pq_method q) w = (((px_transport x)\<lparr>ht_pool := pool,
      ht_disable_keep_alives := True, ht_max_idle := 0, ht_max_idle_per_host := -1\<rparr>, True), w1)"
    using assms(1) p by (auto simp: request_transport_def)
  moreover have "tidy_up api (t, True) = close_idle api t" for t by (simp add: tidy_up_def fun_eq_iff)
  ultimately show ?thesis
    using p by (auto simp: forward_request_def map_prod_def split: prod.split sum.split)
qed

text \<open>A laboratory that hands out a larger pool each time, and notes exchanges and closings with their pools.\<close>

type_synonym poolw = "nat list \<times> (string \<times> nat) list"

definition pool_lab_api :: "poolw proxy_api" where
  "pool_lab_api = \<lparr>
     glob_paths = (\<lambda>p w. ([], w)),
     interface_by_name = (\<lambda>name w. (None, w)),
     interface_addrs = (\<lambda>i w. (None, w)),
     sleep_second = (\<lambda>w. w),
     raw_control = (\<lambda>raw w. (Inr raw, w)),
     setsockopt_string = (\<lambda>fd l opt s w. (None, w)),
     dialer_dial = (\<lambda>d network address w. (Inr 0, w)),
     new_pool = (\<lambda>w. (Suc (sum_list (fst w)), (Suc (sum_list (fst w)) # fst w, snd w))),
     transport_round_trip = (\<lambda>t q w. (Inr \<lparr>ur_status = 201, ur_header = Map.empty, ur_body = 0\<rparr>,
        (fst w, snd w @ [(''exchange'', ht_pool t)]))),
     close_idle = (\<lambda>t w. (fst w, snd w @ [(''close'', ht_pool t)])),
     range_keys = (\<lambda>h w. ([], w)),
     read_body = (\<lambda>b w. (None, w)),
     close_body = (\<lambda>b w. w),
     write_client = (\<lambda>s w. (True, w)),
     hijack = (\<lambda>w. (Inl ''none'', w)),
     conn_write = (\<lambda>c s w. w),
     conn_close = (\<lambda>c w. w)\<rparr>"

lemma pool_lab_fresh: "fresh_pools pool_lab_api (\<lambda>w. set (fst w))"
proof -
  have "Suc (sum_list ps) \<notin> set ps" for ps :: "nat list"
    using member_le_sum_list [of "Suc (sum_list ps)" ps] by auto
  then show ?thesis by (simp add: fresh_pools_def pool_lab_api_def)
qed

lemma uploads_isolated_witness:
  "\<exists>r. forward_request pool_lab_api (fst (new_proxy pool_lab_api ''uesimtun0'' ''1.1.1.1:53'' ([], []))) px_writer
      (px_request ''PUT'') ([1], []) = Some (r, ([2, 1], [(''exchange'', 2), (''close'', 2)]))"
proof -
  let ?x = "fst (new_proxy pool_lab_api ''uesimtun0'' ''1.1.1.1:53'' ([], []))"
  have b: "copy_body pool_lab_api n wr w = Some (wr, w)" for n wr w
    by (simp add: copy_body.simps pool_lab_api_def)
  have m: "pq_method (px_request ''PUT'') \<in> {''POST'', ''PUT'', ''PATCH''}" by (simp add: px_request_def)
  have u: "ht_pool (px_transport ?x) \<in> set (fst ([1], [] :: (string \<times> nat) list))"
    by (simp add: new_proxy_def pool_lab_api_def)
  have n: "new_pool pool_lab_api ([1], []) = (2, ([2, 1], []))" by (simp add: pool_lab_api_def)
  have lab: "transport_round_trip pool_lab_api t q w = (Inr \<lparr>ur_status = 201, ur_header = Map.empty, ur_body = 0\<rparr>,
      (fst w, snd w @ [(''exchange'', ht_pool t)]))"
    "close_idle pool_lab_api t w = (fst w, snd w @ [(''close'', ht_pool t)])"
    "range_keys pool_lab_api h w = ([], w)" "close_body pool_lab_api k w = w" for t q w h k
    by (simp_all add: pool_lab_api_def)
  from uploads_isolated [OF m pool_lab_fresh u, of px_writer] n show ?thesis
    by (auto simp: answer_forward_def write_header_def b lab)
qed

lemma serve_connect:
  "pq_method q = ''CONNECT'' \<Longrightarrow> serve_http api x wr q w =
     Some (Inr (fst (connect_request api x wr q w)), snd (connect_request api x wr q w))"
  by (simp add: serve_http_def map_prod_def split_beta)

text \<open>C3. All traffic leaves by the interface: on a network on which a socket bound to a device sends through it
and dialers and transports connect as documented, a proxy whose name server is given by address
answers every request, tunnels included, without anything sent over a socket that is not bound
to its interface, neither connections nor the look-ups of names.\<close>

theorem egress_confined:
  assumes "confining_network api iface literal safe bound" and "literal dns" and "safe w"
    and "fst (new_proxy api iface dns w0) = x" and "serve_http api x wr q w = Some (r, w')"
  shows "safe w'"
proof -
  consider "w' = w" | "w' = snd (connect_request api x wr q w)"
    | y where "forward_request api x wr q w = Some (y, w')"
    using assms(5) by (cases "pq_method q = ''CONNECT''") 
      (fastforce simp: serve_connect, fastforce simp: serve_http_def split: if_splits)
  then show ?thesis
    using connect_safe [OF assms(1,2,4,3)] forward_safe [OF assms(1,2,4) _ assms(3)] assms(3) by cases auto
qed

lemma egress_confined_witness:
  "\<exists>r l. serve_http lab_proxy_api lab_proxy px_writer (px_request ''CONNECT'') ([], []) = Some (r, (l, [0, 1]))
    \<and> l ! 0 = Some ''uesimtun0'' \<and> l ! 1 = Some ''uesimtun0''"
proof -
  have "snd (connect_request lab_proxy_api lab_proxy px_writer (px_request ''CONNECT'') ([], []))
      = ([Some ''uesimtun0'', Some ''uesimtun0''], [0, 1])"
    by code_simp
  moreover have "pq_method (px_request ''CONNECT'') = ''CONNECT''" by (simp add: px_request_def)
  ultimately obtain r l where r: "serve_http lab_proxy_api lab_proxy px_writer (px_request ''CONNECT'') ([], []) = Some (r, (l, [0, 1]))"
    by (auto simp: serve_connect)
  have x: "fst (new_proxy lab_proxy_api ''uesimtun0'' ''1.1.1.1:53'' ([], [])) = lab_proxy" by (simp add: lab_proxy_def)
  have "lab_safe (l, [0, 1])"
    by (rule egress_confined [OF lab_confines _ _ x r]) (simp_all add: lab_safe_def)
  with r show ?thesis by (auto simp: lab_safe_def lab_bound_def)
qed

text \<open>C26. The wait ends exactly when a pass finds a usable interface, and yields the first usable match of
the first such pass: if no pass finds one, it never returns.  Looking at interfaces must not change them.\<close>

theorem interface_awaited:
  assumes "passive_lookups api"
  shows "wait_for_interface api pattern w = Some (name, w')
    \<longleftrightarrow> (\<exists>k matches. (\<forall>j < k. fst (wait_round api pattern (after_rounds api pattern j w)) = None)
        \<and> glob_paths api (join_below ''/sys/class/net'' pattern) (after_rounds api pattern k w) = (matches, w')
        \<and> map_option path_base (find (usable api w') matches) = Some name)"
proof -
  have round: "wait_round api pattern v = (Some name, w') \<longleftrightarrow> (\<exists>matches.
      glob_paths api (join_below ''/sys/class/net'' pattern) v = (matches, w')
      \<and> map_option path_base (find (usable api w') matches) = Some name)" for v
    by (auto simp: wait_round_def scan_matches_first [OF assms] split: prod.splits option.splits)
  have "wait_for_interface api pattern w = Some (name, w') \<longleftrightarrow>
      (\<exists>k. (\<forall>j < k. fst (wait_round api pattern (after_rounds api pattern j w)) = None)
        \<and> wait_round api pattern (after_rounds api pattern k w) = (Some name, w'))" (is "?l = ?r")
  proof
    assume ?r
    then obtain k where k: "\<forall>j < k. fst (wait_round api pattern (after_rounds api pattern j w)) = None"
      "wait_round api pattern (after_rounds api pattern k w) = (Some name, w')" by blast
    from wait_after_rounds [OF k(1)] k(2) show ?l
      by (simp add: wait_for_interface.simps [of api pattern "after_rounds api pattern k w"])
  qed (rule wait_returns)
  then show ?thesis by (auto simp: round)
qed

lemma interface_awaited_witness:
  "wait_for_interface lab_proxy_api ''uesimtun*'' ([], []) = Some (''uesimtun1'', ([None, None], []))"
proof -
  have p: "passive_lookups lab_proxy_api" by (simp add: passive_lookups_def lab_proxy_api_def)
  let ?round = "\<lambda>j. wait_round lab_proxy_api ''uesimtun*'' (after_rounds lab_proxy_api ''uesimtun*'' j ([], []))"
  have g: "glob_paths lab_proxy_api t w = ([''/sys/class/net/uesimtun0'', ''/sys/class/net/uesimtun1''], w)" for t w
    by (simp add: lab_proxy_api_def)
  have r: "after_rounds lab_proxy_api ''uesimtun*'' 1 ([], []) = ([None], [])"
    "after_rounds lab_proxy_api ''uesimtun*'' 2 ([], []) = ([None, None], [])"
    "fst (?round 0) = None" "fst (?round 1) = None" by code_simp+
  have "\<forall>j < 2. fst (?round j) = None" using r(3,4) by (auto simp: less_2_cases_iff)
  moreover have "map_option path_base (find (usable lab_proxy_api ([None, None], []))
      [''/sys/class/net/uesimtun0'', ''/sys/class/net/uesimtun1'']) = Some ''uesimtun1''" by code_simp
  ultimately show ?thesis
    unfolding interface_awaited [OF p] by (intro exI [of _ 2]) (simp add: g r(2))
qed

end
