(* ===== verification/Relay.thy ===== *)
theory Relay
  imports Prelude "HOL-Library.Sublist"
begin

text \<open>
  The byte relays of the two proxies: a pair of connections and two goroutines that copy
  one into the other, \<open>transfer\<close> of the HTTP proxy and the last lines of \<open>socks\<close> of the
  browser proxy.  They differ in what a goroutine does when its copy has ended, the list
  of \<open>closing\<close> actions, and in the deadlines set on the connections before.  The peers
  send, read, stop sending and break off at any time; a write to a peer that does not
  read has to wait.
\<close>

section \<open>Connections and goroutines\<close>

datatype side = Client | Upstream

fun other :: "side \<Rightarrow> side" where
  "other Client = Upstream"
| "other Upstream = Client"

lemma other_simps [simp]: "other (other s) = s" "other s \<noteq> s" "s \<noteq> other s"
  "other s = other t \<longleftrightarrow> s = t"
  by (cases s; cases t; simp)+

lemma other_cases: "t \<noteq> s \<longleftrightarrow> t = other s"
  by (cases s; cases t; simp)

text \<open>
  A connection as the relay sees it: all bytes its peer has sent, those not yet read,
  whether the peer has finished sending, the connection has failed or its deadline has
  passed; the bytes written to the peer, the room left for more of them (it grows as the
  peer reads), and whether the relay has closed the connection, or its writing half.
\<close>

record tcp =
  offered :: bytes
  arrived :: bytes
  ended :: bool
  broken :: bool
  expired :: bool
  put :: bytes
  room :: nat
  shut :: bool
  half_shut :: bool

datatype closing = Close side | CloseWrite side | AwaitCopy side

text \<open>
  A relay: the closing actions of the goroutine that reads a side, and the sides whose
  connection has a deadline.
\<close>

record tunnel =
  closing_of :: "side \<Rightarrow> closing list"
  has_deadline :: "side \<Rightarrow> bool"

text \<open>\<open>io.Copy\<close> reads and writes in turn; then the closing actions run.\<close>

datatype phase = Reading | Writing bytes | Ending "closing list"

text \<open>The goroutine that reads side \<open>s\<close> writes the other side; its phase is \<open>phase_of r s\<close>.\<close>

record relay_state =
  conn_of :: "side \<Rightarrow> tcp"
  phase_of :: "side \<Rightarrow> phase"

definition upd_conn :: "side \<Rightarrow> (tcp \<Rightarrow> tcp) \<Rightarrow> relay_state \<Rightarrow> relay_state" where
  "upd_conn s f r = r\<lparr>conn_of := (conn_of r)(s := f (conn_of r s))\<rparr>"

definition goto :: "side \<Rightarrow> phase \<Rightarrow> relay_state \<Rightarrow> relay_state" where
  "goto s p r = r\<lparr>phase_of := (phase_of r)(s := p)\<rparr>"

lemma relay_sel [simp]:
  "conn_of (upd_conn s f r) t = (if t = s then f (conn_of r s) else conn_of r t)"
  "phase_of (upd_conn s f r) = phase_of r"
  "conn_of (goto s p r) = conn_of r"
  "phase_of (goto s p r) t = (if t = s then p else phase_of r t)"
  by (simp_all add: upd_conn_def goto_def)

definition fresh_tcp :: tcp where
  "fresh_tcp = \<lparr>offered = [], arrived = [], ended = False, broken = False, expired = False,
    put = [], room = 0, shut = False, half_shut = False\<rparr>"

definition relay_start :: relay_state where
  "relay_start = \<lparr>conn_of = (\<lambda>s. fresh_tcp), phase_of = (\<lambda>s. Reading)\<rparr>"

section \<open>Steps\<close>

definition no_reads :: "tcp \<Rightarrow> bool" where
  "no_reads c \<longleftrightarrow> shut c \<or> broken c \<or> expired c \<or> arrived c = [] \<and> ended c"

definition no_writes :: "tcp \<Rightarrow> bool" where
  "no_writes c \<longleftrightarrow> shut c \<or> half_shut c \<or> broken c \<or> expired c"

definition closed_ending :: "relay_state \<Rightarrow> side \<Rightarrow> bool" where
  "closed_ending r s \<longleftrightarrow> phase_of r s = Ending []"

text \<open>\<open>None\<close>: the action waits.\<close>

fun close_op :: "closing \<Rightarrow> relay_state \<Rightarrow> relay_state option" where
  "close_op (Close t) r = Some (upd_conn t (shut_update (\<lambda>_. True)) r)"
| "close_op (CloseWrite t) r = Some (upd_conn t (half_shut_update (\<lambda>_. True)) r)"
| "close_op (AwaitCopy t) r = (if closed_ending r t then Some r else None)"

text \<open>
  One step of the goroutine that reads side \<open>s\<close>.  A read takes some of what has arrived; a
  write hands over as much as there is room for, and waits while there is none.
\<close>

inductive copy_step :: "(side \<Rightarrow> closing list) \<Rightarrow> side \<Rightarrow> relay_state \<Rightarrow> relay_state \<Rightarrow> bool"
  for closing s where
  reads: "phase_of r s = Reading \<Longrightarrow> \<not> shut (conn_of r s) \<Longrightarrow> \<not> broken (conn_of r s) \<Longrightarrow>
     \<not> expired (conn_of r s) \<Longrightarrow> 0 < n \<Longrightarrow> n \<le> length (arrived (conn_of r s)) \<Longrightarrow>
     copy_step closing s r (goto s (Writing (take n (arrived (conn_of r s))))
       (upd_conn s (arrived_update (drop n)) r))"
| read_ends: "phase_of r s = Reading \<Longrightarrow> no_reads (conn_of r s) \<Longrightarrow>
     copy_step closing s r (goto s (Ending (closing s)) r)"
| writes: "phase_of r s = Writing c \<Longrightarrow> \<not> no_writes (conn_of r (other s)) \<Longrightarrow>
     0 < k \<Longrightarrow> k \<le> length c \<Longrightarrow> k \<le> room (conn_of r (other s)) \<Longrightarrow>
     copy_step closing s r (goto s (if k = length c then Reading else Writing (drop k c))
       (upd_conn (other s) (\<lambda>d. d\<lparr>put := put d @ take k c, room := room d - k\<rparr>) r))"
| write_fails: "phase_of r s = Writing c \<Longrightarrow> no_writes (conn_of r (other s)) \<Longrightarrow>
     copy_step closing s r (goto s (Ending (closing s)) r)"
| closes: "phase_of r s = Ending (a # as) \<Longrightarrow> close_op a r = Some r' \<Longrightarrow>
     copy_step closing s r (goto s (Ending as) r')"

text \<open>The steps of the peers and of the clock.\<close>

inductive peer_step :: "(side \<Rightarrow> bool) \<Rightarrow> relay_state \<Rightarrow> relay_state \<Rightarrow> bool" for timed where
  sends: "\<not> ended (conn_of r s) \<Longrightarrow>
     peer_step timed r (upd_conn s (\<lambda>c. c\<lparr>offered := offered c @ bs, arrived := arrived c @ bs\<rparr>) r)"
| takes: "peer_step timed r (upd_conn s (room_update (\<lambda>m. m + n)) r)"
| ends: "peer_step timed r (upd_conn s (ended_update (\<lambda>_. True)) r)"
| breaks: "peer_step timed r (upd_conn s (broken_update (\<lambda>_. True)) r)"
| expires: "timed s \<Longrightarrow> peer_step timed r (upd_conn s (expired_update (\<lambda>_. True)) r)"

inductive relay_reach :: "tunnel \<Rightarrow> relay_state \<Rightarrow> bool" for tn where
  start: "relay_reach tn relay_start"
| copy: "relay_reach tn r \<Longrightarrow> copy_step (closing_of tn) s r r' \<Longrightarrow> relay_reach tn r'"
| peer: "relay_reach tn r \<Longrightarrow> peer_step (has_deadline tn) r r' \<Longrightarrow> relay_reach tn r'"

definition relay_move :: "tunnel \<Rightarrow> relay_state \<Rightarrow> relay_state \<Rightarrow> bool" where
  "relay_move tn r r' \<longleftrightarrow> (\<exists>s. copy_step (closing_of tn) s r r') \<or> peer_step (has_deadline tn) r r'"

text \<open>The same runs with a count of the goroutines' steps.\<close>

inductive relay_after :: "tunnel \<Rightarrow> nat \<Rightarrow> relay_state \<Rightarrow> bool" for tn where
  start: "relay_after tn 0 relay_start"
| copy: "relay_after tn n r \<Longrightarrow> copy_step (closing_of tn) s r r' \<Longrightarrow> relay_after tn (Suc n) r'"
| peer: "relay_after tn n r \<Longrightarrow> peer_step (has_deadline tn) r r' \<Longrightarrow> relay_after tn n r'"

lemma relay_after_reach: "relay_after tn n r \<Longrightarrow> relay_reach tn r"
  by (induction rule: relay_after.induct) (blast intro: relay_reach.intros)+

lemma relay_reach_after: "relay_reach tn r \<Longrightarrow> \<exists>n. relay_after tn n r"
  by (induction rule: relay_reach.induct) (blast intro: relay_after.intros)+

text \<open>The goroutine of side \<open>s\<close> holds bytes for a peer that takes none.\<close>

definition blocked :: "relay_state \<Rightarrow> side \<Rightarrow> bool" where
  "blocked r s \<longleftrightarrow> (case phase_of r s of
     Writing c \<Rightarrow> \<not> no_writes (conn_of r (other s)) \<and> room (conn_of r (other s)) = 0
   | _ \<Rightarrow> False)"

text \<open>Neither goroutine can take a step.\<close>

definition at_rest :: "tunnel \<Rightarrow> relay_state \<Rightarrow> bool" where
  "at_rest tn r \<longleftrightarrow> (\<forall>s r'. \<not> copy_step (closing_of tn) s r r')"

section \<open>Nothing is invented, reordered or repeated\<close>

text \<open>
  The bytes of one direction: while the copy runs, written, held and unread bytes together
  are the bytes sent; afterwards the written ones are a prefix of them.
\<close>

definition in_order :: "relay_state \<Rightarrow> side \<Rightarrow> bool" where
  "in_order r s \<longleftrightarrow> (case phase_of r s of
     Reading \<Rightarrow> put (conn_of r (other s)) @ arrived (conn_of r s) = offered (conn_of r s)
   | Writing c \<Rightarrow> put (conn_of r (other s)) @ c @ arrived (conn_of r s) = offered (conn_of r s)
   | Ending as \<Rightarrow> prefix (put (conn_of r (other s))) (offered (conn_of r s)))"

lemma prefix_front: "p @ a = x \<Longrightarrow> prefix p x"
  by auto

lemma take_drop_front: "take k c @ drop k c @ a = c @ a"
  by (simp flip: append_assoc)

lemma prefix_mid: "p @ c @ a = x \<Longrightarrow> prefix p x"
  by auto

lemma close_op_flow:
  assumes "close_op a r = Some r'"
  shows "phase_of r' = phase_of r" "offered (conn_of r' t) = offered (conn_of r t)"
    "arrived (conn_of r' t) = arrived (conn_of r t)" "put (conn_of r' t) = put (conn_of r t)"
    "ended (conn_of r' t) = ended (conn_of r t)" "broken (conn_of r' t) = broken (conn_of r t)"
    "expired (conn_of r' t) = expired (conn_of r t)" "room (conn_of r' t) = room (conn_of r t)"
  using assms by (cases a; auto split: if_splits)+

lemma copy_step_in_order:
  assumes "copy_step closing s r r'" and "\<And>t. in_order r t"
  shows "in_order r' t"
  using assms(1)
proof cases
  case (reads n)
  then show ?thesis using assms(2) [of t] by (auto simp: in_order_def split: phase.splits)
next
  case read_ends
  then show ?thesis using assms(2) [of t]
    by (cases "t = s") (auto simp: in_order_def dest: prefix_front split: phase.splits)
next
  case (writes c k)
  then show ?thesis using assms(2) [of t]
    by (cases "t = s") (auto simp: in_order_def other_cases take_drop_front split: phase.splits)
next
  case (write_fails c)
  then show ?thesis using assms(2) [of t]
    by (cases "t = s") (auto simp: in_order_def dest: prefix_mid split: phase.splits)
next
  case (closes a as r'')
  then show ?thesis using assms(2) [of t]
    by (cases "t = s") (auto simp: in_order_def close_op_flow split: phase.splits)
qed

lemma peer_step_in_order: "peer_step timed r r' \<Longrightarrow> in_order r t \<Longrightarrow> in_order r' t"
  by (erule peer_step.cases) (auto simp: in_order_def prefix_def split: phase.splits)

lemma reach_in_order: "relay_reach tn r \<Longrightarrow> in_order r t"
  by (induction arbitrary: t rule: relay_reach.induct)
    (auto simp: relay_start_def fresh_tcp_def in_order_def [of relay_start] intro: copy_step_in_order peer_step_in_order,
     simp add: in_order_def)

text \<open>A goroutine that writes holds something; a deadline passes only where there is one.\<close>

lemma reach_holds: "relay_reach tn r \<Longrightarrow> phase_of r t = Writing c \<Longrightarrow> c \<noteq> []"
proof (induction arbitrary: t c rule: relay_reach.induct)
  case (copy r s r')
  from copy.hyps(2) copy.IH copy.prems show ?case
    by cases (auto simp: close_op_flow split: if_splits)
next
  case (peer r r')
  from peer.hyps(2) peer.IH peer.prems show ?case by cases auto
qed (simp add: relay_start_def)

lemma copy_step_expired:
  "copy_step closing s r r' \<Longrightarrow> expired (conn_of r' t) = expired (conn_of r t)"
  "copy_step closing s r r' \<Longrightarrow> broken (conn_of r' t) = broken (conn_of r t)"
  by (erule copy_step.cases; auto simp: close_op_flow split: if_splits)+

lemma reach_expired: "relay_reach tn r \<Longrightarrow> expired (conn_of r t) \<Longrightarrow> has_deadline tn t"
  by (induction rule: relay_reach.induct)
    (auto simp: relay_start_def fresh_tcp_def copy_step_expired elim!: peer_step.cases split: if_splits)

text \<open>Nothing has failed: no connection, and no deadline has passed.\<close>

definition unharmed :: "relay_state \<Rightarrow> bool" where
  "unharmed r \<longleftrightarrow> (\<forall>t. \<not> broken (conn_of r t) \<and> \<not> expired (conn_of r t))"

lemma unharmed_parts: "unharmed r \<Longrightarrow> \<not> broken (conn_of r t)" "unharmed r \<Longrightarrow> \<not> expired (conn_of r t)"
  by (simp_all add: unharmed_def)

lemma copy_step_unharmed: "copy_step closing s r r' \<Longrightarrow> unharmed r' \<longleftrightarrow> unharmed r"
  by (simp add: unharmed_def copy_step_expired)

lemma peer_step_unharmed: "peer_step timed r r' \<Longrightarrow> unharmed r' \<Longrightarrow> unharmed r"
  by (erule peer_step.cases) (auto simp: unharmed_def split: if_splits)

section \<open>The work of a relay ends\<close>

definition phase_work :: "(side \<Rightarrow> closing list) \<Rightarrow> side \<Rightarrow> phase \<Rightarrow> nat" where
  "phase_work closing s p = (case p of
     Reading \<Rightarrow> Suc (length (closing s))
   | Writing c \<Rightarrow> Suc (length (closing s)) + length c
   | Ending as \<Rightarrow> length as)"

definition copy_work :: "(side \<Rightarrow> closing list) \<Rightarrow> relay_state \<Rightarrow> side \<Rightarrow> nat" where
  "copy_work closing r s = 2 * length (arrived (conn_of r s)) + phase_work closing s (phase_of r s)"

definition relay_work :: "(side \<Rightarrow> closing list) \<Rightarrow> relay_state \<Rightarrow> nat" where
  "relay_work closing r = copy_work closing r Client + copy_work closing r Upstream"

definition all_offered :: "relay_state \<Rightarrow> nat" where
  "all_offered r = length (offered (conn_of r Client)) + length (offered (conn_of r Upstream))"

lemma relay_work_sides: "relay_work closing r = copy_work closing r s + copy_work closing r (other s)"
  by (cases s) (simp_all add: relay_work_def)

lemma copy_step_work: "copy_step closing s r r' \<Longrightarrow> relay_work closing r' < relay_work closing r"
  by (cases rule: copy_step.cases)
    (auto simp: relay_work_sides [of _ _ s] copy_work_def phase_work_def close_op_flow)

lemma copy_step_offered: "copy_step closing s r r' \<Longrightarrow> all_offered r' = all_offered r"
  by (cases rule: copy_step.cases) (auto simp: all_offered_def close_op_flow)

lemma peer_step_work:
  "peer_step timed r r' \<Longrightarrow> relay_work closing r' + 2 * all_offered r = relay_work closing r + 2 * all_offered r'"
  by (erule peer_step.cases) (auto simp: relay_work_def copy_work_def all_offered_def)

text \<open>However the peers behave: two steps for each byte they send, and the closing.\<close>

lemma relay_after_bounded:
  "relay_after tn n r \<Longrightarrow> n + relay_work (closing_of tn) r \<le> 2 * all_offered r + relay_work (closing_of tn) relay_start"
proof (induction rule: relay_after.induct)
  case (copy n r s r')
  with copy_step_work [OF copy.hyps(2)] copy_step_offered [OF copy.hyps(2)] show ?case by simp
next
  case (peer n r r')
  with peer_step_work [OF peer.hyps(2), of "closing_of tn"] show ?case by simp
qed simp

section \<open>Where a relay stops\<close>

lemma at_rest_phase:
  assumes "relay_reach tn r" and "at_rest tn r"
  shows "phase_of r s = Reading \<and> arrived (conn_of r s) = [] \<and> \<not> no_reads (conn_of r s)
    \<or> blocked r s
    \<or> phase_of r s = Ending []
    \<or> (\<exists>t as. phase_of r s = Ending (AwaitCopy t # as) \<and> \<not> closed_ending r t)"
proof -
  let ?cl = "closing_of tn"
  have rest: "\<not> copy_step ?cl s r r'" for r' using assms(2) by (simp add: at_rest_def)
  show ?thesis
  proof (cases "phase_of r s")
    case Reading
    with rest have nr: "\<not> no_reads (conn_of r s)" by (blast intro: copy_step.read_ends)
    have "\<not> 0 < length (arrived (conn_of r s))"
      using Reading nr rest copy_step.reads [of r s "length (arrived (conn_of r s))" ?cl] by (auto simp: no_reads_def)
    with Reading nr show ?thesis by simp
  next
    case (Writing c)
    then have "0 < length c" using reach_holds [OF assms(1)] by simp
    then have "1 \<le> length c" by (cases c) simp_all
    moreover have nw: "\<not> no_writes (conn_of r (other s))"
      using rest Writing copy_step.write_fails by blast
    ultimately have "\<not> 1 \<le> room (conn_of r (other s))"
      using rest Writing copy_step.writes [of r s c 1 ?cl] zero_less_one by blast
    with Writing nw show ?thesis by (simp add: blocked_def)
  next
    case (Ending as)
    show ?thesis
    proof (cases as)
      case (Cons a bs)
      with Ending rest have "close_op a r = None"
        using copy_step.closes [of r s a bs _ ?cl] by (cases "close_op a r") auto
      with Ending Cons show ?thesis by (cases a) (auto split: if_splits)
    qed (use Ending in simp)
  qed
qed

text \<open>What a goroutine has closed by the time it has that much of its closing actions left.\<close>

definition closes_so_far :: "(side \<Rightarrow> closing list) \<Rightarrow> relay_state \<Rightarrow> side \<Rightarrow> bool" where
  "closes_so_far closing r s \<longleftrightarrow> (\<forall>as. phase_of r s = Ending as \<longrightarrow>
     (\<exists>ds. closing s = ds @ as \<and> (\<forall>t. Close t \<in> set ds \<longrightarrow> shut (conn_of r t))))"

lemma close_op_shut:
  assumes "close_op a r = Some r'"
  shows "shut (conn_of r' t) \<longleftrightarrow> shut (conn_of r t) \<or> a = Close t"
    "half_shut (conn_of r' t) \<longleftrightarrow> half_shut (conn_of r t) \<or> a = CloseWrite t"
  using assms by (cases a; auto split: if_splits)+

lemma copy_step_closes:
  assumes "copy_step closing s r r'" and "\<And>t. closes_so_far closing r t"
  shows "closes_so_far closing r' t"
  using assms(1)
proof cases
  case (closes a as r'')
  then obtain ds where ds: "closing s = ds @ a # as" "\<forall>t. Close t \<in> set ds \<longrightarrow> shut (conn_of r t)"
    using assms(2) [of s] by (auto simp: closes_so_far_def)
  show ?thesis
  proof (cases "t = s")
    case True
    from ds have "closing s = (ds @ [a]) @ as"
      "\<forall>t. Close t \<in> set (ds @ [a]) \<longrightarrow> shut (conn_of r'' t)"
      using closes(3) by (auto simp: close_op_shut)
    then have "\<exists>ds. closing s = ds @ as \<and> (\<forall>t. Close t \<in> set ds \<longrightarrow> shut (conn_of r'' t))" by blast
    with True closes show ?thesis by (simp add: closes_so_far_def)
  next
    case False
    with closes assms(2) [of t] show ?thesis by (auto simp: closes_so_far_def close_op_flow close_op_shut)
  qed
qed (use assms(2) [of t] in \<open>auto simp: closes_so_far_def\<close>)

lemma peer_step_closes: "peer_step timed r r' \<Longrightarrow> closes_so_far closing r t \<Longrightarrow> closes_so_far closing r' t"
  by (erule peer_step.cases) (auto simp: closes_so_far_def)

lemma reach_closes: "relay_reach tn r \<Longrightarrow> closes_so_far (closing_of tn) r t"
  by (induction arbitrary: t rule: relay_reach.induct)
    (simp add: closes_so_far_def relay_start_def, blast intro: copy_step_closes, blast intro: peer_step_closes)

end
