(* ===== verification/Relay_Plans.thy ===== *)
theory Relay_Plans
  imports Relay
begin

text \<open>
  The relays of the two proxies and what each of them guarantees.  Both end with every
  connection closed, unless a goroutine waits for a peer that does not read; that of the
  browser proxy delivers the whole answer if nothing fails within its five minutes, while
  that of the HTTP proxy cuts an exchange off when either peer stops sending.
\<close>

section \<open>The disciplines\<close>

text \<open>\<open>transfer\<close> of the HTTP proxy: destination, then source, in either direction.\<close>

definition transfer_closing :: "side \<Rightarrow> closing list" where
  "transfer_closing s = [Close (other s), Close s]"

text \<open>Neither connection of a tunnel of the HTTP proxy has a deadline.\<close>

definition transfer_tunnel :: tunnel where
  "transfer_tunnel = \<lparr>closing_of = transfer_closing, has_deadline = (\<lambda>s. False)\<rparr>"

text \<open>
  The browser proxy: after the client's data only the writing half of the upstream
  connection is closed; after the answer both connections are, and the other copy is awaited.
\<close>

fun socks_closing :: "side \<Rightarrow> closing list" where
  "socks_closing Client = [CloseWrite Upstream]"
| "socks_closing Upstream = [Close Client, Close Upstream, AwaitCopy Client]"

text \<open>
  Before it relays, the browser proxy clears the deadline of the client's connection and
  gives that of the upstream five minutes.
\<close>

definition socks_tunnel :: tunnel where
  "socks_tunnel = \<lparr>closing_of = socks_closing, has_deadline = (\<lambda>s. s = Upstream)\<rparr>"

section \<open>The contract of a discipline\<close>

text \<open>
  A side is decisive if the end of its copy ends the relay.  Whoever waits has closed both
  connections before, and waits for a goroutine that does not wait.
\<close>

locale relay_plan =
  fixes tn :: tunnel and decisive :: "side \<Rightarrow> bool"
  assumes decisive_closes: "decisive s \<Longrightarrow> Close t \<in> set (closing_of tn s)"
    and closed_before: "closing_of tn s = ds @ AwaitCopy u # as \<Longrightarrow> Close t \<in> set ds"
    and one_waits: "AwaitCopy u \<in> set (closing_of tn s) \<Longrightarrow> AwaitCopy v \<notin> set (closing_of tn u)"
begin

lemma waits_after_closing:
  assumes "relay_reach tn r" and "phase_of r s = Ending (AwaitCopy u # as)"
  shows "shut (conn_of r t) \<and> AwaitCopy u \<in> set (closing_of tn s)"
proof -
  obtain ds where "closing_of tn s = ds @ AwaitCopy u # as" "\<forall>t. Close t \<in> set ds \<longrightarrow> shut (conn_of r t)"
    using reach_closes [OF assms(1), of s] assms(2) by (auto simp: closes_so_far_def)
  then show ?thesis by (auto intro: closed_before)
qed

lemma closed_at_rest:
  assumes reach: "relay_reach tn r" and rest: "at_rest tn r" and shut: "\<And>t. shut (conn_of r t)"
  shows "closed_ending r s"
proof -
  have ends: "closed_ending r t \<or> (\<exists>u as. phase_of r t = Ending (AwaitCopy u # as) \<and> \<not> closed_ending r u)" for t
    using at_rest_phase [OF reach rest, of t] shut [of t] shut [of "other t"]
    by (auto simp: closed_ending_def no_reads_def no_writes_def blocked_def split: phase.splits)
  show ?thesis
  proof (rule ccontr)
    assume "\<not> closed_ending r s"
    then obtain u as where u: "phase_of r s = Ending (AwaitCopy u # as)" "\<not> closed_ending r u" using ends by blast
    then obtain v bs where v: "phase_of r u = Ending (AwaitCopy v # bs)" using ends by blast
    show False
      using waits_after_closing [OF reach u(1)] waits_after_closing [OF reach v] one_waits by blast
  qed
qed

lemma all_closed:
  assumes reach: "relay_reach tn r" and rest: "at_rest tn r"
    and "decisive s" and "ended (conn_of r s) \<or> broken (conn_of r s) \<or> expired (conn_of r s)"
    and free: "\<not> blocked r s"
  shows "closed_ending r t \<and> shut (conn_of r t)"
proof -
  have shut: "shut (conn_of r t)" for t
    using at_rest_phase [OF reach rest, of s]
  proof (elim disjE)
    assume "phase_of r s = Ending []"
    then show ?thesis
      using reach_closes [OF reach, of s] decisive_closes [OF assms(3), of t] by (auto simp: closes_so_far_def)
  next
    assume "\<exists>u as. phase_of r s = Ending (AwaitCopy u # as) \<and> \<not> closed_ending r u"
    then show ?thesis using waits_after_closing [OF reach] by blast
  qed (use assms(4) free in \<open>auto simp: no_reads_def\<close>)
  then show ?thesis using closed_at_rest [OF reach rest] by blast
qed

end

text \<open>A direction is uncut if the other goroutine never closes anything it needs.\<close>

locale uncut_plan = relay_plan +
  fixes source :: side
  assumes others_keep: "Close t \<notin> set (closing_of tn (other source))"
    and writable: "CloseWrite (other source) \<notin> set (closing_of tn t)"
begin

definition intact :: "relay_state \<Rightarrow> bool" where
  "intact r \<longleftrightarrow> (case phase_of r source of
      Ending as \<Rightarrow> put (conn_of r (other source)) = offered (conn_of r source) \<and> ended (conn_of r source)
    | _ \<Rightarrow> \<not> shut (conn_of r source) \<and> \<not> shut (conn_of r (other source))) \<and> \<not> half_shut (conn_of r (other source))"

lemma copy_step_intact:
  assumes "relay_reach tn r" and "copy_step (closing_of tn) s r r'" and "unharmed r" and "intact r"
  shows "intact r'"
proof -
  note ok = unharmed_parts [OF assms(3)]
  show ?thesis
    using assms(2)
  proof cases
    case (closes a as r'')
    have mem: "a \<in> set (closing_of tn s)"
      using reach_closes [OF assms(1), of s] closes(2) by (auto simp: closes_so_far_def)
    show ?thesis
    proof (cases "s = source")
      case True
      with closes assms(4) mem writable [of source] show ?thesis
        by (auto simp: intact_def close_op_flow close_op_shut)
    next
      case False
      then have "s = other source" by (simp add: other_cases)
      with closes assms(4) mem writable [of s] others_keep show ?thesis
        by (auto simp: intact_def close_op_flow close_op_shut split: phase.splits)
    qed
  next
    case (writes c k)
    with assms(4) show ?thesis
      by (cases "s = source") (auto simp: intact_def split: phase.splits)
  next
    case (write_fails c)
    with assms(4) ok show ?thesis
      by (cases "s = source") (auto simp: intact_def no_writes_def split: phase.splits)
  next
    case (reads n)
    with assms(4) show ?thesis
      by (cases "s = source") (auto simp: intact_def split: phase.splits)
  next
    case read_ends
    with assms(4) ok reach_in_order [OF assms(1), of source] show ?thesis
      by (cases "s = source") (auto simp: intact_def in_order_def no_reads_def split: phase.splits)
  qed
qed

lemma peer_step_intact: "peer_step timed r r' \<Longrightarrow> unharmed r' \<Longrightarrow> intact r \<Longrightarrow> intact r'"
  by (erule peer_step.cases) (auto simp: intact_def unharmed_def split: phase.splits if_splits)

lemma reach_intact: "relay_reach tn r \<Longrightarrow> unharmed r \<Longrightarrow> intact r"
proof (induction rule: relay_reach.induct)
  case start
  show ?case by (simp add: intact_def relay_start_def fresh_tcp_def)
next
  case (copy r s r')
  with copy_step_unharmed [OF copy.hyps(2)] show ?case by (blast intro: copy_step_intact)
next
  case (peer r r')
  with peer_step_unharmed [OF peer.hyps(2)] show ?case by (blast intro: peer_step_intact)
qed

lemma delivers_all:
  assumes "relay_reach tn r" and "unharmed r" and "phase_of r source = Ending as"
  shows "put (conn_of r (other source)) = offered (conn_of r source) \<and> ended (conn_of r source)"
  using reach_intact [OF assms(1,2)] assms(3) by (auto simp: intact_def)

end

interpretation http_tunnel: relay_plan transfer_tunnel "\<lambda>s. True"
  by unfold_locales
    (auto simp: transfer_tunnel_def transfer_closing_def other_cases append_eq_Cons_conv Cons_eq_append_conv)

interpretation browser_tunnel: uncut_plan socks_tunnel "\<lambda>s. s = Upstream" Upstream
proof unfold_locales
  show "s = Upstream \<Longrightarrow> Close t \<in> set (closing_of socks_tunnel s)" for s t
    by (cases t) (simp_all add: socks_tunnel_def)
  show "closing_of socks_tunnel s = ds @ AwaitCopy u # as \<Longrightarrow> Close t \<in> set ds" for s ds u as t
    by (cases s; cases t) (auto simp: socks_tunnel_def Cons_eq_append_conv)
  show "AwaitCopy u \<in> set (closing_of socks_tunnel s) \<Longrightarrow> AwaitCopy v \<notin> set (closing_of socks_tunnel u)" for u v s
    by (cases s) (auto simp: socks_tunnel_def)
  show "CloseWrite (other Upstream) \<notin> set (closing_of socks_tunnel t)" for t
    by (cases t) (simp_all add: socks_tunnel_def)
qed (simp add: socks_tunnel_def)

section \<open>Runs of the two tunnels\<close>

lemmas start_states = relay_start_def fresh_tcp_def

lemma tcp_same: "arrived c = [] \<Longrightarrow> c\<lparr>arrived := []\<rparr> = c" "c\<lparr>put := put c, room := room c\<rparr> = c"
  by (cases c; simp)+

text \<open>A direction that nobody disturbs copies all that has arrived, if the other peer reads it.\<close>

lemma copies_all:
  assumes "relay_reach tn r" and "phase_of r s = Reading"
    and "\<not> shut (conn_of r s)" and "\<not> broken (conn_of r s)" and "\<not> expired (conn_of r s)"
    and "\<not> no_writes (conn_of r (other s))" and "length (arrived (conn_of r s)) \<le> room (conn_of r (other s))"
  shows "\<exists>r'. relay_reach tn r' \<and> phase_of r' = phase_of r
     \<and> conn_of r' = (conn_of r)(s := (conn_of r s)\<lparr>arrived := []\<rparr>,
         other s := (conn_of r (other s))\<lparr>put := put (conn_of r (other s)) @ arrived (conn_of r s),
           room := room (conn_of r (other s)) - length (arrived (conn_of r s))\<rparr>)"
proof (cases "arrived (conn_of r s) = []")
  case True
  then have "conn_of r = (conn_of r)(s := (conn_of r s)\<lparr>arrived := []\<rparr>,
      other s := (conn_of r (other s))\<lparr>put := put (conn_of r (other s)) @ arrived (conn_of r s),
           room := room (conn_of r (other s)) - length (arrived (conn_of r s))\<rparr>)"
    by (simp add: tcp_same)
  with assms(1) show ?thesis by blast
next
  case False
  define n where "n = length (arrived (conn_of r s))"
  have n: "0 < n" "take n (arrived (conn_of r s)) = arrived (conn_of r s)" "drop n (arrived (conn_of r s)) = []"
    using False by (simp_all add: n_def)
  define r1 where "r1 = goto s (Writing (arrived (conn_of r s))) (upd_conn s (arrived_update (drop n)) r)"
  define r2 where "r2 = goto s Reading
    (upd_conn (other s) (\<lambda>d. d\<lparr>put := put d @ take n (arrived (conn_of r s)), room := room d - n\<rparr>) r1)"
  have "copy_step (closing_of tn) s r r1"
    using copy_step.reads [of r s n "closing_of tn"] assms n by (simp add: r1_def n_def)
  moreover have "copy_step (closing_of tn) s r1 r2"
    using copy_step.writes [of r1 s "arrived (conn_of r s)" n "closing_of tn"] assms n(1)
    by (simp add: r1_def r2_def n_def)
  ultimately have "relay_reach tn r2" using assms(1) by (blast intro: relay_reach.copy)
  moreover have "conn_of r2 = (conn_of r)(s := (conn_of r s)\<lparr>arrived := []\<rparr>,
      other s := (conn_of r (other s))\<lparr>put := put (conn_of r (other s)) @ arrived (conn_of r s), room := room (conn_of r (other s)) - n\<rparr>)"
    using n by (simp add: r1_def r2_def fun_eq_iff upd_conn_def goto_def)
  moreover have "phase_of r2 = phase_of r" using assms(2) by (simp add: r1_def r2_def fun_eq_iff)
  ultimately show ?thesis by (simp add: n_def) blast
qed

text \<open>
  A side has sent \<open>bs\<close>, the other has read it, and nothing else has happened.
\<close>

definition passed :: "side \<Rightarrow> bytes \<Rightarrow> relay_state" where
  "passed s bs = relay_start\<lparr>conn_of := (conn_of relay_start)(
     s := fresh_tcp\<lparr>offered := bs\<rparr>, other s := fresh_tcp\<lparr>put := bs\<rparr>)\<rparr>"

lemma passed_reach: "relay_reach tn (passed s bs)"
proof -
  let ?send = "\<lambda>c. c\<lparr>offered := offered c @ bs, arrived := arrived c @ bs\<rparr>"
  define r1 where "r1 = upd_conn s ?send relay_start"
  define r2 where "r2 = upd_conn (other s) (room_update (\<lambda>m. m + length bs)) r1"
  note states = r1_def r2_def start_states
  have "relay_reach tn r1" unfolding r1_def
    by (rule relay_reach.peer [OF relay_reach.start peer_step.sends]) (simp add: start_states)
  then have "relay_reach tn r2" unfolding r2_def by (rule relay_reach.peer [OF _ peer_step.takes])
  from copies_all [OF this, of s] obtain r3 where r3: "relay_reach tn r3" "phase_of r3 = phase_of r2"
    and conn: "conn_of r3 = (conn_of r2)(s := (conn_of r2 s)\<lparr>arrived := []\<rparr>,
       other s := (conn_of r2 (other s))\<lparr>put := bs, room := 0\<rparr>)"
    by (auto simp: states no_writes_def upd_conn_def)
  have "r3 = passed s bs"
    using r3(2) by (intro relay_state.equality) (simp_all add: conn passed_def states upd_conn_def fun_eq_iff)
  with r3(1) show ?thesis by simp
qed

lemma passed_sel:
  "conn_of (passed s bs) s = fresh_tcp\<lparr>offered := bs\<rparr>"
  "conn_of (passed s bs) (other s) = fresh_tcp\<lparr>put := bs\<rparr>"
  "phase_of (passed s bs) t = Reading"
  by (simp_all add: passed_def start_states)

text \<open>
  How the relay of the HTTP proxy closes once nothing can be read from the client: six steps,
  which move no byte.
\<close>

lemma transfer_shutdown:
  assumes "relay_reach transfer_tunnel r"
    and "phase_of r Client = Reading" and "phase_of r Upstream = Reading" and "no_reads (conn_of r Client)"
  shows "\<exists>r'. relay_reach transfer_tunnel r'
    \<and> (\<forall>t. closed_ending r' t \<and> conn_of r' t = (conn_of r t)\<lparr>shut := True\<rparr>)"
proof -
  let ?shut = "shut_update (\<lambda>_. True)"
  define a where "a = goto Client (Ending (transfer_closing Client)) r"
  define b where "b = goto Client (Ending [Close Client]) (upd_conn Upstream ?shut a)"
  define c where "c = goto Client (Ending []) (upd_conn Client ?shut b)"
  define d where "d = goto Upstream (Ending (transfer_closing Upstream)) c"
  define e where "e = goto Upstream (Ending [Close Upstream]) (upd_conn Client ?shut d)"
  define f where "f = goto Upstream (Ending []) (upd_conn Upstream ?shut e)"
  note states = a_def b_def c_def d_def e_def f_def
  have step: "copy_step transfer_closing s x y \<Longrightarrow> relay_reach transfer_tunnel x \<Longrightarrow> relay_reach transfer_tunnel y" for s x y
    by (rule relay_reach.copy [of _ x s]) (simp_all add: transfer_tunnel_def)
  have "relay_reach transfer_tunnel a"
    by (rule step [OF _ assms(1)]) (unfold a_def, rule copy_step.read_ends, simp_all add: assms)
  then have "relay_reach transfer_tunnel b"
    by (rule step [rotated]) (unfold b_def, rule copy_step.closes [where a = "Close Upstream"], simp_all add: a_def transfer_closing_def)
  then have "relay_reach transfer_tunnel c"
    by (rule step [rotated]) (unfold c_def, rule copy_step.closes [where a = "Close Client"], simp_all add: b_def)
  then have "relay_reach transfer_tunnel d"
    by (rule step [rotated]) (unfold d_def, rule copy_step.read_ends, simp_all add: states assms no_reads_def)
  then have "relay_reach transfer_tunnel e"
    by (rule step [rotated]) (unfold e_def, rule copy_step.closes [where a = "Close Client"], simp_all add: d_def transfer_closing_def)
  then have "relay_reach transfer_tunnel f"
    by (rule step [rotated]) (unfold f_def, rule copy_step.closes [where a = "Close Upstream"], simp_all add: e_def)
  moreover have "closed_ending f t \<and> conn_of f t = (conn_of r t)\<lparr>shut := True\<rparr>" for t
    by (cases t) (simp_all add: states closed_ending_def)
  ultimately show ?thesis by blast
qed

text \<open>The client has sent its request and stopped, the upstream has read it and answered.\<close>

definition answered :: "bytes \<Rightarrow> bytes \<Rightarrow> relay_state" where
  "answered request answer = upd_conn Upstream (\<lambda>c. c\<lparr>offered := offered c @ answer, arrived := arrived c @ answer\<rparr>)
     (upd_conn Client (ended_update (\<lambda>_. True)) (passed Client request))"

lemma answered_sel:
  "conn_of (answered request answer) Client = fresh_tcp\<lparr>offered := request, ended := True\<rparr>"
  "conn_of (answered request answer) Upstream = fresh_tcp\<lparr>put := request, offered := answer, arrived := answer\<rparr>"
  "phase_of (answered request answer) t = Reading"
  using passed_sel(2) [of Client request] by (simp_all add: answered_def passed_sel fresh_tcp_def)

lemma answered_reach: "relay_reach tn (answered request answer)"
proof -
  have "relay_reach tn (upd_conn Client (ended_update (\<lambda>_. True)) (passed Client request))"
    by (rule relay_reach.peer [OF passed_reach peer_step.ends])
  then show ?thesis unfolding answered_def
    by (rule relay_reach.peer [OF _ peer_step.sends]) (use passed_sel(2) [of Client request] in \<open>simp add: fresh_tcp_def\<close>)
qed

lemma answered_closed:
  "\<exists>r. relay_reach transfer_tunnel r \<and> (\<forall>t. closed_ending r t)
     \<and> (\<forall>t. conn_of r t = (conn_of (answered request answer) t)\<lparr>shut := True\<rparr>)"
  using transfer_shutdown [OF answered_reach, of request answer] by (auto simp: answered_sel no_reads_def fresh_tcp_def)

lemma finished_rests: "(\<And>t. closed_ending r t) \<Longrightarrow> at_rest tn r"
  by (auto simp: at_rest_def closed_ending_def elim: copy_step.cases)









section \<open>Properties\<close>

text \<open>C14. Both relays end unless a peer stops reading.  Whatever the peers do, the goroutines of a relay
take at most two steps for each byte sent to it and six more; and where they can take no step after
a side that ends the relay is over (for the HTTP proxy either side, for the browser proxy the
upstream: it has finished sending, its connection has failed or its deadline has passed), both
goroutines have returned and both connections are closed, except when the goroutine that reads this
side is blocked, holding bytes for a peer that does not take them.\<close>

theorem relays_end:
  assumes "tn = transfer_tunnel \<or> tn = socks_tunnel \<and> s = Upstream" and "relay_after tn n r"
  shows "n \<le> 2 * (length (offered (conn_of r Client)) + length (offered (conn_of r Upstream))) + 6
    \<and> (at_rest tn r \<and> (ended (conn_of r s) \<or> broken (conn_of r s) \<or> expired (conn_of r s))
        \<longrightarrow> blocked r s \<or> (\<forall>t. closed_ending r t \<and> shut (conn_of r t)))"
proof -
  have "relay_work (closing_of tn) relay_start = 6"
    using assms(1) by (auto simp: relay_work_def copy_work_def phase_work_def start_states
      transfer_tunnel_def transfer_closing_def socks_tunnel_def)
  with relay_after_bounded [OF assms(2)]
  have "n \<le> 2 * (length (offered (conn_of r Client)) + length (offered (conn_of r Upstream))) + 6"
    by (simp add: all_offered_def)
  with assms(1) show ?thesis
    using http_tunnel.all_closed browser_tunnel.all_closed relay_after_reach [OF assms(2)] by blast
qed


text \<open>C16. The browser proxy delivers answers: when the goroutine that copies the upstream's data has ended,
the upstream has finished and every byte it sent has been written to the client, even if the client
stopped sending long before, unless a connection has failed or the five minutes that the upstream's
connection is given have passed; in these cases what has been written is a prefix of the answer.\<close>

theorem socks_delivers:
  assumes "relay_reach socks_tunnel r" and "phase_of r Upstream = Ending as"
  shows "prefix (put (conn_of r Client)) (offered (conn_of r Upstream))
    \<and> (ended (conn_of r Upstream) \<and> put (conn_of r Client) = offered (conn_of r Upstream)
      \<or> (\<exists>t. broken (conn_of r t)) \<or> expired (conn_of r Upstream))"
proof -
  have "\<not> expired (conn_of r Client)"
    using reach_expired [OF assms(1), of Client] by (auto simp: socks_tunnel_def)
  then have "unharmed r \<or> (\<exists>t. broken (conn_of r t)) \<or> expired (conn_of r Upstream)"
    unfolding unharmed_def by (metis side.exhaust)
  moreover have "prefix (put (conn_of r Client)) (offered (conn_of r Upstream))"
    using reach_in_order [OF assms(1), of Upstream] assms(2) by (simp add: in_order_def)
  ultimately show ?thesis
    using browser_tunnel.delivers_all [OF assms(1) _ assms(2)] by auto
qed

text \<open>The deadline does cut answers: here a rest has arrived, nothing has failed, and it is not delivered.\<close>

lemma deadline_cuts:
  "\<exists>r. relay_reach socks_tunnel r \<and> phase_of r Upstream = Ending (socks_closing Upstream) \<and> (\<forall>t. \<not> broken (conn_of r t))
    \<and> offered (conn_of r Upstream) = part @ rest \<and> put (conn_of r Client) = part"
proof -
  define r1 where "r1 = upd_conn Upstream (\<lambda>c. c\<lparr>offered := offered c @ rest, arrived := arrived c @ rest\<rparr>) (passed Upstream part)"
  define r2 where "r2 = upd_conn Upstream (expired_update (\<lambda>_. True)) r1"
  define r3 where "r3 = goto Upstream (Ending (socks_closing Upstream)) r2"
  note states = r1_def r2_def r3_def passed_sel passed_sel(2) [of Upstream part, simplified] fresh_tcp_def
  have "relay_reach socks_tunnel r1" unfolding r1_def
    by (rule relay_reach.peer [OF passed_reach peer_step.sends]) (simp add: passed_sel fresh_tcp_def)
  then have "relay_reach socks_tunnel r2" unfolding r2_def
    by (rule relay_reach.peer [OF _ peer_step.expires]) (simp add: socks_tunnel_def)
  moreover have "copy_step (closing_of socks_tunnel) Upstream r2 r3"
    using copy_step.read_ends [of r2 Upstream "closing_of socks_tunnel"] by (simp add: states no_reads_def socks_tunnel_def)
  ultimately have "relay_reach socks_tunnel r3" by (rule relay_reach.copy)
  moreover have "\<not> broken (conn_of r3 t)" for t by (cases t) (simp_all add: states)
  ultimately show ?thesis by (intro exI [of _ r3]) (simp add: states)
qed

text \<open>C27. The HTTP proxy cuts half-closed exchanges off: for every request and every answer there is a
run without any failure in which the client sends its request and stops sending, the request is
delivered, the upstream sends its answer, and both connections are closed with none of it delivered.\<close>

theorem half_close_cuts:
  "\<exists>r. relay_reach transfer_tunnel r \<and> (\<forall>t. \<not> broken (conn_of r t) \<and> closed_ending r t \<and> shut (conn_of r t))
    \<and> offered (conn_of r Client) = request \<and> put (conn_of r Upstream) = request
    \<and> offered (conn_of r Upstream) = answer \<and> put (conn_of r Client) = []"
proof -
  obtain r where r: "relay_reach transfer_tunnel r" "\<And>t. closed_ending r t"
    "\<And>t. conn_of r t = (conn_of (answered request answer) t)\<lparr>shut := True\<rparr>"
    using answered_closed by blast
  have "\<not> broken (conn_of r t) \<and> closed_ending r t \<and> shut (conn_of r t)" for t
    by (cases t) (simp_all add: r answered_sel fresh_tcp_def)
  with r(1) show ?thesis by (intro exI [of _ r]) (simp add: r(3) answered_sel fresh_tcp_def)
qed

text \<open>The client sends three bytes and stops, the upstream reads them, and the relay closes.\<close>

lemma relays_end_witness:
  "\<exists>n r. relay_after transfer_tunnel n r \<and> n \<le> 12 \<and> put (conn_of r Upstream) = [1, 2, 3]
     \<and> (\<forall>t. closed_ending r t \<and> shut (conn_of r t))"
proof -
  obtain r where r: "relay_reach transfer_tunnel r" "\<And>t. closed_ending r t"
    "\<And>t. conn_of r t = (conn_of (answered [1, 2, 3] []) t)\<lparr>shut := True\<rparr>"
    using answered_closed by blast
  then obtain n where n: "relay_after transfer_tunnel n r" using relay_reach_after by blast
  have "\<not> blocked r Client" "at_rest transfer_tunnel r" "ended (conn_of r Client)"
    using r(2) [of Client] finished_rests [of r, OF r(2)] by (auto simp: blocked_def closed_ending_def r(3) answered_sel)
  with relays_end [of transfer_tunnel Client n r] n show ?thesis
    by (intro exI [of _ n] exI [of _ r]) (simp add: r(3) answered_sel fresh_tcp_def)
qed


text \<open>The client is gone, then the upstream answers two bytes and stops.\<close>

lemma socks_delivers_witness:
  "\<exists>r. relay_reach socks_tunnel r \<and> ended (conn_of r Client) \<and> ended (conn_of r Upstream) \<and> put (conn_of r Client) = [1, 2]"
proof -
  define r1 where "r1 = upd_conn Client (ended_update (\<lambda>_. True)) (passed Upstream [1, 2])"
  define r2 where "r2 = upd_conn Upstream (ended_update (\<lambda>_. True)) r1"
  define r3 where "r3 = goto Upstream (Ending (socks_closing Upstream)) r2"
  note states = r1_def r2_def r3_def passed_sel passed_sel(2) [of Upstream "[1, 2]", simplified] fresh_tcp_def
  have "relay_reach socks_tunnel r1" unfolding r1_def by (rule relay_reach.peer [OF passed_reach peer_step.ends])
  then have "relay_reach socks_tunnel r2" unfolding r2_def by (rule relay_reach.peer [OF _ peer_step.ends])
  moreover have "copy_step (closing_of socks_tunnel) Upstream r2 r3"
    using copy_step.read_ends [of r2 Upstream "closing_of socks_tunnel"] by (simp add: states no_reads_def socks_tunnel_def)
  ultimately have reach: "relay_reach socks_tunnel r3" by (rule relay_reach.copy)
  have "\<not> broken (conn_of r3 t)" "\<not> expired (conn_of r3 Upstream)" for t by (cases t; simp add: states)+
  with socks_delivers [OF reach, of "socks_closing Upstream"]
  have "put (conn_of r3 Client) = offered (conn_of r3 Upstream)" by (simp add: r3_def)
  with reach show ?thesis by (intro exI [of _ r3]) (simp add: states)
qed

end
