(* ===== verification/Pages.thy ===== *)
theory Pages
  imports Phone_Config
begin

text \<open>
  The static routes of the dashboard (\<open>ServePhones\<close> in \<^verbatim>\<open>server.go\<close>): the page and the script
  are two embedded files, arguments here, in which pieces of text are replaced according to
  the environment.  \<open>is_print\<close> is the table of printable characters beyond ASCII that
  \<open>strconv.Quote\<close> consults.
\<close>

section \<open>Replacing and quoting\<close>

text \<open>\<open>strings.ReplaceAll\<close> and \<open>strings.Replace\<close> with one replacement, for a non-empty pattern.\<close>

function replace_all :: "string \<Rightarrow> string \<Rightarrow> string \<Rightarrow> string" where
  "replace_all s old new =
    (if s = [] \<or> old = [] then s
     else if has_prefix s old then new @ replace_all (drop (length old) s) old new
     else hd s # replace_all (tl s) old new)"
  by pat_completeness auto
termination
  by (relation "measure (\<lambda>(s, old, new). length s)") auto

declare replace_all.simps [simp del]

fun replace_first :: "string \<Rightarrow> string \<Rightarrow> string \<Rightarrow> string" where
  "replace_first [] old new = []"
| "replace_first (c # s) old new =
    (if has_prefix (c # s) old then new @ drop (length old) (c # s) else c # replace_first s old new)"

definition hex_digit :: "nat \<Rightarrow> char" where
  "hex_digit n = ''0123456789abcdef'' ! (n mod 16)"

definition hex_digits :: "nat \<Rightarrow> nat \<Rightarrow> string" where
  "hex_digits k n = map (\<lambda>i. hex_digit (n div 16 ^ i)) (rev [0..<k])"

definition backslash :: char where "backslash = CHR 0x5C"

definition double_quote :: char where "double_quote = CHR 0x22"

definition simple_escape :: "nat \<Rightarrow> char option" where
  "simple_escape r = map_of [(7, CHR ''a''), (8, CHR ''b''), (12, CHR ''f''), (10, CHR ''n''), (13, CHR ''r''),
     (9, CHR ''t''), (11, CHR ''v'')] r"

text \<open>One character, as its code and its bytes; an ill-formed byte is escaped.\<close>

fun quote_rune :: "(nat \<Rightarrow> bool) \<Rightarrow> nat \<times> string \<Rightarrow> string" where
  "quote_rune is_print (r, bytes) =
    (if r = rune_error \<and> length bytes = 1 then [backslash, CHR ''x''] @ hex_digits 2 (of_char (hd bytes))
     else if r = 0x22 \<or> r = 0x5C then backslash # bytes
     else if in_range 0x20 0x7E r \<or> 0x7F < r \<and> is_print r then bytes
     else (case simple_escape r of
        Some c \<Rightarrow> [backslash, c]
      | None \<Rightarrow>
          if r < 0x20 \<or> r = 0x7F then [backslash, CHR ''x''] @ hex_digits 2 r
          else if r < 0x10000 then [backslash, CHR ''u''] @ hex_digits 4 r
          else [backslash, CHR ''U''] @ hex_digits 8 r))"

definition go_quote :: "(nat \<Rightarrow> bool) \<Rightarrow> string \<Rightarrow> string" where
  "go_quote is_print s = [double_quote] @ concat (map (quote_rune is_print) (runes s)) @ [double_quote]"

section \<open>The pages\<close>

record page_response =
  pg_code :: nat
  pg_header :: "(string \<times> string) list"
  pg_body :: string

definition apostrophe :: string where "apostrophe = [CHR 0x27]"

definition quoted :: "string \<Rightarrow> string" where
  "quoted s = apostrophe @ s @ apostrophe"

definition both_ids :: string where
  "both_ids = ''['' @ quoted ''1'' @ '','' @ quoted ''2'' @ '']''"

definition both_phones :: string where
  "both_phones = ''phoneMarkup('' @ quoted ''1'' @ '','' @ quoted ''Phone A'' @ '','' @ quoted ''B'' @ '')+phoneMarkup(''
     @ quoted ''2'' @ '','' @ quoted ''Phone B'' @ '','' @ quoted ''A'' @ '')''"

definition enhancements_page :: "environment \<Rightarrow> string \<Rightarrow> page_response" where
  "enhancements_page env script = \<lparr>pg_code = 200,
     pg_header = [(''Content-Type'', ''application/javascript; charset=utf-8''), (''Cache-Control'', ''no-cache'')],
     pg_body = replace_all script both_ids (phone_ids env)\<rparr>"

definition health_page :: page_response where
  "health_page = \<lparr>pg_code = 200, pg_header = [], pg_body = ''ok''\<rparr>"

definition one_phone_style :: string where
  "one_phone_style = ''.phones{grid-template-columns:minmax(270px,390px);justify-content:center}.sidebar{display:none}''
     @ ''.shell{grid-template-columns:1fr}.main{max-width:900px;width:100%;margin:auto}</style>''"

text \<open>The page of a deployment with one phone.\<close>

definition one_phone_page :: "(nat \<Rightarrow> bool) \<Rightarrow> environment \<Rightarrow> string \<Rightarrow> string" where
  "one_phone_page is_print env page =
    (let id = env ''PHONE_ID''; peer = (if id = ''2'' then ''A'' else ''B'') in
     if id = [] then page
     else
       (let page = replace_first page both_phones
              (''phoneMarkup('' @ go_quote is_print id @ '','' @ go_quote is_print (env ''PHONE_NAME'') @ '',''
                @ go_quote is_print peer @ '')'');
            page = replace_all page ''Register both phones'' ''Register phone'';
            page = replace_all page ''Two subscribers. One private network.'' ''One subscriber. Your private network.'' in
        replace_first page ''</style>'' one_phone_style))"

text \<open>The typographic apostrophe and the middle dot of the texts, in UTF-8.\<close>

definition right_quote :: string where "right_quote = [CHR 0xE2, CHR 0x80, CHR 0x99]"

definition middle_dot :: string where "middle_dot = [CHR 0xC2, CHR 0xB7]"

definition internet_page :: "environment \<Rightarrow> string \<Rightarrow> string" where
  "internet_page env page =
    (if services_enabled env then page
     else
       (let page = replace_first page ''<body>''
              (''<body class='' @ [double_quote] @ ''internet-only'' @ [double_quote] @ ''>'');
            page = replace_all page ''Your network, in your hands.'' ''Your mobile data connection.'';
            page = replace_all page
              (''Register your phones, make an IMS call, or send a message.<br>Every action travels ''
                @ ''through your live Ella Core.'')
              (''Browse and test connectivity through your UE'' @ right_quote @ ''s internet PDU session.'') in
        replace_all page
          (''Lab simulator '' @ middle_dot @ '' Calls use synthetic RTP test packets; browser microphone and ''
            @ ''speaker audio are not connected. Messages are real NAS SMS through Ella SMSC. ''
            @ ''Session history resets when this simulator restarts.'')
          (''Internet-only simulator '' @ middle_dot @ '' Website traffic and DNS use this UE'' @ right_quote
            @ ''s data session. IMS and SMS are disabled.'')))"

definition content_policy :: string where
  "content_policy = ''default-src '' @ quoted ''self'' @ ''; script-src '' @ quoted ''self'' @ '' '' @ quoted ''unsafe-inline''
     @ ''; style-src '' @ quoted ''self'' @ '' '' @ quoted ''unsafe-inline'' @ ''; frame-ancestors '' @ quoted ''none''"

definition not_found :: page_response where
  "not_found = \<lparr>pg_code = 404,
     pg_header = [(''Content-Type'', ''text/plain; charset=utf-8''), (''X-Content-Type-Options'', ''nosniff'')],
     pg_body = ''404 page not found'' @ [CHR 0x0A]\<rparr>"

definition index_page :: "(nat \<Rightarrow> bool) \<Rightarrow> environment \<Rightarrow> string \<Rightarrow> string \<Rightarrow> page_response" where
  "index_page is_print env html path =
    (if path \<noteq> ''/'' then not_found
     else \<lparr>pg_code = 200,
       pg_header = [(''Content-Type'', ''text/html; charset=utf-8''), (''X-Content-Type-Options'', ''nosniff''),
         (''Content-Security-Policy'', content_policy)],
       pg_body = internet_page env (one_phone_page is_print env (replace_all html both_ids (phone_ids env)))\<rparr>)"

section \<open>The server\<close>

record phone_server =
  sv_address :: string
  sv_read_header_timeout :: nat
  sv_read_timeout :: nat
  sv_write_timeout :: nat
  sv_idle_timeout :: nat
  sv_max_header_bytes :: nat

text \<open>The server that is started when the checks of the environment pass.\<close>

definition phone_server_for :: "environment \<Rightarrow> string \<Rightarrow> string + phone_server" where
  "phone_server_for env address = map_sum id (\<lambda>a. \<lparr>sv_address = a, sv_read_header_timeout = 5,
     sv_read_timeout = 10, sv_write_timeout = 40, sv_idle_timeout = 60, sv_max_header_bytes = 16384\<rparr>)
     (serve_address env address)"

section \<open>What the replacements do\<close>

lemma has_prefix_append: "has_prefix s old \<longleftrightarrow> (\<exists>t. s = old @ t)"
  by (metis append_eq_conv_conj append_take_drop_id has_prefix_def)

lemma replace_all_absent: "(\<And>a b. s \<noteq> a @ old @ b) \<Longrightarrow> replace_all s old new = s"
proof (induction s)
  case (Cons c s)
  have "\<not> has_prefix (c # s) old" using Cons.prems [of "[]"] by (auto simp: has_prefix_append)
  moreover have "replace_all s old new = s"
    using Cons.prems by (intro Cons.IH) (metis append_Cons)
  ultimately show ?case by (simp add: replace_all.simps [of "c # s"])
qed (simp add: replace_all.simps)

lemma replace_all_itself: "replace_all s old old = s"
proof (induction "length s" arbitrary: s rule: less_induct)
  case less
  show ?case
  proof (cases "s = [] \<or> old = []")
    case False
    then have "replace_all (drop (length old) s) old old = drop (length old) s" "replace_all (tl s) old old = tl s"
      by (simp_all add: less)
    with False show ?thesis by (auto simp: replace_all.simps [of s] has_prefix_append)
  qed (auto simp: replace_all.simps)
qed

text \<open>Without settings that ask for another page, the embedded files are served as they are.\<close>

lemma phone_ids_default: "env ''PHONE_ID'' \<noteq> ''1'' \<Longrightarrow> env ''PHONE_ID'' \<noteq> ''2'' \<Longrightarrow> phone_ids env = both_ids"
  by (simp add: phone_ids_def both_ids_def quoted_def apostrophe_def)

lemma default_page:
  assumes "env ''PHONE_ID'' = []" and "services_enabled env"
  shows "pg_body (index_page is_print env html ''/'') = html" "pg_body (enhancements_page env script) = script"
  using assms
  by (simp_all add: index_page_def one_phone_page_def internet_page_def enhancements_page_def phone_ids_default
      replace_all_itself)

text \<open>A printable ASCII text without quotes and backslashes is quoted as it stands.\<close>

lemma go_quote_plain:
  assumes "list_all (\<lambda>c. in_range 0x20 0x7E (of_char c) \<and> of_char c \<noteq> (0x22 :: nat) \<and> of_char c \<noteq> (0x5C :: nat)) s"
  shows "go_quote is_print s = [double_quote] @ s @ [double_quote]"
proof -
  have r: "runes s = map (\<lambda>c. (of_char c, [c])) s"
    using assms by (intro runes_ascii) (auto simp: list_all_iff in_range_def)
  have "map (quote_rune is_print \<circ> (\<lambda>c. (of_char c, [c]))) s = map (\<lambda>c. [c]) s"
    using assms by (intro map_cong) (auto simp: list_all_iff rune_error_def in_range_def)
  then have "concat (map (quote_rune is_print) (runes s)) = s"
    unfolding r map_map by (simp only: concat_map_singleton map_ident)
  then show ?thesis by (simp add: go_quote_def)
qed

end
