(* ===== verification/Spec2Isabelle.thy ===== *)
theory Spec2Isabelle
  imports Dash_Runs Dash_Receive Attach_Props Socks_Props Web_Props Proxy_Props Relay_Plans Pages
begin

text \<open>
  The Go programs of the telco laboratory: the dashboard of simulated phones
  (\<^verbatim>\<open>src/ella-core/ue-phones/app\<close>) and the HTTP proxy of a UE
  (\<^verbatim>\<open>src/images/5g-ue-http-proxy/main.go\<close>).

  \<^bold>\<open>The dashboard.\<close>  One process attaches up to two simulated UEs to a 5G core, serves a
  web page with their state, and turns requests into radio, SMS and IMS operations; a
  browser in the same pod reaches the web through the UE by a SOCKS proxy.  Its state is
  the record \<open>phone_dashboard\<close> of \<open>phone_message\<close>, \<open>phone_event\<close> and \<open>dashboard_phone\<close>
  (\<open>Phone_State\<close>, server.go 31-81), shared by goroutines under mutexes.

  \<^bold>\<open>Concurrency.\<close>  \<open>Goroutine\<close> holds the programs of goroutines as trees of atomic actions:
  a section under a mutex, a call of outside code, a wait, a \<^verbatim>\<open>go\<close> statement.  \<open>exec\<close> is an
  undisturbed run, \<open>pool_step\<close> and \<open>pool_run\<close> interleave goroutines in any order, with
  requests arriving and the world changing at any time.  A loop of the source is a task
  that returns the task it goes on with.  The locale \<open>goroutines\<close> turns what every action
  keeps and guarantees into invariants of all runs; \<open>Lock\<close> adds mutual exclusion
  (locale \<open>mutex\<close>).

  \<^bold>\<open>Parts and theories.\<close>
  \<^item> \<open>Go_Text\<close>, \<open>Go_Url\<close>, \<open>Go_Http\<close>: what the code uses of strings, UTF-8, \<^verbatim>\<open>net/url\<close>,
    headers and JSON objects.
  \<^item> \<open>Phone_Config\<close> (mode.go, parts of phone_gnb.go and server.go): settings, checks, numbers.
  \<^item> \<open>Phone_Api\<close>: the outside as records of functions over a world of arbitrary type (radio
    and kernel, connections, web, Chromium, SMS and IMS, clock), the tasks and the actions.
  \<^item> \<open>Attach\<close>: \<open>initialize\<close> with the gNB, the registration, the policy routes of each phone
    and the firewall of the browser; \<open>Attach_Props\<close>: it always ends, how the dashboard
    shows the end, and where packets go afterwards, over a model of rules, tables and links.
  \<^item> \<open>Socks\<close> and \<open>Rtp\<close>: the SOCKS handshake and the voice packet; \<open>Socks_Props\<close> reads back
    what a client or sender encodes, and shows that whatever a client of the proxy sends, only
    public addresses on web ports are dialled.
  \<^item> \<open>Public_Web\<close>, \<open>Web_Client\<close>, \<open>Web_Reader\<close> (browse.go): the admission of URLs and
    addresses (locale \<open>web_guard\<close>), the client that dials checked addresses from the phone's
    address and follows at most four redirects, and the two renderings of a page;
    \<open>Web_Props\<close> bounds what can be dialled, requested, listed and shown.
  \<^item> \<open>Browse\<close> (browse.go, browser.go): the handlers for pages and for the remote browser.
  \<^item> \<open>Dashboard\<close>: the action handler, the receivers, the media loop, delivery tracking, the
    state page, and \<open>body\<close>, which assigns each task its goroutine.
  \<^item> \<open>Dash_Logic\<close>, \<open>Dash_History\<close>, \<open>Dash_Locks\<close>: the locales \<open>dash_logic\<close>, \<open>dash_guarantee\<close>,
    \<open>dash_program\<close> say what an invariant and a guarantee must satisfy to hold of every
    goroutine; they are interpreted for the histories and for the two mutexes of a phone.
    \<open>Dash_Runs\<close> draws the consequences for all runs; \<open>Dash_Actions\<close> and \<open>Dash_Receive\<close> give
    the functional behaviour of handlers and receivers.  \<open>Lab\<close> is a concrete world for
    witnesses.
  \<^item> \<open>Pages\<close> (server.go 497-531): the page and script that are served, with the replacements
    of texts that the settings ask for, and the server's settings.
  \<^item> \<open>Http_Proxy\<close>: settings, the wait for the interface, sockets bound to it, headers, tunnels
    and forwarding; \<open>Proxy_Props\<close>: headers, answers, isolation of uploads, the wait, and that
    all traffic stays on the interface.
  \<^item> \<open>Relay\<close>: the two goroutines that copy a tunnel's connections into each other, as a step
    relation with peers that send, read, stop and break off; a write goes as far as there is
    room and waits for more, for ever if the peer does not read.  \<open>Relay_Plans\<close>: the closing
    orders and deadlines of both proxies (locales \<open>relay_plan\<close> and \<open>uncut_plan\<close>): termination
    unless a peer stops reading, the hang of the HTTP proxy if one does, and what is delivered.

  \<^bold>\<open>Correspondence.\<close>  Definitions carry the names of the source.  An \<open>'w phone_api\<close> or
  \<open>'w proxy_api\<close> stands for code that is not in the repository (the tester and IMS packages,
  netlink, the HTML parser, Chromium) and for the operating system; errors are \<open>Inl\<close> of a
  message, early returns are branches, a handler that does not return is \<open>None\<close>.  A map of
  headers is a function; the order of a \<open>range\<close> loop is an argument.

  \<open>Go_Url\<close> follows \<^verbatim>\<open>net/url\<close> as it was before two checks were added to the parser: the
  releases that have them also reject a host with several colons outside brackets, and
  brackets around anything but an IPv6 address.  The model so admits a few URLs more than
  those releases do; what is proved of all admitted URLs covers theirs.

  \<^bold>\<open>Bounds.\<close>  There is no fuel.  Loops are structural; or tasks that go on until something
  outside happens, or until their own counter ends them (thirty polls); or, where they may
  run forever, \<open>partial_function\<close>s: that \<open>wait_for_interface\<close> and \<open>copy_body\<close> return is proved
  equivalent to a finite course of events, of \<open>receive_answer\<close> nothing is claimed.  Message
  numbers are 64-bit words; that received numbers increase is proved for runs of fewer than
  2 to the 64 steps, after which the counter may wrap.

  \<^bold>\<open>Not modelled.\<close>  Log lines; the two embedded files (browser code, arguments of \<open>Pages\<close>) and the
  loops of the HTTP servers; timeouts, deadlines and cancellation, which appear
  as errors of the calls they end (the deadline that the browser proxy gives the upstream of a
  relay is a step of \<open>Relay\<close>); the field order of JSON answers; \<^verbatim>\<open>main.go\<close>, \<^verbatim>\<open>ran_bridge.go\<close>
  and \<^verbatim>\<open>ims_bridge.go\<close> of the dashboard, which only call outside code; charts, manifests,
  scripts and browser assets.  The relay of the SOCKS proxy is one blocking call in \<open>Socks\<close>;
  its inside is \<open>Relay\<close>.
\<close>

end
